theory Spec2Isabelle
  imports Complex_Main
begin

section \<open>Numeric model\<close>

text \<open>
  The filter of \<^verbatim>\<open>kalman_filter.py\<close> computes with numpy floats. The embedding
  reads every float as a real number, so rounding is outside the model. What is kept is
  every place where the float computation leaves the reals: a division by zero and a
  negative power of a non-positive base (numpy answers \<^verbatim>\<open>inf\<close> or \<^verbatim>\<open>nan\<close> with a
  RuntimeWarning) are the value \<open>Inl FloatingPointError\<close>, and every exception the
  source can raise is a constructor of \<open>error\<close>. Neither of the two is reached by a filter
  that the constructor has built (\<open>fuse_value\<close>, \<open>fuse_readings_returns\<close>).
\<close>

datatype error =
    KeyError
  | TypeError
  | ValueError
  | IndexError
  | LinAlgError
  | FloatingPointError

definition bind :: "error + 'a \<Rightarrow> ('a \<Rightarrow> error + 'b) \<Rightarrow> error + 'b" where
  "bind m k = (case m of Inl e \<Rightarrow> Inl e | Inr x \<Rightarrow> k x)"

definition np_div :: "real \<Rightarrow> real \<Rightarrow> error + real" where
  "np_div a b = (if b = 0 then Inl FloatingPointError else Inr (a / b))"

definition np_power :: "real \<Rightarrow> real \<Rightarrow> error + real" where
  "np_power x e = (if 0 < x then Inr (x powr e) else Inl FloatingPointError)"

text \<open>\<^verbatim>\<open>np.finfo(np.float32).eps\<close>: the gap between 1 and the next float32, \<open>2\<^sup>-\<^sup>2\<^sup>3\<close>.\<close>

definition float32_eps :: real where
  "float32_eps = 1 / 2 ^ 23"

section \<open>Gaussian fusion\<close>

text \<open>
  \<^verbatim>\<open>fuse(first_mean, second_mean, first_deviation, second_deviation)\<close>, lines 210-218.
  Each quotient of the source is one \<open>np_div\<close>, in the order Python evaluates them.
\<close>

definition fuse :: "real \<Rightarrow> real \<Rightarrow> real \<Rightarrow> real \<Rightarrow> error + (real \<times> real)" where
  "fuse first_mean second_mean first_deviation second_deviation =
     bind (np_div first_mean (max (first_deviation ^ 2) float32_eps)) (\<lambda>a.
     bind (np_div second_mean (max (second_deviation ^ 2) float32_eps)) (\<lambda>b.
     bind (np_div 1 (max (first_deviation ^ 2) float32_eps)) (\<lambda>c.
     bind (np_div 1 (max (second_deviation ^ 2) float32_eps)) (\<lambda>d.
     bind (np_div (a + b) (c + d)) (\<lambda>mean.
     bind (np_div 1 (max (first_deviation ^ 2) float32_eps)) (\<lambda>c'.
     bind (np_div 1 (max (second_deviation ^ 2) float32_eps)) (\<lambda>d'.
     bind (np_power (c' + d') (- (1 / 2))) (\<lambda>deviation.
     Inr (mean, deviation)))))))))"

text \<open>
  The fusion formulas as the specification words them, for a floor \<open>\<epsilon>\<close> left open:
  \<open>v\<^sub>i = max(\<sigma>\<^sub>i\<^sup>2, \<epsilon>)\<close>, mean \<open>(m\<^sub>1/v\<^sub>1 + m\<^sub>2/v\<^sub>2) / (1/v\<^sub>1 + 1/v\<^sub>2)\<close>, standard deviation
  the square root of \<open>(1/v\<^sub>1 + 1/v\<^sub>2)\<^sup>-\<^sup>1\<close>.
\<close>

definition fuse_spec :: "real \<Rightarrow> real \<Rightarrow> real \<Rightarrow> real \<Rightarrow> real \<Rightarrow> real \<times> real" where
  "fuse_spec \<epsilon> m1 m2 \<sigma>1 \<sigma>2 =
     (let v1 = max (\<sigma>1 ^ 2) \<epsilon>; v2 = max (\<sigma>2 ^ 2) \<epsilon>
      in ((m1 / v1 + m2 / v2) / (1 / v1 + 1 / v2), sqrt (inverse (1 / v1 + 1 / v2))))"

section \<open>Matrices\<close>

text \<open>
  A numpy matrix is the list of its rows. \<^verbatim>\<open>np.matrix\<close> of an empty list of rows has
  shape \<open>(1, 0)\<close>: one row with no column. The shapes of the filter's matrices are fixed
  by the constructor (5 by 5, 5 by 1 and 1 by 5), so the ValueError of \<^verbatim>\<open>np.dot\<close> on
  operands that do not fit is not reachable and \<open>dot\<close> has no error branch.
\<close>

type_synonym mat = "real list list"

definition np_matrix :: "real list list \<Rightarrow> mat" where
  "np_matrix rows = (if rows = [] then [[]] else rows)"

definition identity :: "nat \<Rightarrow> mat" where
  "identity n = map (\<lambda>i. map (\<lambda>j. if i = j then 1 else 0) [0..<n]) [0..<n]"

definition zeros :: "nat \<Rightarrow> nat \<Rightarrow> mat" where
  "zeros r c = replicate r (replicate c 0)"

definition scale :: "mat \<Rightarrow> real \<Rightarrow> mat" where
  "scale A v = map (map (\<lambda>x. x * v)) A"

definition mat_add :: "mat \<Rightarrow> mat \<Rightarrow> mat" where
  "mat_add A B = map2 (map2 (+)) A B"

definition mat_sub :: "mat \<Rightarrow> mat \<Rightarrow> mat" where
  "mat_sub A B = map2 (map2 (-)) A B"

definition transpose_mat :: "mat \<Rightarrow> mat" where
  "transpose_mat A = (case A of [] \<Rightarrow> [] | r # _ \<Rightarrow> map (\<lambda>j. map (\<lambda>row. row ! j) A) [0..<length r])"

definition dot :: "mat \<Rightarrow> mat \<Rightarrow> mat" where
  "dot A B = map (\<lambda>row. map (\<lambda>col. sum_list (map2 (*) row col)) (transpose_mat B)) A"

text \<open>\<^verbatim>\<open>A[i, j]\<close> raises IndexError outside the shape; \<^verbatim>\<open>A[i, j] = v\<close> is used in range only.\<close>

definition mat_get :: "mat \<Rightarrow> nat \<Rightarrow> nat \<Rightarrow> error + real" where
  "mat_get A i j = (if i < length A \<and> j < length (A ! i) then Inr (A ! i ! j) else Inl IndexError)"

definition mat_set :: "mat \<Rightarrow> nat \<Rightarrow> nat \<Rightarrow> real \<Rightarrow> mat" where
  "mat_set A i j v = A[i := (A ! i)[j := v]]"

definition radians :: "real \<Rightarrow> real" where
  "radians d = d * pi / 180"

text \<open>
  \<^verbatim>\<open>np.radians\<close> and \<^verbatim>\<open>np.tan\<close>. \<^verbatim>\<open>np.tan\<close> returns a float for every float and
  raises nothing, so the model has no error exit either: it is the tangent of the reals,
  \<open>sin x / cos x\<close>, a total function. Where the cosine is zero (a heading of 90 degrees read
  exactly) the floats return a number of large magnitude and \<open>tan\<close> returns 0; no statement
  below depends on the value there.
\<close>

definition np_tan :: "real \<Rightarrow> real" where
  "np_tan x = tan x"

subsection \<open>Matrix inversion\<close>

text \<open>
  \<^verbatim>\<open>np.linalg.inv\<close> is numpy's, not this repository's: the update, the loop and the run
  below take it as the parameter \<open>invert\<close>, a function that returns a matrix or raises.
  Which matrices it reports as singular is decided by its floating-point elimination and
  is not fixed here; the statements assume of it at most that a matrix it returns has the
  shape of its argument.

  The sample inputs are inverted by \<open>gauss_jordan_inverse\<close>: Gauss-Jordan elimination on
  the rows of \<open>[S | I]\<close> in exact arithmetic with partial pivoting (the first entry of
  largest absolute value on or below the diagonal), which raises LinAlgError when a pivot
  is zero. It is one function that \<open>invert\<close> can be; on the matrices of the samples
  numpy's routine behaves as it does, up to rounding: it raises on the zero matrix and
  returns the inverse of the innovation covariance of the default configuration.
\<close>

definition augment :: "mat \<Rightarrow> mat" where
  "augment S = map2 (@) S (identity (length S))"

definition pivot_row :: "mat \<Rightarrow> nat \<Rightarrow> nat" where
  "pivot_row A j = fold (\<lambda>i p. if \<bar>A ! p ! j\<bar> < \<bar>A ! i ! j\<bar> then i else p) [Suc j..<length A] j"

definition swap_rows :: "nat \<Rightarrow> nat \<Rightarrow> mat \<Rightarrow> mat" where
  "swap_rows i j A = A[i := A ! j, j := A ! i]"

definition eliminate :: "nat \<Rightarrow> mat \<Rightarrow> mat" where
  "eliminate j A =
     (let pr = map (\<lambda>x. x / (A ! j ! j)) (A ! j)
      in map (\<lambda>i. if i = j then pr else map2 (\<lambda>x y. x - (A ! i ! j) * y) (A ! i) pr) [0..<length A])"

fun gauss_jordan :: "nat \<Rightarrow> nat \<Rightarrow> mat \<Rightarrow> error + mat" where
  "gauss_jordan 0 j A = Inr A"
| "gauss_jordan (Suc k) j A =
     (let p = pivot_row A j
      in if A ! p ! j = 0 then Inl LinAlgError
         else gauss_jordan k (Suc j) (eliminate j (swap_rows j p A)))"

definition gauss_jordan_inverse :: "mat \<Rightarrow> error + mat" where
  "gauss_jordan_inverse S = bind (gauss_jordan (length S) 0 (augment S)) (\<lambda>A. Inr (map (drop (length S)) A))"

section \<open>The filter\<close>

text \<open>
  The attributes of \<^verbatim>\<open>Kalman_filter\<close>. The attribute \<^verbatim>\<open>state\<close> is the field
  \<open>state_hist\<close>: a record field named \<open>state\<close> would give its update function the
  name of the method \<^verbatim>\<open>state_update\<close>.
\<close>

record kalman_filter =
  wheel_distance :: real
  delta_t :: real
  velocity :: real
  input_effect :: mat
  control_input :: mat
  process_noise :: mat
  measurement_effect :: mat
  measurement_cov :: mat
  previous_cov :: mat
  time :: mat
  odometry :: mat
  imu :: mat
  imu_cov :: mat
  gps :: mat
  gps_cov :: mat
  state_hist :: "mat list"

subsection \<open>Loading\<close>

text \<open>
  \<^verbatim>\<open>csv.DictReader\<close> hands \<^verbatim>\<open>get_data\<close> one dictionary per record: a column that the
  header does not name is a missing key, a cell that a short record leaves out is
  \<^verbatim>\<open>None\<close>. Python's \<^verbatim>\<open>float\<close> is the parameter \<open>pyfloat\<close>, \<open>None\<close> where it raises
  ValueError.
\<close>

type_synonym csv_row = "string \<rightharpoonup> string option"

definition time_index :: string where "time_index = ''%time''"
definition odometer_x :: string where "odometer_x = ''field.O_x''"
definition odometer_y :: string where "odometer_y = ''field.O_y''"
definition odometer_theta :: string where "odometer_theta = ''field.O_t''"
definition imu_theta :: string where "imu_theta = ''field.I_t''"
definition imu_cov_theta :: string where "imu_cov_theta = ''field.Co_I_t''"
definition gps_x :: string where "gps_x = ''field.G_x''"
definition gps_y :: string where "gps_y = ''field.G_y''"
definition gps_cov_x :: string where "gps_cov_x = ''field.Co_gps_x''"
definition gps_cov_y :: string where "gps_cov_y = ''field.Co_gps_y''"

definition float_field :: "(string \<Rightarrow> real option) \<Rightarrow> csv_row \<Rightarrow> string \<Rightarrow> error + real" where
  "float_field pyfloat line key =
     (case line key of
        None \<Rightarrow> Inl KeyError
      | Some None \<Rightarrow> Inl TypeError
      | Some (Some s) \<Rightarrow> (case pyfloat s of None \<Rightarrow> Inl ValueError | Some x \<Rightarrow> Inr x))"

record sensor_lists =
  list_time :: "real list list"
  list_odometry :: "real list list"
  list_imu :: "real list list"
  list_imu_cov :: "real list list"
  list_gps :: "real list list"
  list_gps_cov :: "real list list"

definition read_line :: "(string \<Rightarrow> real option) \<Rightarrow> csv_row \<Rightarrow> sensor_lists \<Rightarrow> error + sensor_lists" where
  "read_line pyfloat line acc =
     bind (float_field pyfloat line time_index) (\<lambda>t.
     bind (float_field pyfloat line odometer_x) (\<lambda>ox.
     bind (float_field pyfloat line odometer_y) (\<lambda>oy.
     bind (float_field pyfloat line odometer_theta) (\<lambda>ot.
     bind (float_field pyfloat line imu_theta) (\<lambda>it.
     bind (float_field pyfloat line imu_cov_theta) (\<lambda>cit.
     bind (float_field pyfloat line gps_x) (\<lambda>gx.
     bind (float_field pyfloat line gps_y) (\<lambda>gy.
     bind (float_field pyfloat line gps_cov_x) (\<lambda>cgx.
     bind (float_field pyfloat line gps_cov_y) (\<lambda>cgy.
     Inr (acc\<lparr>list_time := list_time acc @ [[t]],
              list_odometry := list_odometry acc @ [[ox, oy, ot]],
              list_imu := list_imu acc @ [[it]],
              list_imu_cov := list_imu_cov acc @ [[cit]],
              list_gps := list_gps acc @ [[gx, gy]],
              list_gps_cov := list_gps_cov acc @ [[cgx, cgy]]\<rparr>)))))))))))"

fun read_lines :: "(string \<Rightarrow> real option) \<Rightarrow> csv_row list \<Rightarrow> sensor_lists \<Rightarrow> error + sensor_lists" where
  "read_lines pyfloat [] acc = Inr acc"
| "read_lines pyfloat (line # rest) acc =
     bind (read_line pyfloat line acc) (read_lines pyfloat rest)"

definition get_data :: "(string \<Rightarrow> real option) \<Rightarrow> csv_row list \<Rightarrow> error + sensor_lists" where
  "get_data pyfloat data_reader =
     read_lines pyfloat data_reader
       \<lparr>list_time = [], list_odometry = [], list_imu = [], list_imu_cov = [],
        list_gps = [], list_gps_cov = []\<rparr>"

subsection \<open>Overrides and noise\<close>

text \<open>\<^verbatim>\<open>to_override[:, index] = value\<close> raises IndexError when the matrix has no such column.\<close>

definition set_column :: "mat \<Rightarrow> nat \<Rightarrow> real \<Rightarrow> error + mat" where
  "set_column A index v =
     (if list_all (\<lambda>row. index < length row) A then Inr (map (\<lambda>row. row[index := v]) A)
      else Inl IndexError)"

fun override_from :: "nat \<Rightarrow> mat \<Rightarrow> real list \<Rightarrow> error + mat" where
  "override_from index to_override [] = Inr to_override"
| "override_from index to_override (v # rest) =
     bind (set_column to_override index v) (\<lambda>A. override_from (Suc index) A rest)"

definition override_cov :: "mat \<Rightarrow> real list \<Rightarrow> error + mat" where
  "override_cov to_override override_value = override_from 0 to_override override_value"

text \<open>
  \<^verbatim>\<open>if gps_cov_override:\<close> is false for \<^verbatim>\<open>None\<close> and for the empty tuple.
\<close>

definition maybe_override :: "mat \<Rightarrow> real list option \<Rightarrow> error + mat" where
  "maybe_override A ov =
     (case ov of None \<Rightarrow> Inr A | Some vs \<Rightarrow> if vs = [] then Inr A else override_cov A vs)"

text \<open>
  \<^verbatim>\<open>noise_gps\<close> adds a sample drawn by \<^verbatim>\<open>np.random.normal\<close> in the shape of the GPS
  matrix; the sample is an input of the model, \<open>None\<close> when \<^verbatim>\<open>gps_noise\<close> is
  \<^verbatim>\<open>None\<close>.
\<close>

definition noise_gps :: "mat \<Rightarrow> mat option \<Rightarrow> mat" where
  "noise_gps G noise = (case noise of None \<Rightarrow> G | Some n \<Rightarrow> mat_add G n)"

subsection \<open>Constructor\<close>

definition kalman_filter_init ::
  "(string \<Rightarrow> real option) \<Rightarrow> csv_row list \<Rightarrow> real \<Rightarrow> real \<Rightarrow> real
     \<Rightarrow> real list option \<Rightarrow> real list option \<Rightarrow> mat option \<Rightarrow> error + kalman_filter" where
  "kalman_filter_init pyfloat file process_noise_val measurement_cov_val previous_cov_val
       gps_cov_override imu_cov_override gps_noise =
     bind (get_data pyfloat file) (\<lambda>d.
     bind (maybe_override (np_matrix (list_gps_cov d)) gps_cov_override) (\<lambda>gc.
     bind (maybe_override (np_matrix (list_imu_cov d)) imu_cov_override) (\<lambda>ic.
     Inr \<lparr>wheel_distance = 1,
          delta_t = 1 / 1000,
          velocity = 14 / 100,
          input_effect = identity 5,
          control_input = [[0], [0], [0], [0], [0]],
          process_noise = scale (identity 5) process_noise_val,
          measurement_effect = identity 5,
          measurement_cov = scale (identity 5) measurement_cov_val,
          previous_cov = scale (identity 5) previous_cov_val,
          time = np_matrix (list_time d),
          odometry = np_matrix (list_odometry d),
          imu = np_matrix (list_imu d),
          imu_cov = ic,
          gps = noise_gps (np_matrix (list_gps d)) gps_noise,
          gps_cov = gc,
          state_hist = [transpose_mat [[0], [0], [0], [0], [0]]]\<rparr>)))"

text \<open>The defaults of the constructor's keyword arguments.\<close>

definition default_process_noise_val :: real where "default_process_noise_val = 1 / 10000"
definition default_measurement_cov_val :: real where "default_measurement_cov_val = 1 / 100"
definition default_previous_cov_val :: real where "default_previous_cov_val = 1 / 100"

subsection \<open>Measurement composition\<close>

definition fuse_readings :: "nat \<Rightarrow> kalman_filter \<Rightarrow> error + (mat \<times> mat)" where
  "fuse_readings index f =
     (let mean = zeros 1 5; deviation = identity 5 in
      bind (mat_get (odometry f) index 0) (\<lambda>ox.
      bind (mat_get (gps f) index 0) (\<lambda>gx.
      bind (mat_get (measurement_cov f) 0 0) (\<lambda>m00.
      bind (mat_get (gps_cov f) index 0) (\<lambda>cgx.
      bind (fuse ox gx m00 cgx) (\<lambda>(mx, dx).
      let mean = mat_set mean 0 0 mx; deviation = mat_set deviation 0 0 dx in
      bind (mat_get (odometry f) index 1) (\<lambda>oy.
      bind (mat_get (gps f) index 1) (\<lambda>gy.
      bind (mat_get (measurement_cov f) 1 1) (\<lambda>m11.
      bind (mat_get (gps_cov f) index 1) (\<lambda>cgy.
      bind (fuse oy gy m11 cgy) (\<lambda>(my, dy).
      let mean = mat_set mean 0 1 my; deviation = mat_set deviation 1 1 dy;
          mean = mat_set mean 0 2 (velocity f) in
      bind (mat_get (measurement_cov f) 2 2) (\<lambda>m22.
      let deviation = mat_set deviation 2 2 m22 in
      bind (mat_get (odometry f) index 2) (\<lambda>ot.
      bind (mat_get (imu f) index 0) (\<lambda>it.
      bind (mat_get (measurement_cov f) 2 2) (\<lambda>m22'.
      bind (mat_get (imu_cov f) index 0) (\<lambda>cit.
      bind (fuse ot it m22' cit) (\<lambda>(mt, dt).
      let mean = mat_set mean 0 3 mt; deviation = mat_set deviation 3 3 dt in
      bind (mat_get (odometry f) index 2) (\<lambda>ot'.
      bind (np_div (velocity f * np_tan (radians ot')) (wheel_distance f)) (\<lambda>om.
      let mean = mat_set mean 0 4 om in
      bind (mat_get (measurement_cov f) 4 4) (\<lambda>m44.
      let deviation = mat_set deviation 4 4 m44 in
      Inr (transpose_mat mean, deviation)))))))))))))))))))))"

subsection \<open>Prediction\<close>

definition transition_matrix :: "real \<Rightarrow> real \<Rightarrow> mat" where
  "transition_matrix dt theta =
     [[1, 0, dt * cos (radians theta), 0, 0],
      [0, 1, dt * cos (radians theta), 0, 0],
      [0, 0, 1, 0, 0],
      [0, 0, 0, 1, dt],
      [0, 0, 0, 0, 1]]"

text \<open>
  A method that changes \<^verbatim>\<open>self\<close> returns its result together with the filter as it
  leaves it, also when it raises: the caller of a failed \<^verbatim>\<open>run\<close> still holds the object.
\<close>

definition model_predict :: "nat \<Rightarrow> kalman_filter \<Rightarrow> (error + mat) \<times> kalman_filter" where
  "model_predict index f =
     (case mat_get (odometry f) index 2 of
        Inl e \<Rightarrow> (Inl e, f)
      | Inr theta \<Rightarrow>
          (let F = transition_matrix (delta_t f) theta;
               f' = f\<lparr>previous_cov :=
                      mat_add (dot F (dot (previous_cov f) (transpose_mat F))) (process_noise f)\<rparr>
           in if state_hist f' = [] then (Inl IndexError, f')
              else (Inr (mat_add (dot F (transpose_mat (last (state_hist f'))))
                                 (dot (input_effect f') (control_input f'))), f')))"

subsection \<open>Update\<close>

definition cov_Y :: "kalman_filter \<Rightarrow> mat" where
  "cov_Y f = mat_add (measurement_cov f)
       (dot (measurement_effect f) (dot (previous_cov f) (transpose_mat (measurement_effect f))))"

definition kalman_gain :: "kalman_filter \<Rightarrow> mat \<Rightarrow> mat" where
  "kalman_gain f cov_Y_inv =
     dot (previous_cov f) (dot (transpose_mat (measurement_effect f)) cov_Y_inv)"

definition state_update ::
  "(mat \<Rightarrow> error + mat) \<Rightarrow> nat \<Rightarrow> kalman_filter \<Rightarrow> (error + unit) \<times> kalman_filter" where
  "state_update invert index f =
     (case model_predict index f of
        (Inl e, f1) \<Rightarrow> (Inl e, f1)
      | (Inr predicted_state, f1) \<Rightarrow>
          (case fuse_readings index f1 of
             Inl e \<Rightarrow> (Inl e, f1)
           | Inr (measurement_readings, measurement_variance) \<Rightarrow>
               (let predicted_distribution_Y = dot (measurement_effect f1) predicted_state
                in case invert (cov_Y f1) of
                     Inl e \<Rightarrow> (Inl e, f1)
                   | Inr cov_Y_inv \<Rightarrow>
                       (let K = kalman_gain f1 cov_Y_inv;
                            f2 = f1\<lparr>state_hist := state_hist f1 @
                                   [transpose_mat (mat_add predicted_state
                                      (dot K (mat_sub measurement_readings predicted_distribution_Y)))]\<rparr>;
                            f3 = f2\<lparr>previous_cov :=
                                   mat_sub (previous_cov f2) (dot K (dot (cov_Y f1) (transpose_mat K)))\<rparr>
                        in (Inr (), f3)))))"

subsection \<open>The run\<close>

fun run_loop ::
  "(mat \<Rightarrow> error + mat) \<Rightarrow> nat list \<Rightarrow> kalman_filter \<Rightarrow> (error + unit) \<times> kalman_filter" where
  "run_loop invert [] f = (Inr (), f)"
| "run_loop invert (index # rest) f =
     (case state_update invert index f of
        (Inl e, f') \<Rightarrow> (Inl e, f')
      | (Inr u, f') \<Rightarrow> run_loop invert rest f')"

definition run :: "(mat \<Rightarrow> error + mat) \<Rightarrow> kalman_filter \<Rightarrow> (error + unit) \<times> kalman_filter" where
  "run invert f = run_loop invert [0..<length (time f)] f"

section \<open>Specification predicates\<close>

text \<open>Shapes and symmetry of matrices, for the statements below.\<close>

definition is_mat :: "nat \<Rightarrow> nat \<Rightarrow> mat \<Rightarrow> bool" where
  "is_mat r c A = (length A = r \<and> list_all (\<lambda>row. length row = c) A)"

definition symmetric :: "mat \<Rightarrow> bool" where
  "symmetric A = (transpose_mat A = A)"

text \<open>
  The invariants of the elimination on the rows of \<open>[L | R]\<close>: every row keeps
  \<open>L = R S\<close>, and the columns left of the current one are unit columns.
\<close>

definition gj_inv :: "nat \<Rightarrow> mat \<Rightarrow> mat \<Rightarrow> bool" where
  "gj_inv n S A = (is_mat n (2 * n) A \<and> (\<forall>i<n. \<forall>c<n. A ! i ! c = (\<Sum>k<n. A ! i ! (n + k) * S ! k ! c)))"

definition gj_unit :: "nat \<Rightarrow> nat \<Rightarrow> mat \<Rightarrow> bool" where
  "gj_unit n j A = (\<forall>c<j. \<forall>i<n. A ! i ! c = (if i = c then 1 else 0))"

text \<open>
  A record is well formed when \<^verbatim>\<open>float\<close> reads each of the ten fields; \<open>field_value\<close> is
  the number read, \<open>loaded\<close> the lists the loop of \<^verbatim>\<open>get_data\<close> has built after the
  records, and \<open>load_error\<close> marks the three exceptions a field can raise.
\<close>

definition all_fields :: "string list" where
  "all_fields = [time_index, odometer_x, odometer_y, odometer_theta, imu_theta, imu_cov_theta,
     gps_x, gps_y, gps_cov_x, gps_cov_y]"

definition row_ok :: "(string \<Rightarrow> real option) \<Rightarrow> csv_row \<Rightarrow> bool" where
  "row_ok pyfloat line = list_all (\<lambda>key. \<not> isl (float_field pyfloat line key)) all_fields"

definition field_value :: "(string \<Rightarrow> real option) \<Rightarrow> csv_row \<Rightarrow> string \<Rightarrow> real" where
  "field_value pyfloat line key = projr (float_field pyfloat line key)"

definition load_error :: "error \<Rightarrow> bool" where
  "load_error e = (e = KeyError \<or> e = TypeError \<or> e = ValueError)"

definition loaded :: "(string \<Rightarrow> real option) \<Rightarrow> csv_row list \<Rightarrow> sensor_lists \<Rightarrow> sensor_lists" where
  "loaded pf recs acc =
     acc\<lparr>list_time := list_time acc @ map (\<lambda>l. [field_value pf l time_index]) recs,
         list_odometry := list_odometry acc @ map (\<lambda>l. [field_value pf l odometer_x,
            field_value pf l odometer_y, field_value pf l odometer_theta]) recs,
         list_imu := list_imu acc @ map (\<lambda>l. [field_value pf l imu_theta]) recs,
         list_imu_cov := list_imu_cov acc @ map (\<lambda>l. [field_value pf l imu_cov_theta]) recs,
         list_gps := list_gps acc @ map (\<lambda>l. [field_value pf l gps_x, field_value pf l gps_y]) recs,
         list_gps_cov := list_gps_cov acc @ map (\<lambda>l. [field_value pf l gps_cov_x,
            field_value pf l gps_cov_y]) recs\<rparr>"

text \<open>
  What the constructor establishes and every step keeps: the constant matrices, the
  diagonal process noise and measurement covariance of the configuration \<open>q\<close>, \<open>m\<close>, a
  5 by 5 covariance and a history of 1 by 5 rows that is never empty.
\<close>

definition wf_filter :: "real \<Rightarrow> real \<Rightarrow> kalman_filter \<Rightarrow> bool" where
  "wf_filter q m f =
     (input_effect f = identity 5 \<and> control_input f = [[0], [0], [0], [0], [0]]
      \<and> measurement_effect f = identity 5
      \<and> process_noise f = scale (identity 5) q \<and> measurement_cov f = scale (identity 5) m
      \<and> is_mat 5 5 (previous_cov f) \<and> state_hist f \<noteq> [] \<and> list_all (is_mat 1 5) (state_hist f))"

text \<open>
  What the statements assume of the inversion where they need it: the matrix it returns
  for a square matrix has the shape of that matrix.
\<close>

definition keeps_shape :: "(mat \<Rightarrow> error + mat) \<Rightarrow> bool" where
  "keeps_shape invert = (\<forall>n S M. is_mat n n S \<longrightarrow> invert S = Inr M \<longrightarrow> is_mat n n M)"

text \<open>
  The sensor matrices hold the record of a timestep: the index is a row of each, with
  three odometry values, one IMU value and variance and two GPS values and variances. The
  wheel distance, which the constructor sets to 1, is not zero.
\<close>

definition has_record :: "nat \<Rightarrow> kalman_filter \<Rightarrow> bool" where
  "has_record index f =
     (index < length (odometry f) \<and> length (odometry f ! index) = 3
      \<and> index < length (imu f) \<and> length (imu f ! index) = 1
      \<and> index < length (imu_cov f) \<and> length (imu_cov f ! index) = 1
      \<and> index < length (gps f) \<and> length (gps f ! index) = 2
      \<and> index < length (gps_cov f) \<and> length (gps_cov f ! index) = 2
      \<and> wheel_distance f \<noteq> 0)"

text \<open>The sample of \<^verbatim>\<open>np.random.normal\<close> has the shape of the GPS matrix of the records.\<close>

definition noise_fits :: "csv_row list \<Rightarrow> mat option \<Rightarrow> bool" where
  "noise_fits recs noise = (case noise of None \<Rightarrow> True | Some n \<Rightarrow> is_mat (length recs) 2 n)"

text \<open>The filter \<^verbatim>\<open>state_update\<close> leaves when the inversion has returned \<open>Sinv\<close>.\<close>

definition updated :: "kalman_filter \<Rightarrow> mat \<Rightarrow> mat \<Rightarrow> mat \<Rightarrow> kalman_filter" where
  "updated f1 x z Sinv =
     f1\<lparr>state_hist := state_hist f1 @
           [transpose_mat (mat_add x (dot (kalman_gain f1 Sinv) (mat_sub z (dot (measurement_effect f1) x))))],
        previous_cov := mat_sub (previous_cov f1)
           (dot (kalman_gain f1 Sinv) (dot (cov_Y f1) (transpose_mat (kalman_gain f1 Sinv))))\<rparr>"

section \<open>Sample inputs\<close>

text \<open>
  Concrete inputs for the statements below. \<open>demo_float\<close> reads the few literals the
  sample records use as Python's \<^verbatim>\<open>float\<close> does and counts every other string as
  non-numeric. A sample record has heading 0, equal odometry and GPS positions and the given
  variances. The matrices are the exact values the filter computes on the samples.
\<close>

definition demo_float :: "string \<Rightarrow> real option" where
  "demo_float s = (if s = ''0'' then Some 0 else if s = ''1'' then Some 1
     else if s = ''2'' then Some 2 else if s = ''0.01'' then Some (1 / 100) else None)"

definition demo_row :: "string \<Rightarrow> string \<Rightarrow> string \<Rightarrow> string \<Rightarrow> csv_row" where
  "demo_row t x ci cg = map_of
     [(time_index, Some t), (odometer_x, Some x), (odometer_y, Some ''0''),
      (odometer_theta, Some ''0''), (imu_theta, Some ''0''), (imu_cov_theta, Some ci),
      (gps_x, Some x), (gps_y, Some ''0''), (gps_cov_x, Some cg), (gps_cov_y, Some cg)]"

definition sample_filter ::
  "real \<Rightarrow> real \<Rightarrow> real \<Rightarrow> mat \<Rightarrow> mat \<Rightarrow> mat \<Rightarrow> mat \<Rightarrow> mat \<Rightarrow> mat \<Rightarrow> kalman_filter" where
  "sample_filter q m p t od im imc gp gc =
     \<lparr>wheel_distance = 1, delta_t = 1 / 1000, velocity = 14 / 100,
      input_effect = identity 5, control_input = [[0], [0], [0], [0], [0]],
      process_noise = scale (identity 5) q, measurement_effect = identity 5,
      measurement_cov = scale (identity 5) m, previous_cov = scale (identity 5) p,
      time = t, odometry = od, imu = im, imu_cov = imc, gps = gp, gps_cov = gc,
      state_hist = [[[0, 0, 0, 0, 0]]]\<rparr>"

definition one_record :: "real \<Rightarrow> real \<Rightarrow> real \<Rightarrow> kalman_filter" where
  "one_record q m p =
     sample_filter q m p [[0]] [[1, 0, 0]] [[0]] [[1 / 100]] [[1, 0]] [[1 / 100, 1 / 100]]"

definition two_records :: "real \<Rightarrow> real \<Rightarrow> real \<Rightarrow> mat \<Rightarrow> kalman_filter" where
  "two_records q m p t =
     sample_filter q m p t [[1, 0, 0], [2, 0, 0]] [[0], [0]] [[1 / 100], [1 / 100]]
       [[1, 0], [2, 0]] [[1 / 100, 1 / 100], [1 / 100, 1 / 100]]"

definition transition_0 :: mat where
  "transition_0 =
  [[1, 0, 1 / 1000, 0, 0],
   [0, 1, 1 / 1000, 0, 0],
   [0, 0, 1, 0, 0],
   [0, 0, 0, 1, 1 / 1000],
   [0, 0, 0, 0, 1]]"

definition default_cov_pred :: mat where
  "default_cov_pred =
  [[1010001 / 100000000, 1 / 100000000, 1 / 100000, 0, 0],
   [1 / 100000000, 1010001 / 100000000, 1 / 100000, 0, 0],
   [1 / 100000, 1 / 100000, 101 / 10000, 0, 0],
   [0, 0, 0, 1010001 / 100000000, 1 / 100000],
   [0, 0, 0, 1 / 100000, 101 / 10000]]"

definition default_cov_Y :: mat where
  "default_cov_Y =
  [[2010001 / 100000000, 1 / 100000000, 1 / 100000, 0, 0],
   [1 / 100000000, 2010001 / 100000000, 1 / 100000, 0, 0],
   [1 / 100000, 1 / 100000, 201 / 10000, 0, 0],
   [0, 0, 0, 2010001 / 100000000, 1 / 100000],
   [0, 0, 0, 1 / 100000, 201 / 10000]]"

definition default_cov_Y_inv :: mat where
  "default_cov_Y_inv =
  [[2020050505000 / 40603025301, - (505000 / 40603025301), - (5000000 / 202005101), 0, 0],
   [- (505000 / 40603025301), 2020050505000 / 40603025301, - (5000000 / 202005101), 0, 0],
   [- (5000000 / 202005101), - (5000000 / 202005101), 10050010000 / 202005101, 0, 0],
   [0, 0, 0, 20100000000 / 404010101, - (10000000 / 404010101)],
   [0, 0, 0, - (10000000 / 404010101), 20100010000 / 404010101]]"

section \<open>Properties of the model\<close>

subsection \<open>Basic facts\<close>

lemma bind_Inr [simp]: "bind (Inr x) k = k x"
  by (simp add: bind_def)

lemma bind_Inl [simp]: "bind (Inl e) k = Inl e"
  by (simp add: bind_def)

lemma float32_eps_pos: "0 < float32_eps"
  by (simp add: float32_eps_def)

lemma floor_pos: "0 < max (s ^ 2) float32_eps"
  using float32_eps_pos by (simp add: less_max_iff_disj)

subsection \<open>Matrix algebra on lists of rows\<close>

lemma is_matD: "is_mat r c A \<Longrightarrow> length A = r" "is_mat r c A \<Longrightarrow> i < r \<Longrightarrow> length (A ! i) = c"
  by (auto simp: is_mat_def list_all_length)

lemma is_matI: "length A = r \<Longrightarrow> (\<And>i. i < r \<Longrightarrow> length (A ! i) = c) \<Longrightarrow> is_mat r c A"
  by (auto simp: is_mat_def list_all_length)

lemma mat_eqI:
  assumes "is_mat r c A" "is_mat r c B" "\<And>i j. i < r \<Longrightarrow> j < c \<Longrightarrow> A ! i ! j = B ! i ! j"
  shows "A = B"
proof (rule nth_equalityI)
  show "length A = length B" using assms by (simp add: is_matD)
  fix i assume "i < length A"
  then have i: "i < r" using assms by (simp add: is_matD)
  show "A ! i = B ! i"
    using assms i by (intro nth_equalityI) (simp_all add: is_matD)
qed

lemma is_mat_identity: "is_mat n n (identity n)"
  by (rule is_matI) (simp_all add: identity_def)

lemma identity_nth: "i < n \<Longrightarrow> j < n \<Longrightarrow> identity n ! i ! j = (if i = j then 1 else 0)"
  by (simp add: identity_def)

lemma is_mat_scale: "is_mat r c A \<Longrightarrow> is_mat r c (scale A v)"
  by (rule is_matI) (simp_all add: scale_def is_matD)

lemma scale_nth: "is_mat r c A \<Longrightarrow> i < r \<Longrightarrow> j < c \<Longrightarrow> scale A v ! i ! j = A ! i ! j * v"
  by (simp add: scale_def is_matD)

lemma is_mat_add: "is_mat r c A \<Longrightarrow> is_mat r c B \<Longrightarrow> is_mat r c (mat_add A B)"
  by (rule is_matI) (simp_all add: mat_add_def is_matD)

lemma mat_add_nth:
  "is_mat r c A \<Longrightarrow> is_mat r c B \<Longrightarrow> i < r \<Longrightarrow> j < c \<Longrightarrow> mat_add A B ! i ! j = A ! i ! j + B ! i ! j"
  by (simp add: mat_add_def is_matD)

lemma is_mat_sub: "is_mat r c A \<Longrightarrow> is_mat r c B \<Longrightarrow> is_mat r c (mat_sub A B)"
  by (rule is_matI) (simp_all add: mat_sub_def is_matD)

lemma mat_sub_nth:
  "is_mat r c A \<Longrightarrow> is_mat r c B \<Longrightarrow> i < r \<Longrightarrow> j < c \<Longrightarrow> mat_sub A B ! i ! j = A ! i ! j - B ! i ! j"
  by (simp add: mat_sub_def is_matD)

lemma transpose_mat_eq:
  assumes "is_mat r c A" "0 < r"
  shows "transpose_mat A = map (\<lambda>j. map (\<lambda>row. row ! j) A) [0..<c]"
proof -
  obtain x xs where A: "A = x # xs" using assms by (cases A) (auto simp: is_mat_def)
  then have "length x = c" using assms by (simp add: is_mat_def)
  then show ?thesis by (simp add: transpose_mat_def A)
qed

lemma is_mat_transpose: "is_mat r c A \<Longrightarrow> 0 < r \<Longrightarrow> is_mat c r (transpose_mat A)"
  by (rule is_matI) (simp_all add: transpose_mat_eq is_matD)

lemma transpose_nth:
  "is_mat r c A \<Longrightarrow> i < r \<Longrightarrow> j < c \<Longrightarrow> transpose_mat A ! j ! i = A ! i ! j"
  by (simp add: transpose_mat_eq is_matD)

lemma sum_list_map2_nth:
  "length xs = n \<Longrightarrow> length ys = n \<Longrightarrow> sum_list (map2 (*) xs ys) = (\<Sum>k<n. xs ! k * ys ! k :: real)"
  by (simp add: sum_list_sum_nth atLeast0LessThan)

lemma is_mat_dot:
  assumes "is_mat r n A" "is_mat n c B" "0 < n"
  shows "is_mat r c (dot A B)"
  using assms by (intro is_matI) (simp_all add: dot_def transpose_mat_eq [OF assms(2,3)] is_matD)

lemma dot_nth:
  assumes "is_mat r n A" "is_mat n c B" "0 < n" "i < r" "j < c"
  shows "dot A B ! i ! j = (\<Sum>k<n. A ! i ! k * B ! k ! j)"
proof -
  have "dot A B ! i ! j = sum_list (map2 (*) (A ! i) (map (\<lambda>row. row ! j) B))"
    using assms by (simp add: dot_def transpose_mat_eq [OF assms(2,3)] is_matD)
  also have "\<dots> = (\<Sum>k<n. A ! i ! k * map (\<lambda>row. row ! j) B ! k)"
    using assms by (intro sum_list_map2_nth) (simp_all add: is_matD)
  also have "\<dots> = (\<Sum>k<n. A ! i ! k * B ! k ! j)"
    using assms by (intro sum.cong) (simp_all add: is_matD)
  finally show ?thesis .
qed

lemma symmetric_iff:
  assumes "is_mat n n A" "0 < n"
  shows "symmetric A \<longleftrightarrow> (\<forall>i<n. \<forall>j<n. A ! i ! j = A ! j ! i)"
proof
  assume s: "symmetric A"
  show "\<forall>i<n. \<forall>j<n. A ! i ! j = A ! j ! i"
  proof (intro allI impI)
    fix i j assume "i < n" "j < n"
    then have "transpose_mat A ! j ! i = A ! i ! j" using assms by (simp add: transpose_nth)
    then show "A ! i ! j = A ! j ! i" using s by (simp add: symmetric_def)
  qed
next
  assume h: "\<forall>i<n. \<forall>j<n. A ! i ! j = A ! j ! i"
  have "transpose_mat A = A"
    using assms h by (intro mat_eqI [of n n]) (simp_all add: is_mat_transpose transpose_nth)
  then show "symmetric A" by (simp add: symmetric_def)
qed

lemma congruence_nth:
  assumes A: "is_mat n n A" and S: "is_mat n n S" and n: "0 < n" and i: "i < n" and j: "j < n"
  shows "dot A (dot S (transpose_mat A)) ! i ! j = (\<Sum>k<n. \<Sum>l<n. A ! i ! k * S ! k ! l * A ! j ! l)"
proof -
  have T: "is_mat n n (transpose_mat A)" using A n by (rule is_mat_transpose)
  have D: "is_mat n n (dot S (transpose_mat A))" using S T n by (rule is_mat_dot)
  have "dot A (dot S (transpose_mat A)) ! i ! j = (\<Sum>k<n. A ! i ! k * dot S (transpose_mat A) ! k ! j)"
    using A D n i j by (rule dot_nth)
  also have "\<dots> = (\<Sum>k<n. A ! i ! k * (\<Sum>l<n. S ! k ! l * A ! j ! l))"
  proof (rule sum.cong [OF refl])
    fix k assume "k \<in> {..<n}"
    then have k: "k < n" by simp
    have "dot S (transpose_mat A) ! k ! j = (\<Sum>l<n. S ! k ! l * transpose_mat A ! l ! j)"
      using S T n k j by (rule dot_nth)
    also have "\<dots> = (\<Sum>l<n. S ! k ! l * A ! j ! l)"
      using A j by (intro sum.cong) (simp_all add: transpose_nth)
    finally show "A ! i ! k * dot S (transpose_mat A) ! k ! j = A ! i ! k * (\<Sum>l<n. S ! k ! l * A ! j ! l)"
      by simp
  qed
  also have "\<dots> = (\<Sum>k<n. \<Sum>l<n. A ! i ! k * S ! k ! l * A ! j ! l)"
    by (simp add: sum_distrib_left mult.assoc)
  finally show ?thesis .
qed

lemma is_mat_congruence:
  assumes "is_mat n n A" "is_mat n n S" "0 < n"
  shows "is_mat n n (dot A (dot S (transpose_mat A)))"
  using assms by (intro is_mat_dot is_mat_transpose)

lemma congruence_symmetric:
  assumes A: "is_mat n n A" and S: "is_mat n n S" and n: "0 < n" and sym: "symmetric S"
  shows "symmetric (dot A (dot S (transpose_mat A)))"
proof -
  have s: "S ! k ! l = S ! l ! k" if "k < n" "l < n" for k l
    using sym S n that by (simp add: symmetric_iff)
  have "dot A (dot S (transpose_mat A)) ! i ! j = dot A (dot S (transpose_mat A)) ! j ! i"
    if i: "i < n" and j: "j < n" for i j
  proof -
    have "(\<Sum>k<n. \<Sum>l<n. A ! i ! k * S ! k ! l * A ! j ! l) = (\<Sum>l<n. \<Sum>k<n. A ! i ! k * S ! k ! l * A ! j ! l)"
      by (rule sum.swap)
    also have "\<dots> = (\<Sum>l<n. \<Sum>k<n. A ! j ! l * S ! l ! k * A ! i ! k)"
      by (intro sum.cong refl) (simp add: s)
    finally show ?thesis using A S n i j by (simp add: congruence_nth)
  qed
  then show ?thesis
    using is_mat_congruence [OF A S n] n by (simp add: symmetric_iff)
qed

lemma symmetric_add:
  assumes A: "is_mat n n A" and B: "is_mat n n B" and n: "0 < n" and "symmetric A" "symmetric B"
  shows "symmetric (mat_add A B)"
proof -
  have "\<forall>i<n. \<forall>j<n. A ! i ! j = A ! j ! i" "\<forall>i<n. \<forall>j<n. B ! i ! j = B ! j ! i"
    using assms symmetric_iff by blast+
  then have "\<forall>i<n. \<forall>j<n. mat_add A B ! i ! j = mat_add A B ! j ! i"
    using A B by (simp add: mat_add_nth)
  then show ?thesis using symmetric_iff [OF is_mat_add [OF A B] n] by simp
qed

lemma symmetric_sub:
  assumes A: "is_mat n n A" and B: "is_mat n n B" and n: "0 < n" and "symmetric A" "symmetric B"
  shows "symmetric (mat_sub A B)"
proof -
  have "\<forall>i<n. \<forall>j<n. A ! i ! j = A ! j ! i" "\<forall>i<n. \<forall>j<n. B ! i ! j = B ! j ! i"
    using assms symmetric_iff by blast+
  then have "\<forall>i<n. \<forall>j<n. mat_sub A B ! i ! j = mat_sub A B ! j ! i"
    using A B by (simp add: mat_sub_nth)
  then show ?thesis using symmetric_iff [OF is_mat_sub [OF A B] n] by simp
qed

lemma symmetric_scaled_identity:
  assumes n: "0 < n"
  shows "symmetric (scale (identity n) v)"
proof -
  have "\<forall>i<n. \<forall>j<n. scale (identity n) v ! i ! j = scale (identity n) v ! j ! i"
    by (simp add: scale_nth [OF is_mat_identity] identity_nth)
  then show ?thesis using symmetric_iff [OF is_mat_scale [OF is_mat_identity] n] by simp
qed

lemma transpose_identity:
  assumes n: "0 < n"
  shows "transpose_mat (identity n) = identity n"
proof (rule mat_eqI [of n n])
  show "is_mat n n (transpose_mat (identity n))" using is_mat_identity n by (rule is_mat_transpose)
  show "is_mat n n (identity n)" by (rule is_mat_identity)
  fix i j assume "i < n" "j < n"
  then show "transpose_mat (identity n) ! i ! j = identity n ! i ! j"
    by (simp add: transpose_nth [OF is_mat_identity] identity_nth)
qed

lemma dot_identity_left:
  assumes "is_mat n c A" "0 < n"
  shows "dot (identity n) A = A"
proof (rule mat_eqI [of n c])
  show "is_mat n c (dot (identity n) A)" using is_mat_identity assms by (rule is_mat_dot)
  show "is_mat n c A" by fact
  fix i j assume i: "i < n" and j: "j < c"
  have "dot (identity n) A ! i ! j = (\<Sum>k<n. identity n ! i ! k * A ! k ! j)"
    using is_mat_identity assms i j by (rule dot_nth)
  also have "\<dots> = (\<Sum>k<n. if i = k then A ! k ! j else 0)"
    using i by (intro sum.cong) (simp_all add: identity_nth)
  also have "\<dots> = A ! i ! j" using i by simp
  finally show "dot (identity n) A ! i ! j = A ! i ! j" .
qed

lemma dot_identity_right:
  assumes "is_mat r n A" "0 < n"
  shows "dot A (identity n) = A"
proof (rule mat_eqI [of r n])
  show "is_mat r n (dot A (identity n))" using assms(1) is_mat_identity assms(2) by (rule is_mat_dot)
  show "is_mat r n A" by fact
  fix i j assume i: "i < r" and j: "j < n"
  have "dot A (identity n) ! i ! j = (\<Sum>k<n. A ! i ! k * identity n ! k ! j)"
    using assms(1) is_mat_identity assms(2) i j by (rule dot_nth)
  also have "\<dots> = (\<Sum>k<n. if k = j then A ! i ! k else 0)"
    using j by (intro sum.cong) (simp_all add: identity_nth)
  also have "\<dots> = A ! i ! j" using j by simp
  finally show "dot A (identity n) ! i ! j = A ! i ! j" .
qed

subsection \<open>Gauss-Jordan elimination returns a left inverse\<close>

lemma fold_pivot_bounds:
  assumes "\<forall>i\<in>set xs. j \<le> i \<and> i < n" "j \<le> p" "p < n"
  shows "j \<le> fold (\<lambda>i p. if \<bar>A ! p ! c\<bar> < \<bar>A ! i ! c\<bar> then i else p) xs p
     \<and> fold (\<lambda>i p. if \<bar>A ! p ! c\<bar> < \<bar>A ! i ! c\<bar> then i else p) xs p < n"
  using assms by (induction xs arbitrary: p) auto

lemma pivot_row_bounds:
  assumes "j < length A"
  shows "j \<le> pivot_row A j" "pivot_row A j < length A"
  using fold_pivot_bounds [of "[Suc j..<length A]" j "length A" j A j] assms
  by (simp_all add: pivot_row_def)

lemma swap_rows_nth:
  "i < length A \<Longrightarrow> j < length A \<Longrightarrow> k < length A \<Longrightarrow>
     swap_rows i j A ! k = (if k = j then A ! i else if k = i then A ! j else A ! k)"
  by (simp add: swap_rows_def nth_list_update)

lemma length_swap_rows [simp]: "length (swap_rows i j A) = length A"
  by (simp add: swap_rows_def)

lemma is_mat_swap_rows:
  assumes "is_mat n m A" "i < n" "j < n"
  shows "is_mat n m (swap_rows i j A)"
proof (rule is_matI)
  show "length (swap_rows i j A) = n" using assms by (simp add: is_matD)
  fix k assume "k < n"
  then show "length (swap_rows i j A ! k) = m"
    using assms by (simp add: swap_rows_nth is_matD)
qed

lemma length_eliminate [simp]: "length (eliminate j A) = length A"
  by (simp add: eliminate_def Let_def)

lemma eliminate_row:
  "i < length A \<Longrightarrow> eliminate j A ! i =
     (if i = j then map (\<lambda>x. x / (A ! j ! j)) (A ! j)
      else map2 (\<lambda>x y. x - (A ! i ! j) * y) (A ! i) (map (\<lambda>x. x / (A ! j ! j)) (A ! j)))"
  by (simp add: eliminate_def Let_def)

lemma is_mat_eliminate:
  assumes "is_mat n m A" "j < n"
  shows "is_mat n m (eliminate j A)"
proof (rule is_matI)
  show "length (eliminate j A) = n" using assms by (simp add: is_matD)
  fix i assume "i < n"
  then show "length (eliminate j A ! i) = m"
    using assms by (simp add: eliminate_row is_matD)
qed

lemma eliminate_nth:
  assumes "is_mat n m A" "j < n" "i < n" "c < m"
  shows "eliminate j A ! i ! c =
     (if i = j then A ! j ! c / A ! j ! j else A ! i ! c - A ! i ! j * (A ! j ! c / A ! j ! j))"
  using assms by (simp add: eliminate_row is_matD)

lemma gj_inv_swap:
  assumes "gj_inv n S A" "i < n" "j < n"
  shows "gj_inv n S (swap_rows i j A)"
proof -
  have len: "length A = n" using assms(1) by (auto simp: gj_inv_def dest: is_matD(1))
  show ?thesis
    unfolding gj_inv_def
  proof (intro conjI allI impI)
    show "is_mat n (2 * n) (swap_rows i j A)"
      using assms by (simp add: gj_inv_def is_mat_swap_rows)
    fix k c assume "k < n" "c < n"
    then show "swap_rows i j A ! k ! c = (\<Sum>l<n. swap_rows i j A ! k ! (n + l) * S ! l ! c)"
      using assms len by (simp add: swap_rows_nth gj_inv_def)
  qed
qed

lemma gj_inv_eliminate:
  assumes inv: "gj_inv n S A" and j: "j < n"
  shows "gj_inv n S (eliminate j A)"
proof -
  have m: "is_mat n (2 * n) A" using inv by (simp add: gj_inv_def)
  have rel: "A ! i ! c = (\<Sum>k<n. A ! i ! (n + k) * S ! k ! c)" if "i < n" "c < n" for i c
    using inv that by (simp add: gj_inv_def)
  show ?thesis
    unfolding gj_inv_def
  proof (intro conjI allI impI)
    show "is_mat n (2 * n) (eliminate j A)" using m j by (rule is_mat_eliminate)
    fix i c assume i: "i < n" and c: "c < n"
    have e: "eliminate j A ! i ! (n + k) =
        (if i = j then A ! j ! (n + k) / A ! j ! j else A ! i ! (n + k) - A ! i ! j * (A ! j ! (n + k) / A ! j ! j))"
      if "k < n" for k
      using that i j by (intro eliminate_nth [OF m]) simp_all
    have "(\<Sum>k<n. eliminate j A ! i ! (n + k) * S ! k ! c) =
        (\<Sum>k<n. (if i = j then A ! j ! (n + k) / A ! j ! j else A ! i ! (n + k) - A ! i ! j * (A ! j ! (n + k) / A ! j ! j)) * S ! k ! c)"
      by (intro sum.cong refl) (simp add: e)
    also have "\<dots> = (if i = j then A ! j ! c / A ! j ! j else A ! i ! c - A ! i ! j * (A ! j ! c / A ! j ! j))"
    proof (cases "i = j")
      case True
      have "(\<Sum>k<n. A ! j ! (n + k) / A ! j ! j * S ! k ! c) = (\<Sum>k<n. A ! j ! (n + k) * S ! k ! c) / A ! j ! j"
        by (simp add: sum_divide_distrib)
      then show ?thesis using True rel [OF j c] by simp
    next
      case False
      have "(\<Sum>k<n. (A ! i ! (n + k) - A ! i ! j * (A ! j ! (n + k) / A ! j ! j)) * S ! k ! c)
          = (\<Sum>k<n. A ! i ! (n + k) * S ! k ! c) - A ! i ! j * ((\<Sum>k<n. A ! j ! (n + k) * S ! k ! c) / A ! j ! j)"
        by (simp add: sum_subtractf sum_distrib_left sum_divide_distrib left_diff_distrib mult.assoc)
      then show ?thesis using False rel [OF i c] rel [OF j c] by simp
    qed
    also have "\<dots> = eliminate j A ! i ! c"
      using i j c by (simp add: eliminate_nth [OF m])
    finally show "eliminate j A ! i ! c = (\<Sum>k<n. eliminate j A ! i ! (n + k) * S ! k ! c)" by simp
  qed
qed

lemma gj_unit_swap:
  assumes u: "gj_unit n j A" and len: "length A = n" and j: "j < n" and p: "j \<le> p" "p < n"
  shows "gj_unit n j (swap_rows j p A)"
  unfolding gj_unit_def
proof (intro allI impI)
  fix c i assume c: "c < j" and i: "i < n"
  have z: "A ! j ! c = 0" "A ! p ! c = 0" using u c j p by (simp_all add: gj_unit_def)
  show "swap_rows j p A ! i ! c = (if i = c then 1 else 0)"
    using u c i j p len z by (auto simp: swap_rows_nth gj_unit_def)
qed

lemma gj_unit_eliminate:
  assumes u: "gj_unit n j A" and m: "is_mat n (2 * n) A" and j: "j < n" and piv: "A ! j ! j \<noteq> 0"
  shows "gj_unit n (Suc j) (eliminate j A)"
  unfolding gj_unit_def
proof (intro allI impI)
  fix c i assume c: "c < Suc j" and i: "i < n"
  have c2: "c < 2 * n" using c j by simp
  show "eliminate j A ! i ! c = (if i = c then 1 else 0)"
  proof (cases "c = j")
    case True
    then show ?thesis using i j piv c2 by (simp add: eliminate_nth [OF m])
  next
    case False
    then have cj: "c < j" using c by simp
    then have "A ! j ! c = 0" "A ! i ! c = (if i = c then 1 else 0)"
      using u i j by (simp_all add: gj_unit_def)
    moreover have "eliminate j A ! i ! c =
        (if i = j then A ! j ! c / A ! j ! j else A ! i ! c - A ! i ! j * (A ! j ! c / A ! j ! j))"
      using m j i c2 by (rule eliminate_nth)
    ultimately show ?thesis using cj by auto
  qed
qed

lemma gauss_jordan_invariant:
  assumes "gauss_jordan k j A = Inr B" "k + j = n" "gj_inv n S A" "gj_unit n j A"
  shows "gj_inv n S B \<and> gj_unit n n B"
  using assms
proof (induction k arbitrary: j A)
  case 0
  then show ?case by simp
next
  case (Suc k)
  let ?p = "pivot_row A j"
  let ?A1 = "swap_rows j ?p A"
  let ?A2 = "eliminate j ?A1"
  have j: "j < n" using Suc.prems(2) by simp
  have m: "is_mat n (2 * n) A" using Suc.prems(3) by (simp add: gj_inv_def)
  then have len: "length A = n" by (simp add: is_matD)
  have p: "j \<le> ?p" "?p < n" using pivot_row_bounds [of j A] j len by simp_all
  from Suc.prems(1) have piv: "A ! ?p ! j \<noteq> 0" and rec: "gauss_jordan k (Suc j) ?A2 = Inr B"
    by (simp_all add: Let_def split: if_splits)
  have i1: "gj_inv n S ?A1" using Suc.prems(3) j p(2) by (rule gj_inv_swap)
  have u1: "gj_unit n j ?A1" using Suc.prems(4) len j p by (rule gj_unit_swap)
  have m1: "is_mat n (2 * n) ?A1" using i1 by (simp add: gj_inv_def)
  have piv1: "?A1 ! j ! j \<noteq> 0" using piv j p len by (cases "j = ?p") (simp_all add: swap_rows_nth)
  have i2: "gj_inv n S ?A2" using i1 j by (rule gj_inv_eliminate)
  have u2: "gj_unit n (Suc j) ?A2" using u1 m1 j piv1 by (rule gj_unit_eliminate)
  show ?case using Suc.IH [OF rec _ i2 u2] Suc.prems(2) by simp
qed

lemma gauss_jordan_error: "gauss_jordan k j A = Inl e \<Longrightarrow> e = LinAlgError"
  by (induction k arbitrary: j A) (auto simp: Let_def split: if_splits)

lemma augment_nth:
  assumes "is_mat n n S" "i < n"
  shows "augment S ! i = S ! i @ identity n ! i"
  using assms by (simp add: augment_def is_matD identity_def)

lemma gj_inv_augment:
  assumes S: "is_mat n n S"
  shows "gj_inv n S (augment S)"
  unfolding gj_inv_def
proof (intro conjI allI impI)
  show "is_mat n (2 * n) (augment S)"
  proof (rule is_matI)
    show "length (augment S) = n" using S by (simp add: augment_def is_matD identity_def)
    fix i assume "i < n"
    then show "length (augment S ! i) = 2 * n"
      using S by (simp add: augment_nth is_matD identity_def)
  qed
  fix i c assume i: "i < n" and c: "c < n"
  have "(\<Sum>k<n. augment S ! i ! (n + k) * S ! k ! c) = (\<Sum>k<n. (if i = k then 1 else 0) * S ! k ! c)"
    using S i by (intro sum.cong refl) (simp add: augment_nth nth_append is_matD identity_nth)
  also have "\<dots> = (\<Sum>k<n. if i = k then S ! k ! c else 0)"
    by (intro sum.cong refl) simp
  also have "\<dots> = S ! i ! c" using i by simp
  finally show "augment S ! i ! c = (\<Sum>k<n. augment S ! i ! (n + k) * S ! k ! c)"
    using S i c by (simp add: augment_nth nth_append is_matD)
qed

lemma gauss_jordan_inverse_sound:
  assumes S: "is_mat n n S" and n: "0 < n" and inv: "gauss_jordan_inverse S = Inr M"
  shows "is_mat n n M \<and> dot M S = identity n"
proof -
  have len: "length S = n" using S by (simp add: is_matD)
  from inv obtain B where B: "gauss_jordan n 0 (augment S) = Inr B" and M: "M = map (drop n) B"
    by (auto simp: gauss_jordan_inverse_def len bind_def split: sum.splits)
  have fin: "gj_inv n S B \<and> gj_unit n n B"
    using B _ gj_inv_augment [OF S] by (rule gauss_jordan_invariant) (simp_all add: gj_unit_def)
  have mB: "is_mat n (2 * n) B" using fin unfolding gj_inv_def by blast
  have rel: "B ! i ! c = (\<Sum>k<n. B ! i ! (n + k) * S ! k ! c)" if "i < n" "c < n" for i c
    using fin that unfolding gj_inv_def by blast
  have unit: "B ! i ! c = (if i = c then 1 else 0)" if "i < n" "c < n" for i c
    using fin that unfolding gj_unit_def by blast
  have mM: "is_mat n n M"
    using mB by (intro is_matI) (simp_all add: M is_matD)
  have Mn: "M ! i ! k = B ! i ! (n + k)" if "i < n" "k < n" for i k
    using that mB by (simp add: M is_matD)
  have "dot M S = identity n"
  proof (rule mat_eqI [of n n])
    show "is_mat n n (dot M S)" using mM S n by (rule is_mat_dot)
    show "is_mat n n (identity n)" by (rule is_mat_identity)
    fix i c assume i: "i < n" and c: "c < n"
    have "dot M S ! i ! c = (\<Sum>k<n. M ! i ! k * S ! k ! c)" using mM S n i c by (rule dot_nth)
    also have "\<dots> = (\<Sum>k<n. B ! i ! (n + k) * S ! k ! c)"
      using i by (intro sum.cong refl) (simp add: Mn)
    also have "\<dots> = identity n ! i ! c" using rel [OF i c] unit [OF i c] i c by (simp add: identity_nth)
    finally show "dot M S ! i ! c = identity n ! i ! c" .
  qed
  with mM show ?thesis by simp
qed

lemma gauss_jordan_inverse_error: "gauss_jordan_inverse S = Inl e \<Longrightarrow> e = LinAlgError"
  by (auto simp: gauss_jordan_inverse_def bind_def split: sum.splits dest: gauss_jordan_error)

lemma gauss_jordan_keeps_shape: "keeps_shape gauss_jordan_inverse"
  unfolding keeps_shape_def
proof (intro allI impI)
  fix n S M assume S: "is_mat n n S" and M: "gauss_jordan_inverse S = Inr M"
  show "is_mat n n M"
  proof (cases "n = 0")
    case True
    then show ?thesis using S M by (simp add: gauss_jordan_inverse_def is_mat_def augment_def)
  next
    case False
    then show ?thesis using gauss_jordan_inverse_sound [OF S _ M] by simp
  qed
qed

subsection \<open>Gaussian fusion\<close>

lemma powr_neg_half: "0 < x \<Longrightarrow> x powr (- (1 / 2)) = sqrt (inverse x)"
  by (simp add: powr_minus powr_half_sqrt real_sqrt_inverse)

lemma fuse_value:
  "fuse m1 m2 s1 s2 = Inr (fuse_spec float32_eps m1 m2 s1 s2)"
proof -
  let ?v1 = "max (s1 ^ 2) float32_eps" and ?v2 = "max (s2 ^ 2) float32_eps"
  have v: "0 < ?v1" "0 < ?v2" by (rule floor_pos)+
  then have s: "0 < 1 / ?v1 + 1 / ?v2" by (simp add: add_pos_pos)
  have d1: "np_div m1 ?v1 = Inr (m1 / ?v1)" "np_div m2 ?v2 = Inr (m2 / ?v2)"
    "np_div 1 ?v1 = Inr (1 / ?v1)" "np_div 1 ?v2 = Inr (1 / ?v2)"
    using v by (simp_all add: np_div_def)
  have d2: "np_div (m1 / ?v1 + m2 / ?v2) (1 / ?v1 + 1 / ?v2)
      = Inr ((m1 / ?v1 + m2 / ?v2) / (1 / ?v1 + 1 / ?v2))"
    using s by (simp add: np_div_def)
  have p: "np_power (1 / ?v1 + 1 / ?v2) (- (1 / 2)) = Inr (sqrt (inverse (1 / ?v1 + 1 / ?v2)))"
    using s by (simp add: np_power_def powr_neg_half)
  show ?thesis
    unfolding fuse_def fuse_spec_def Let_def by (simp only: d1 d2 p bind_Inr)
qed

lemma fuse_spec_zero: "0 < e \<Longrightarrow> fuse_spec e 0 0 0 0 = (0, sqrt (e / 2))"
  by (simp add: fuse_spec_def Let_def max_def)

lemma weighted_mean_between:
  fixes a b :: real
  assumes "0 < a" "0 < b"
  shows "min m1 m2 \<le> (m1 * a + m2 * b) / (a + b)" "(m1 * a + m2 * b) / (a + b) \<le> max m1 m2"
proof -
  have ab: "0 < a + b" using assms by simp
  have "min m1 m2 * a \<le> m1 * a" "min m1 m2 * b \<le> m2 * b"
    using assms by (simp_all add: mult_right_mono)
  then have "min m1 m2 * (a + b) \<le> m1 * a + m2 * b"
    by (simp add: distrib_left)
  then show "min m1 m2 \<le> (m1 * a + m2 * b) / (a + b)"
    using ab by (simp add: pos_le_divide_eq)
  have "m1 * a \<le> max m1 m2 * a" "m2 * b \<le> max m1 m2 * b"
    using assms by (simp_all add: mult_right_mono)
  then have "m1 * a + m2 * b \<le> max m1 m2 * (a + b)"
    by (simp add: distrib_left)
  then show "(m1 * a + m2 * b) / (a + b) \<le> max m1 m2"
    using ab by (simp add: pos_divide_le_eq)
qed

lemma fused_deviation_le:
  fixes v1 v2 :: real
  assumes "0 < v1" "0 < v2"
  shows "sqrt (inverse (1 / v1 + 1 / v2)) \<le> sqrt v1" "sqrt (inverse (1 / v1 + 1 / v2)) \<le> sqrt v2"
proof -
  have "1 / v1 \<le> 1 / v1 + 1 / v2" "1 / v2 \<le> 1 / v1 + 1 / v2" using assms by simp_all
  moreover have "0 < 1 / v1" "0 < 1 / v2" using assms by simp_all
  ultimately have "inverse (1 / v1 + 1 / v2) \<le> inverse (1 / v1)" "inverse (1 / v1 + 1 / v2) \<le> inverse (1 / v2)"
    by (simp_all only: le_imp_inverse_le)
  then show "sqrt (inverse (1 / v1 + 1 / v2)) \<le> sqrt v1" "sqrt (inverse (1 / v1 + 1 / v2)) \<le> sqrt v2"
    by (simp_all add: inverse_eq_divide)
qed

lemma sqrt_floor: "0 < s \<Longrightarrow> sqrt (max (s ^ 2) float32_eps) = max s (sqrt float32_eps)"
proof -
  assume s: "0 < s"
  have mono: "sqrt (max a b) = max (sqrt a) (sqrt b)" for a b :: real
    by (cases "a \<le> b") (simp_all add: max_def)
  show ?thesis using s by (simp add: mono)
qed

text \<open>
  C3, as the code has it. For all means and all standard deviations, zero included,
  \<open>fuse\<close> returns a result (no division by zero and no power of a non-positive base
  occurs) and the result is the pair of the specification's formulas, mean
  \<open>(m\<^sub>1/v\<^sub>1 + m\<^sub>2/v\<^sub>2) / (1/v\<^sub>1 + 1/v\<^sub>2)\<close> and standard deviation \<open>sqrt ((1/v\<^sub>1 + 1/v\<^sub>2)\<^sup>-\<^sup>1)\<close>
  with \<open>v\<^sub>i = max(\<sigma>\<^sub>i\<^sup>2, \<epsilon>)\<close>, where the floor \<open>\<epsilon>\<close> is the float32 machine epsilon \<open>2\<^sup>-\<^sup>2\<^sup>3\<close>.
\<close>

theorem fuse_total_with_machine_epsilon:
  "fuse m1 m2 s1 s2 = Inr (fuse_spec float32_eps m1 m2 s1 s2) \<and> 0 < float32_eps
     \<and> 0 < max (s1 ^ 2) float32_eps \<and> 0 < max (s2 ^ 2) float32_eps
     \<and> 0 < 1 / max (s1 ^ 2) float32_eps + 1 / max (s2 ^ 2) float32_eps"
proof -
  have "0 < 1 / max (s1 ^ 2) float32_eps" "0 < 1 / max (s2 ^ 2) float32_eps"
    using floor_pos [of s1] floor_pos [of s2] by simp_all
  then have "0 < 1 / max (s1 ^ 2) float32_eps + 1 / max (s2 ^ 2) float32_eps"
    by (rule add_pos_pos)
  then show ?thesis using fuse_value floor_pos float32_eps_pos by simp
qed

text \<open>
  C3 as stated fails: the floor is not the smallest representable positive value of the
  numeric type. With both standard deviations zero the code returns the deviation
  \<open>sqrt (2\<^sup>-\<^sup>2\<^sup>3 / 2)\<close>; the formulas with the smallest positive float32 (\<open>2\<^sup>-\<^sup>1\<^sup>4\<^sup>9\<close>, or
  \<open>2\<^sup>-\<^sup>1\<^sup>2\<^sup>6\<close> among the normal ones) or float64 (\<open>2\<^sup>-\<^sup>1\<^sup>0\<^sup>7\<^sup>4\<close>, \<open>2\<^sup>-\<^sup>1\<^sup>0\<^sup>2\<^sup>2\<close>) give another
  value.
\<close>

theorem fuse_floor_is_not_smallest_positive: "fuse 0 0 0 0 \<noteq> Inr (fuse_spec (1 / 2 ^ 149) 0 0 0 0)
  \<and> fuse 0 0 0 0 \<noteq> Inr (fuse_spec (1 / 2 ^ 126) 0 0 0 0)
  \<and> fuse 0 0 0 0 \<noteq> Inr (fuse_spec (1 / 2 ^ 1074) 0 0 0 0)
  \<and> fuse 0 0 0 0 \<noteq> Inr (fuse_spec (1 / 2 ^ 1022) 0 0 0 0)"
  by (simp add: fuse_value fuse_spec_zero float32_eps_def)

text \<open>
  C4, as the code has it. For all means and strictly positive standard deviations the
  fused mean lies between the two means, and the fused standard deviation is at most
  \<open>min (max \<sigma>\<^sub>1 (sqrt \<epsilon>)) (max \<sigma>\<^sub>2 (sqrt \<epsilon>))\<close>; it is at most \<open>min \<sigma>\<^sub>1 \<sigma>\<^sub>2\<close> when neither
  variance is below the floor \<open>\<epsilon> = 2\<^sup>-\<^sup>2\<^sup>3\<close>.
\<close>

theorem fuse_bounds:
  assumes "0 < s1" "0 < s2"
  shows "\<exists>mean deviation. fuse m1 m2 s1 s2 = Inr (mean, deviation)
     \<and> min m1 m2 \<le> mean \<and> mean \<le> max m1 m2
     \<and> deviation \<le> min (max s1 (sqrt float32_eps)) (max s2 (sqrt float32_eps))
     \<and> (float32_eps \<le> s1 ^ 2 \<and> float32_eps \<le> s2 ^ 2 \<longrightarrow> deviation \<le> min s1 s2)"
proof -
  let ?v1 = "max (s1 ^ 2) float32_eps" and ?v2 = "max (s2 ^ 2) float32_eps"
  let ?mean = "(m1 / ?v1 + m2 / ?v2) / (1 / ?v1 + 1 / ?v2)"
  let ?dev = "sqrt (inverse (1 / ?v1 + 1 / ?v2))"
  have v: "0 < ?v1" "0 < ?v2" by (rule floor_pos)+
  have eq: "fuse m1 m2 s1 s2 = Inr (?mean, ?dev)"
    by (simp add: fuse_value fuse_spec_def Let_def)
  have w: "0 < 1 / ?v1" "0 < 1 / ?v2" using v by simp_all
  have m: "min m1 m2 \<le> ?mean" "?mean \<le> max m1 m2"
    using weighted_mean_between [OF w, of m1 m2] by simp_all
  have d: "?dev \<le> max s1 (sqrt float32_eps)" "?dev \<le> max s2 (sqrt float32_eps)"
    using fused_deviation_le [OF v] assms by (simp_all only: sqrt_floor)
  have e: "?dev \<le> min s1 s2" if "float32_eps \<le> s1 ^ 2" "float32_eps \<le> s2 ^ 2"
  proof -
    have "?v1 = s1 ^ 2" "?v2 = s2 ^ 2" using that by (simp_all add: max_def)
    then have "sqrt ?v1 = s1" "sqrt ?v2 = s2" using assms by simp_all
    then show ?thesis using fused_deviation_le [OF v] by simp
  qed
  show ?thesis using eq m d e by simp
qed

theorem fuse_bounds_witness:
  "(0::real) < 1 \<and> (\<exists>mean deviation. fuse 0 1 1 1 = Inr (mean, deviation)
     \<and> min 0 1 \<le> mean \<and> mean \<le> max 0 1
     \<and> deviation \<le> min (max 1 (sqrt float32_eps)) (max 1 (sqrt float32_eps))
     \<and> (float32_eps \<le> 1 ^ 2 \<and> float32_eps \<le> 1 ^ 2 \<longrightarrow> deviation \<le> min 1 1))"
  using fuse_bounds [of 1 1 0 1] by simp

text \<open>
  C4 as stated fails below the floor: with the standard deviations \<open>0.01\<close> and
  \<open>0.000001\<close> (the configuration of the main program's last run) the fused standard
  deviation is \<open>1 / sqrt 8398608\<close>, about \<open>0.000345\<close>, more than \<open>0.000001\<close>.
\<close>

theorem fuse_deviation_above_min: "fuse 0 0 (1 / 100) (1 / 1000000) = Inr (0, sqrt (1 / 8398608))
   \<and> \<not> sqrt (1 / 8398608) \<le> min (1 / 100) (1 / 1000000 :: real)"
proof -
  have "(1 / 1000000 :: real) < sqrt (1 / 8398608)"
    by (rule real_less_rsqrt) (simp add: power2_eq_square)
  moreover have "fuse 0 0 (1 / 100) (1 / 1000000) = Inr (0, sqrt (1 / 8398608))"
    by (simp add: fuse_value fuse_spec_def Let_def float32_eps_def max_def power2_eq_square inverse_eq_divide)
  ultimately show ?thesis by simp
qed

subsection \<open>Loading the records\<close>

lemma float_field_error: "float_field pf line key = Inl e \<Longrightarrow> load_error e"
  by (auto simp: float_field_def load_error_def split: option.splits)

lemma float_field_cases:
  "(\<exists>e. float_field pf line key = Inl e \<and> load_error e) \<or> float_field pf line key = Inr (field_value pf line key)"
  by (cases "float_field pf line key") (auto simp: field_value_def dest: float_field_error)

lemma bind_eq_Inr: "bind m k = Inr y \<longleftrightarrow> (\<exists>x. m = Inr x \<and> k x = Inr y)"
  by (cases m) simp_all

lemma bind_eq_Inl: "bind m k = Inl e \<longleftrightarrow> (m = Inl e \<or> (\<exists>x. m = Inr x \<and> k x = Inl e))"
  by (cases m) auto

lemma read_line_ok:
  assumes "row_ok pf line"
  shows "read_line pf line acc =
     Inr (acc\<lparr>list_time := list_time acc @ [[field_value pf line time_index]],
              list_odometry := list_odometry acc @ [[field_value pf line odometer_x,
                 field_value pf line odometer_y, field_value pf line odometer_theta]],
              list_imu := list_imu acc @ [[field_value pf line imu_theta]],
              list_imu_cov := list_imu_cov acc @ [[field_value pf line imu_cov_theta]],
              list_gps := list_gps acc @ [[field_value pf line gps_x, field_value pf line gps_y]],
              list_gps_cov := list_gps_cov acc @ [[field_value pf line gps_cov_x,
                 field_value pf line gps_cov_y]]\<rparr>)"
proof -
  have "float_field pf line key = Inr (field_value pf line key)" if "key \<in> set all_fields" for key
    using assms that by (cases "float_field pf line key") (auto simp: row_ok_def list_all_iff field_value_def)
  then show ?thesis by (simp add: read_line_def all_fields_def)
qed

lemma read_line_bad:
  assumes "\<not> row_ok pf line"
  shows "\<exists>e. read_line pf line acc = Inl e \<and> load_error e"
proof -
  have c: "(\<exists>e. float_field pf line key = Inl e \<and> load_error e) \<or> (\<exists>x. float_field pf line key = Inr x)" for key
    using float_field_cases [of pf line key] by blast
  from assms obtain key where k: "key \<in> set all_fields" "isl (float_field pf line key)"
    by (auto simp: row_ok_def list_all_iff)
  show ?thesis
    using k c [of time_index] c [of odometer_x] c [of odometer_y] c [of odometer_theta]
      c [of imu_theta] c [of imu_cov_theta] c [of gps_x] c [of gps_y] c [of gps_cov_x] c [of gps_cov_y]
    unfolding read_line_def all_fields_def
    by (elim disjE exE conjE) (auto simp: )
qed

lemma read_lines_ok:
  "list_all (row_ok pf) recs \<Longrightarrow> read_lines pf recs acc = Inr (loaded pf recs acc)"
proof (induction recs arbitrary: acc)
  case Nil
  then show ?case by (simp add: loaded_def)
next
  case (Cons line rest)
  then have "read_lines pf (line # rest) acc = Inr (loaded pf rest (loaded pf [line] acc))"
    by (simp add: read_line_ok loaded_def)
  also have "loaded pf rest (loaded pf [line] acc) = loaded pf (line # rest) acc"
    by (simp add: loaded_def)
  finally show ?case .
qed

lemma read_lines_bad:
  "\<not> list_all (row_ok pf) recs \<Longrightarrow> \<exists>e. read_lines pf recs acc = Inl e \<and> load_error e"
proof (induction recs arbitrary: acc)
  case Nil
  then show ?case by simp
next
  case (Cons line rest)
  show ?case
  proof (cases "row_ok pf line")
    case True
    then have "\<not> list_all (row_ok pf) rest" using Cons.prems by simp
    then show ?thesis using Cons.IH True by (simp add: read_line_ok)
  next
    case False
    then obtain e where "read_line pf line acc = Inl e" "load_error e"
      using read_line_bad by blast
    then show ?thesis by simp
  qed
qed

lemma get_data_ok:
  assumes "list_all (row_ok pf) recs"
  shows "get_data pf recs = Inr (loaded pf recs
     \<lparr>list_time = [], list_odometry = [], list_imu = [], list_imu_cov = [], list_gps = [], list_gps_cov = []\<rparr>)"
  using assms by (simp add: get_data_def read_lines_ok)

lemma get_data_bad:
  assumes "\<not> list_all (row_ok pf) recs"
  shows "\<exists>e. get_data pf recs = Inl e \<and> load_error e"
  using assms by (simp add: get_data_def read_lines_bad)

lemma get_data_Inr:
  assumes "get_data pf recs = Inr d"
  shows "list_all (row_ok pf) recs"
    and "d = loaded pf recs
     \<lparr>list_time = [], list_odometry = [], list_imu = [], list_imu_cov = [], list_gps = [], list_gps_cov = []\<rparr>"
proof -
  show ok: "list_all (row_ok pf) recs"
    using assms get_data_bad [of pf recs] by auto
  show "d = loaded pf recs
     \<lparr>list_time = [], list_odometry = [], list_imu = [], list_imu_cov = [], list_gps = [], list_gps_cov = []\<rparr>"
    using assms get_data_ok [OF ok] by simp
qed

subsection \<open>Prediction, update and run\<close>

lemma maybe_override_None [simp]: "maybe_override A None = Inr A"
  by (simp add: maybe_override_def)

lemma init_Inr:
  assumes "kalman_filter_init pf recs q m p go io gn = Inr f"
  obtains d gc ic where "get_data pf recs = Inr d"
    "maybe_override (np_matrix (list_gps_cov d)) go = Inr gc"
    "maybe_override (np_matrix (list_imu_cov d)) io = Inr ic"
    "f = \<lparr>wheel_distance = 1, delta_t = 1 / 1000, velocity = 14 / 100,
          input_effect = identity 5, control_input = [[0], [0], [0], [0], [0]],
          process_noise = scale (identity 5) q, measurement_effect = identity 5,
          measurement_cov = scale (identity 5) m, previous_cov = scale (identity 5) p,
          time = np_matrix (list_time d), odometry = np_matrix (list_odometry d),
          imu = np_matrix (list_imu d), imu_cov = ic,
          gps = noise_gps (np_matrix (list_gps d)) gn, gps_cov = gc,
          state_hist = [[[0, 0, 0, 0, 0]]]\<rparr>"
  using assms unfolding kalman_filter_init_def bind_eq_Inr
  by (auto simp: transpose_mat_def)

lemma init_wf:
  assumes "kalman_filter_init pf recs q m p go io gn = Inr f"
  shows "wf_filter q m f" "previous_cov f = scale (identity 5) p" "state_hist f = [[[0, 0, 0, 0, 0]]]"
proof -
  have z: "is_mat 1 5 [[0, 0, 0, 0, 0]]" by (simp add: is_mat_def)
  show "wf_filter q m f" "previous_cov f = scale (identity 5) p" "state_hist f = [[[0, 0, 0, 0, 0]]]"
    using assms z
    by (auto elim!: init_Inr simp: wf_filter_def is_mat_scale is_mat_identity)
qed

lemma is_mat_transition: "is_mat 5 5 (transition_matrix dt theta)"
  by (simp add: is_mat_def transition_matrix_def)

lemma model_predict_cases:
  "(\<exists>e. mat_get (odometry f) index 2 = Inl e \<and> model_predict index f = (Inl e, f))
   \<or> (\<exists>theta. mat_get (odometry f) index 2 = Inr theta \<and>
        model_predict index f =
          (if state_hist f = [] then Inl IndexError
           else Inr (mat_add (dot (transition_matrix (delta_t f) theta) (transpose_mat (last (state_hist f))))
                             (dot (input_effect f) (control_input f))),
           f\<lparr>previous_cov := mat_add (dot (transition_matrix (delta_t f) theta)
                 (dot (previous_cov f) (transpose_mat (transition_matrix (delta_t f) theta))))
                 (process_noise f)\<rparr>))"
  by (cases "mat_get (odometry f) index 2") (simp_all add: model_predict_def Let_def)

lemma is_mat_predicted_cov:
  assumes "is_mat 5 5 P"
  shows "is_mat 5 5 (mat_add (dot (transition_matrix dt theta) (dot P (transpose_mat (transition_matrix dt theta))))
            (scale (identity 5) q))"
  using assms by (intro is_mat_add is_mat_congruence is_mat_transition is_mat_scale is_mat_identity) simp_all

lemma symmetric_predicted_cov:
  assumes "is_mat 5 5 P" "symmetric P"
  shows "symmetric (mat_add (dot (transition_matrix dt theta) (dot P (transpose_mat (transition_matrix dt theta))))
            (scale (identity 5) q))"
proof (rule symmetric_add [of 5])
  show "is_mat 5 5 (dot (transition_matrix dt theta) (dot P (transpose_mat (transition_matrix dt theta))))"
    using is_mat_transition assms(1) by (rule is_mat_congruence) simp
  show "symmetric (dot (transition_matrix dt theta) (dot P (transpose_mat (transition_matrix dt theta))))"
    using is_mat_transition assms(1) _ assms(2) by (rule congruence_symmetric) simp
  show "is_mat 5 5 (scale (identity 5) q)" by (intro is_mat_scale is_mat_identity)
  show "symmetric (scale (identity 5) q)" by (rule symmetric_scaled_identity) simp
qed simp

lemma model_predict_wf:
  assumes "wf_filter q m f"
  shows "wf_filter q m (snd (model_predict index f))"
    and "state_hist (snd (model_predict index f)) = state_hist f"
    and "time (snd (model_predict index f)) = time f"
  using assms model_predict_cases [of f index]
  by (auto simp: wf_filter_def is_mat_predicted_cov)

lemma model_predict_symmetric:
  assumes "wf_filter q m f" "symmetric (previous_cov f)"
  shows "symmetric (previous_cov (snd (model_predict index f)))"
  using assms model_predict_cases [of f index]
  by (auto simp: wf_filter_def symmetric_predicted_cov)

lemma identity_5:
  "identity 5 = [[1, 0, 0, 0, 0], [0, 1, 0, 0, 0], [0, 0, 1, 0, 0], [0, 0, 0, 1, 0], [0, 0, 0, 0, 1]]"
  by (simp add: identity_def eval_nat_numeral upt_rec)

lemma composed_mean:
  "transpose_mat (mat_set (mat_set (mat_set (mat_set (mat_set (zeros 1 5) 0 0 a) 0 1 b) 0 2 c) 0 3 d) 0 4 e)
     = [[a], [b], [c], [d], [e]]"
  by (simp add: zeros_def mat_set_def transpose_mat_def eval_nat_numeral upt_rec)

lemma composed_deviation:
  "mat_set (mat_set (mat_set (mat_set (mat_set (identity 5) 0 0 a) 1 1 b) 2 2 c) 3 3 d) 4 4 e
     = [[a, 0, 0, 0, 0], [0, b, 0, 0, 0], [0, 0, c, 0, 0], [0, 0, 0, d, 0], [0, 0, 0, 0, e]]"
  by (simp add: identity_5 mat_set_def)

lemma fuse_readings_Inr:
  assumes "fuse_readings index f = Inr (z, R)"
  obtains ox gx m00 cgx mx dx oy gy m11 cgy my dy m22 ot it cit mt dt om m44 where
    "mat_get (odometry f) index 0 = Inr ox" "mat_get (gps f) index 0 = Inr gx"
    "mat_get (measurement_cov f) 0 0 = Inr m00" "mat_get (gps_cov f) index 0 = Inr cgx"
    "fuse ox gx m00 cgx = Inr (mx, dx)"
    "mat_get (odometry f) index 1 = Inr oy" "mat_get (gps f) index 1 = Inr gy"
    "mat_get (measurement_cov f) 1 1 = Inr m11" "mat_get (gps_cov f) index 1 = Inr cgy"
    "fuse oy gy m11 cgy = Inr (my, dy)"
    "mat_get (measurement_cov f) 2 2 = Inr m22"
    "mat_get (odometry f) index 2 = Inr ot" "mat_get (imu f) index 0 = Inr it"
    "mat_get (imu_cov f) index 0 = Inr cit"
    "fuse ot it m22 cit = Inr (mt, dt)"
    "np_div (velocity f * np_tan (radians ot)) (wheel_distance f) = Inr om"
    "mat_get (measurement_cov f) 4 4 = Inr m44"
    "z = [[mx], [my], [velocity f], [mt], [om]]"
    "R = [[dx, 0, 0, 0, 0], [0, dy, 0, 0, 0], [0, 0, m22, 0, 0], [0, 0, 0, dt, 0], [0, 0, 0, 0, m44]]"
  using assms unfolding fuse_readings_def Let_def
  by (auto simp: bind_eq_Inr composed_mean composed_deviation simp del: One_nat_def)

lemma is_mat_zeros: "is_mat r c (zeros r c)"
  by (simp add: is_mat_def zeros_def list_all_length)

lemma mat_add_zeros:
  assumes "is_mat r c X"
  shows "mat_add X (zeros r c) = X"
proof (rule mat_eqI [of r c])
  show "is_mat r c (mat_add X (zeros r c))" using assms is_mat_zeros by (rule is_mat_add)
  show "is_mat r c X" by fact
  fix i j assume ij: "i < r" "j < c"
  then have "zeros r c ! i ! j = (0::real)" by (simp add: zeros_def)
  then show "mat_add X (zeros r c) ! i ! j = X ! i ! j"
    using mat_add_nth [OF assms is_mat_zeros ij] by simp
qed

lemma zero_column: "[[0], [0], [0], [0], [0]] = zeros 5 1"
  by (simp add: zeros_def eval_nat_numeral)

lemma control_effect_zero: "dot (identity 5) [[0], [0], [0], [0], [0]] = zeros 5 1"
  unfolding zero_column by (rule dot_identity_left [OF is_mat_zeros]) simp

lemma is_mat_last_state:
  assumes "wf_filter q m f"
  shows "is_mat 1 5 (last (state_hist f))"
  using assms by (simp add: wf_filter_def list_all_iff)

lemma is_mat_state_pred:
  assumes "is_mat 1 5 s"
  shows "is_mat 5 1 (dot (transition_matrix dt theta) (transpose_mat s))"
  using is_mat_transition is_mat_transpose [OF assms] by (rule is_mat_dot) simp_all

lemma model_predict_value:
  assumes wf: "wf_filter q m f" and th: "mat_get (odometry f) index 2 = Inr theta"
  shows "model_predict index f =
     (Inr (dot (transition_matrix (delta_t f) theta) (transpose_mat (last (state_hist f)))),
      f\<lparr>previous_cov := mat_add (dot (transition_matrix (delta_t f) theta)
             (dot (previous_cov f) (transpose_mat (transition_matrix (delta_t f) theta))))
             (scale (identity 5) q)\<rparr>)"
proof -
  have c: "dot (input_effect f) (control_input f) = zeros 5 1"
    using wf by (simp add: wf_filter_def control_effect_zero)
  have "mat_add (dot (transition_matrix (delta_t f) theta) (transpose_mat (last (state_hist f)))) (zeros 5 1)
      = dot (transition_matrix (delta_t f) theta) (transpose_mat (last (state_hist f)))"
    by (intro mat_add_zeros is_mat_state_pred is_mat_last_state [OF wf])
  then show ?thesis
    using wf th c model_predict_cases [of f index] by (auto simp: wf_filter_def)
qed

lemma model_predict_Inr:
  assumes wf: "wf_filter q m f" and mp: "model_predict index f = (Inr x, f1)"
  obtains theta where "mat_get (odometry f) index 2 = Inr theta"
    "x = dot (transition_matrix (delta_t f) theta) (transpose_mat (last (state_hist f)))"
    "f1 = f\<lparr>previous_cov := mat_add (dot (transition_matrix (delta_t f) theta)
             (dot (previous_cov f) (transpose_mat (transition_matrix (delta_t f) theta))))
             (scale (identity 5) q)\<rparr>"
proof (cases "mat_get (odometry f) index 2")
  case (Inl e)
  then show ?thesis using mp by (simp add: model_predict_def)
next
  case (Inr theta)
  then show ?thesis using model_predict_value [OF wf Inr] mp that by simp
qed

lemma state_update_inv_fails:
  assumes "model_predict index f = (Inr x, f1)" "fuse_readings index f1 = Inr (z, R)"
    "invert (cov_Y f1) = Inl e"
  shows "state_update invert index f = (Inl e, f1)"
  using assms by (simp add: state_update_def Let_def)

lemma state_update_succeeds:
  assumes "model_predict index f = (Inr x, f1)" "fuse_readings index f1 = Inr (z, R)"
    "invert (cov_Y f1) = Inr Sinv"
  shows "state_update invert index f = (Inr (), updated f1 x z Sinv)"
  using assms by (simp add: state_update_def Let_def updated_def)

lemma state_update_outcome:
  "(\<exists>e. state_update invert index f = (Inl e, snd (model_predict index f)))
   \<or> (\<exists>x f1 z R Sinv. model_predict index f = (Inr x, f1) \<and> fuse_readings index f1 = Inr (z, R)
         \<and> invert (cov_Y f1) = Inr Sinv \<and> state_update invert index f = (Inr (), updated f1 x z Sinv))"
proof (cases "model_predict index f")
  case (Pair r f1)
  show ?thesis
  proof (cases r)
    case (Inl e)
    then show ?thesis using Pair by (simp add: state_update_def)
  next
    case (Inr x)
    show ?thesis
    proof (cases "fuse_readings index f1")
      case (Inl e)
      then show ?thesis using Pair Inr by (simp add: state_update_def)
    next
      case zr: (Inr zR)
      obtain z R where zR: "zR = (z, R)" by (cases zR)
      show ?thesis
      proof (cases "invert (cov_Y f1)")
        case (Inl e)
        then show ?thesis using Pair Inr zr zR state_update_inv_fails [of index f x f1 z R invert e] by simp
      next
        case si: (Inr Sinv)
        then show ?thesis using Pair Inr zr zR state_update_succeeds [of index f x f1 z R invert Sinv] by simp
      qed
    qed
  qed
qed

lemma cov_Y_value:
  assumes "wf_filter q m f"
  shows "cov_Y f = mat_add (scale (identity 5) m) (previous_cov f)"
proof -
  have P: "is_mat 5 5 (previous_cov f)" using assms by (simp add: wf_filter_def)
  have "dot (identity 5) (dot (previous_cov f) (transpose_mat (identity 5))) = previous_cov f"
    using P by (simp add: transpose_identity dot_identity_right dot_identity_left)
  then show ?thesis using assms by (simp add: cov_Y_def wf_filter_def)
qed

lemma is_mat_cov_Y:
  assumes "wf_filter q m f"
  shows "is_mat 5 5 (cov_Y f)"
  using assms unfolding cov_Y_value [OF assms]
  by (intro is_mat_add is_mat_scale is_mat_identity) (simp add: wf_filter_def)

lemma symmetric_cov_Y:
  assumes "wf_filter q m f" "symmetric (previous_cov f)"
  shows "symmetric (cov_Y f)"
  unfolding cov_Y_value [OF assms(1)]
proof (rule symmetric_add [of 5])
  show "is_mat 5 5 (scale (identity 5) m)" by (intro is_mat_scale is_mat_identity)
  show "is_mat 5 5 (previous_cov f)" using assms by (simp add: wf_filter_def)
  show "symmetric (scale (identity 5) m)" by (rule symmetric_scaled_identity) simp
  show "symmetric (previous_cov f)" by fact
qed simp

lemma kalman_gain_value:
  assumes "wf_filter q m f" "is_mat 5 5 Sinv"
  shows "kalman_gain f Sinv = dot (previous_cov f) Sinv"
  using assms by (simp add: kalman_gain_def wf_filter_def transpose_identity dot_identity_left)

lemma is_mat_kalman_gain:
  assumes "wf_filter q m f" "is_mat 5 5 Sinv"
  shows "is_mat 5 5 (kalman_gain f Sinv)"
  unfolding kalman_gain_value [OF assms]
  using _ assms(2) by (rule is_mat_dot) (use assms in \<open>simp_all add: wf_filter_def\<close>)

lemma is_mat_inverse:
  assumes "keeps_shape invert" "wf_filter q m f" "invert (cov_Y f) = Inr Sinv"
  shows "is_mat 5 5 Sinv"
  using assms is_mat_cov_Y [OF assms(2)] unfolding keeps_shape_def by blast

lemma is_mat_readings:
  assumes "fuse_readings index f = Inr (z, R)"
  shows "is_mat 5 1 z"
  using assms by (auto elim!: fuse_readings_Inr simp: is_mat_def)

lemma is_mat_predicted_state:
  assumes "wf_filter q m f" "model_predict index f = (Inr x, f1)"
  shows "is_mat 5 1 x"
proof -
  obtain theta where "x = dot (transition_matrix (delta_t f) theta) (transpose_mat (last (state_hist f)))"
    using assms by (rule model_predict_Inr)
  then show ?thesis using is_mat_state_pred [OF is_mat_last_state [OF assms(1)]] by simp
qed

lemma updated_wf:
  assumes wf: "wf_filter q m f1" and x: "is_mat 5 1 x" and z: "is_mat 5 1 z"
    and inv: "is_mat 5 5 Sinv"
  shows "wf_filter q m (updated f1 x z Sinv)"
proof -
  have P: "is_mat 5 5 (previous_cov f1)" using wf by (simp add: wf_filter_def)
  have K: "is_mat 5 5 (kalman_gain f1 Sinv)"
    using wf inv by (rule is_mat_kalman_gain)
  have y: "is_mat 5 1 (dot (measurement_effect f1) x)"
    using wf x by (simp add: wf_filter_def dot_identity_left)
  have "is_mat 5 1 (mat_sub z (dot (measurement_effect f1) x))"
    using z y by (rule is_mat_sub)
  with K have "is_mat 5 1 (dot (kalman_gain f1 Sinv) (mat_sub z (dot (measurement_effect f1) x)))"
    by (rule is_mat_dot) simp
  with x have "is_mat 5 1 (mat_add x (dot (kalman_gain f1 Sinv) (mat_sub z (dot (measurement_effect f1) x))))"
    by (rule is_mat_add)
  then have new: "is_mat 1 5 (transpose_mat (mat_add x (dot (kalman_gain f1 Sinv) (mat_sub z (dot (measurement_effect f1) x)))))"
    by (rule is_mat_transpose) simp
  have cov: "is_mat 5 5 (mat_sub (previous_cov f1)
           (dot (kalman_gain f1 Sinv) (dot (cov_Y f1) (transpose_mat (kalman_gain f1 Sinv)))))"
    using P K is_mat_cov_Y [OF wf] by (intro is_mat_sub is_mat_congruence) simp_all
  show ?thesis using wf new cov by (simp add: wf_filter_def updated_def)
qed

lemma updated_symmetric:
  assumes wf: "wf_filter q m f1" and sym: "symmetric (previous_cov f1)"
    and inv: "is_mat 5 5 Sinv"
  shows "symmetric (previous_cov (updated f1 x z Sinv))"
proof -
  have P: "is_mat 5 5 (previous_cov f1)" using wf by (simp add: wf_filter_def)
  have K: "is_mat 5 5 (kalman_gain f1 Sinv)"
    using wf inv by (rule is_mat_kalman_gain)
  have S: "is_mat 5 5 (cov_Y f1)" using wf by (rule is_mat_cov_Y)
  have "symmetric (dot (kalman_gain f1 Sinv) (dot (cov_Y f1) (transpose_mat (kalman_gain f1 Sinv))))"
    using K S _ symmetric_cov_Y [OF wf sym] by (rule congruence_symmetric) simp
  then have "symmetric (mat_sub (previous_cov f1)
           (dot (kalman_gain f1 Sinv) (dot (cov_Y f1) (transpose_mat (kalman_gain f1 Sinv)))))"
    using P is_mat_congruence [OF K S] sym by (intro symmetric_sub [of 5]) simp_all
  then show ?thesis by (simp add: updated_def)
qed

lemma state_update_wf:
  assumes ks: "keeps_shape invert" and wf: "wf_filter q m f"
  shows "wf_filter q m (snd (state_update invert index f))"
  using state_update_outcome [of invert index f]
proof (elim disjE exE conjE)
  fix e assume "state_update invert index f = (Inl e, snd (model_predict index f))"
  then show ?thesis using model_predict_wf(1) [OF wf, of index] by simp
next
  fix x f1 z R Sinv
  assume mp: "model_predict index f = (Inr x, f1)" and fr: "fuse_readings index f1 = Inr (z, R)"
    and inv: "invert (cov_Y f1) = Inr Sinv"
    and su: "state_update invert index f = (Inr (), updated f1 x z Sinv)"
  have wf1: "wf_filter q m f1" using model_predict_wf(1) [OF wf, of index] mp by simp
  show ?thesis
    using updated_wf [OF wf1 is_mat_predicted_state [OF wf mp] is_mat_readings [OF fr]
        is_mat_inverse [OF ks wf1 inv]] su by simp
qed

lemma state_update_symmetric:
  assumes ks: "keeps_shape invert" and wf: "wf_filter q m f" and sym: "symmetric (previous_cov f)"
  shows "symmetric (previous_cov (snd (state_update invert index f)))"
  using state_update_outcome [of invert index f]
proof (elim disjE exE conjE)
  fix e assume "state_update invert index f = (Inl e, snd (model_predict index f))"
  then show ?thesis using model_predict_symmetric [OF wf sym, of index] by simp
next
  fix x f1 z R Sinv
  assume mp: "model_predict index f = (Inr x, f1)"
    and inv: "invert (cov_Y f1) = Inr Sinv"
    and su: "state_update invert index f = (Inr (), updated f1 x z Sinv)"
  have wf1: "wf_filter q m f1" using model_predict_wf(1) [OF wf, of index] mp by simp
  have sym1: "symmetric (previous_cov f1)" using model_predict_symmetric [OF wf sym, of index] mp by simp
  show ?thesis using updated_symmetric [OF wf1 sym1 is_mat_inverse [OF ks wf1 inv]] su by simp
qed

lemma state_update_history:
  "state_update invert index f = (r, f') \<Longrightarrow>
     time f' = time f \<and>
     (case r of Inl e \<Rightarrow> state_hist f' = state_hist f
      | Inr u \<Rightarrow> \<exists>s. state_hist f' = state_hist f @ [s])"
  using state_update_outcome [of invert index f] model_predict_cases [of f index]
  by (auto simp: updated_def)

lemma run_loop_wf:
  "keeps_shape invert \<Longrightarrow> wf_filter q m f \<Longrightarrow> wf_filter q m (snd (run_loop invert is f))"
proof (induction "is" arbitrary: f)
  case Nil
  then show ?case by simp
next
  case (Cons i "is")
  then show ?case
    using state_update_wf [OF Cons.prems, of i]
    by (cases "state_update invert i f") (auto split: sum.splits)
qed

lemma run_loop_symmetric:
  "keeps_shape invert \<Longrightarrow> wf_filter q m f \<Longrightarrow> symmetric (previous_cov f)
     \<Longrightarrow> symmetric (previous_cov (snd (run_loop invert is f)))"
proof (induction "is" arbitrary: f)
  case Nil
  then show ?case by simp
next
  case (Cons i "is")
  then show ?case
    using state_update_wf [OF Cons.prems(1,2), of i] state_update_symmetric [OF Cons.prems, of i]
    by (cases "state_update invert i f") (auto split: sum.splits)
qed

lemma run_loop_append:
  "run_loop invert (xs @ ys) f =
     (case run_loop invert xs f of (Inl e, f') \<Rightarrow> (Inl e, f') | (Inr u, f') \<Rightarrow> run_loop invert ys f')"
  by (induction xs arbitrary: f) (auto split: prod.splits sum.splits)

lemma run_loop_history:
  "run_loop invert is f = (r, f') \<Longrightarrow>
     time f' = time f \<and> (\<exists>new. state_hist f' = state_hist f @ new \<and> length new \<le> length is
        \<and> (r = Inr () \<longrightarrow> length new = length is))"
proof (induction "is" arbitrary: f)
  case Nil
  then show ?case by auto
next
  case (Cons i "is")
  obtain r1 f1 where su: "state_update invert i f = (r1, f1)" by (cases "state_update invert i f")
  note h = state_update_history [OF su]
  show ?case
  proof (cases r1)
    case (Inl e)
    then show ?thesis using Cons.prems su h by auto
  next
    case (Inr u)
    then obtain s where s: "state_hist f1 = state_hist f @ [s]" using h by auto
    have "run_loop invert is f1 = (r, f')" using Cons.prems su Inr by simp
    from Cons.IH [OF this] h s show ?thesis by auto
  qed
qed

subsection \<open>Loading, overrides and the data of the run\<close>

lemma upt_split: "n \<le> N \<Longrightarrow> [0..<N] = [0..<n] @ [n..<N]"
  using upt_add_eq_append [of 0 n "N - n"] by simp

lemma upt_split_at: "i < N \<Longrightarrow> [0..<N] = [0..<i] @ i # [Suc i..<N]"
  using upt_split [of i N] by (simp add: upt_conv_Cons)

lemma empty_load_run_fails:
  assumes "odometry f = [[]]"
  shows "state_update invert 0 f = (Inl IndexError, f)"
  using assms by (simp add: state_update_def model_predict_def mat_get_def)

lemma init_time:
  assumes "kalman_filter_init pf recs q m p go io gn = Inr f"
  shows "time f = np_matrix (map (\<lambda>l. [field_value pf l time_index]) recs)"
    and "odometry f = np_matrix (map (\<lambda>l. [field_value pf l odometer_x,
            field_value pf l odometer_y, field_value pf l odometer_theta]) recs)"
    and "list_all (row_ok pf) recs"
proof -
  from assms obtain d where d: "get_data pf recs = Inr d" and t: "time f = np_matrix (list_time d)"
    and od: "odometry f = np_matrix (list_odometry d)"
    by (rule init_Inr) simp
  note l = get_data_Inr [OF d]
  show "list_all (row_ok pf) recs" by (rule l(1))
  show "time f = np_matrix (map (\<lambda>l. [field_value pf l time_index]) recs)"
    using t l(2) by (simp add: loaded_def)
  show "odometry f = np_matrix (map (\<lambda>l. [field_value pf l odometer_x,
            field_value pf l odometer_y, field_value pf l odometer_theta]) recs)"
    using od l(2) by (simp add: loaded_def)
qed

lemma has_record_same_data [simp]:
  "has_record index (f\<lparr>previous_cov := P\<rparr>) = has_record index f"
  "has_record index (f\<lparr>state_hist := s\<rparr>) = has_record index f"
  by (simp_all add: has_record_def)

lemma has_record_heading:
  "has_record index f \<Longrightarrow> mat_get (odometry f) index 2 = Inr (odometry f ! index ! 2)"
  by (simp add: has_record_def mat_get_def)

lemma model_predict_returns:
  assumes "wf_filter q m f" "has_record index f"
  shows "model_predict index f =
     (Inr (dot (transition_matrix (delta_t f) (odometry f ! index ! 2)) (transpose_mat (last (state_hist f)))),
      f\<lparr>previous_cov := mat_add (dot (transition_matrix (delta_t f) (odometry f ! index ! 2))
             (dot (previous_cov f) (transpose_mat (transition_matrix (delta_t f) (odometry f ! index ! 2)))))
             (scale (identity 5) q)\<rparr>)"
  using assms(1) has_record_heading [OF assms(2)] by (rule model_predict_value)

lemma measurement_cov_diagonal:
  "mat_get (scale (identity 5) m) 0 0 = Inr m" "mat_get (scale (identity 5) m) 1 1 = Inr m"
  "mat_get (scale (identity 5) m) 2 2 = Inr m" "mat_get (scale (identity 5) m) 4 4 = Inr m"
  by (simp_all add: identity_5 scale_def mat_get_def)

lemma fuse_readings_returns:
  assumes mc: "measurement_cov f = scale (identity 5) m" and r: "has_record index f"
  shows "\<exists>z R. fuse_readings index f = Inr (z, R)"
proof -
  have g: "mat_get (odometry f) index 0 = Inr (odometry f ! index ! 0)"
    "mat_get (odometry f) index 1 = Inr (odometry f ! index ! 1)"
    "mat_get (odometry f) index 2 = Inr (odometry f ! index ! 2)"
    "mat_get (gps f) index 0 = Inr (gps f ! index ! 0)"
    "mat_get (gps f) index 1 = Inr (gps f ! index ! 1)"
    "mat_get (gps_cov f) index 0 = Inr (gps_cov f ! index ! 0)"
    "mat_get (gps_cov f) index 1 = Inr (gps_cov f ! index ! 1)"
    "mat_get (imu f) index 0 = Inr (imu f ! index ! 0)"
    "mat_get (imu_cov f) index 0 = Inr (imu_cov f ! index ! 0)"
    using r by (simp_all add: has_record_def mat_get_def)
  have w: "wheel_distance f \<noteq> 0" using r by (simp add: has_record_def)
  show ?thesis
    unfolding fuse_readings_def Let_def
    by (simp add: g mc measurement_cov_diagonal fuse_value split_beta np_div_def w del: One_nat_def)
qed

lemma state_update_data:
  "has_record j (snd (state_update invert index f)) = has_record j f"
  using state_update_outcome [of invert index f] model_predict_cases [of f index]
  by (auto simp: updated_def has_record_def)

lemma run_loop_data:
  "has_record j (snd (run_loop invert is f)) = has_record j f"
proof (induction "is" arbitrary: f)
  case Nil
  then show ?case by simp
next
  case (Cons i "is")
  show ?case
    using state_update_data [of j invert i f] Cons.IH
    by (cases "state_update invert i f") (auto split: sum.splits)
qed

lemma state_update_fails_iff:
  assumes wf: "wf_filter q m f" and r: "has_record index f"
    and pred: "model_predict index f = (Inr x, f1)"
  shows "state_update invert index f = (Inl e, f') \<longleftrightarrow> invert (cov_Y f1) = Inl e \<and> f' = f1"
proof -
  have wf1: "wf_filter q m f1" using model_predict_wf(1) [OF wf, of index] pred by simp
  have "f1 = snd (model_predict index f)" using pred by simp
  then have r1: "has_record index f1"
    using r model_predict_cases [of f index] by (auto simp: has_record_def)
  have mc: "measurement_cov f1 = scale (identity 5) m" using wf1 by (simp add: wf_filter_def)
  obtain z R where fr: "fuse_readings index f1 = Inr (z, R)"
    using fuse_readings_returns [OF mc r1] by blast
  show ?thesis
  proof (cases "invert (cov_Y f1)")
    case (Inl e')
    then show ?thesis using state_update_inv_fails [where invert = invert, OF pred fr Inl] by auto
  next
    case (Inr Sinv)
    then show ?thesis using state_update_succeeds [where invert = invert, OF pred fr Inr] by auto
  qed
qed

lemma run_loop_fails_at_inversion:
  assumes ks: "keeps_shape invert"
  shows "wf_filter q m f \<Longrightarrow> list_all (\<lambda>i. has_record i f) is \<Longrightarrow> run_loop invert is f = (Inl e, f')
     \<Longrightarrow> \<exists>S. invert S = Inl e"
proof (induction "is" arbitrary: f)
  case Nil
  then show ?case by simp
next
  case (Cons i "is")
  have r: "has_record i f" using Cons.prems(2) by simp
  note mp = model_predict_returns [OF Cons.prems(1) r]
  obtain r1 f1 where su: "state_update invert i f = (r1, f1)" by (cases "state_update invert i f")
  show ?case
  proof (cases r1)
    case (Inl e')
    then have "e' = e" using Cons.prems(3) su by simp
    then show ?thesis using state_update_fails_iff [OF Cons.prems(1) r mp, of invert e f1] su Inl by blast
  next
    case (Inr u)
    have wf1: "wf_filter q m f1" using state_update_wf [OF ks Cons.prems(1), of i] su by simp
    have d: "list_all (\<lambda>i. has_record i f1) is"
      using Cons.prems(2) state_update_data [of _ invert i f] su by (simp add: list_all_iff)
    have "run_loop invert is f1 = (Inl e, f')" using Cons.prems(3) su Inr by simp
    from Cons.IH [OF wf1 d this] show ?thesis .
  qed
qed

lemma set_column_shape:
  "set_column A j v = Inr B \<Longrightarrow> length B = length A \<and> (\<forall>i<length A. length (B ! i) = length (A ! i))"
  by (auto simp: set_column_def split: if_splits)

lemma override_from_shape:
  "override_from k A vs = Inr B \<Longrightarrow> length B = length A \<and> (\<forall>i<length A. length (B ! i) = length (A ! i))"
proof (induction vs arbitrary: k A)
  case Nil
  then show ?case by simp
next
  case (Cons v vs)
  then obtain A' where a: "set_column A k v = Inr A'" and b: "override_from (Suc k) A' vs = Inr B"
    by (auto simp: bind_eq_Inr)
  show ?case using set_column_shape [OF a] Cons.IH [OF b] by simp
qed

lemma maybe_override_shape:
  "maybe_override A ov = Inr B \<Longrightarrow> length B = length A \<and> (\<forall>i<length A. length (B ! i) = length (A ! i))"
  by (auto simp: maybe_override_def override_cov_def split: option.splits if_splits dest: override_from_shape)

lemma init_has_record:
  assumes init: "kalman_filter_init pf recs q m p go io gn = Inr f"
    and i: "index < length recs" and n: "noise_fits recs gn"
  shows "has_record index f"
proof -
  from init obtain d gc ic where d: "get_data pf recs = Inr d"
    and gc: "maybe_override (np_matrix (list_gps_cov d)) go = Inr gc"
    and ic: "maybe_override (np_matrix (list_imu_cov d)) io = Inr ic"
    and f: "wheel_distance f = 1" "odometry f = np_matrix (list_odometry d)"
      "imu f = np_matrix (list_imu d)" "imu_cov f = ic"
      "gps f = noise_gps (np_matrix (list_gps d)) gn" "gps_cov f = gc"
    by (rule init_Inr) simp
  have ne: "recs \<noteq> []" using i by auto
  have l: "np_matrix (list_odometry d) = map (\<lambda>l. [field_value pf l odometer_x,
            field_value pf l odometer_y, field_value pf l odometer_theta]) recs"
    "np_matrix (list_imu d) = map (\<lambda>l. [field_value pf l imu_theta]) recs"
    "np_matrix (list_imu_cov d) = map (\<lambda>l. [field_value pf l imu_cov_theta]) recs"
    "np_matrix (list_gps d) = map (\<lambda>l. [field_value pf l gps_x, field_value pf l gps_y]) recs"
    "np_matrix (list_gps_cov d) = map (\<lambda>l. [field_value pf l gps_cov_x, field_value pf l gps_cov_y]) recs"
    using get_data_Inr(2) [OF d] ne by (simp_all add: loaded_def np_matrix_def)
  have G: "is_mat (length recs) 2 (np_matrix (list_gps d))"
    unfolding l by (rule is_matI) simp_all
  have "is_mat (length recs) 2 (gps f)"
  proof (cases gn)
    case None
    then show ?thesis using G f(5) by (simp add: noise_gps_def)
  next
    case (Some nz)
    then have "is_mat (length recs) 2 nz" using n by (simp add: noise_fits_def)
    then show ?thesis using G f(5) Some by (simp add: noise_gps_def is_mat_add)
  qed
  then have g: "index < length (gps f)" "length (gps f ! index) = 2"
    using i by (simp_all add: is_matD)
  have c: "index < length gc" "length (gc ! index) = 2"
    using maybe_override_shape [OF gc] i by (simp_all add: l)
  have c': "index < length ic" "length (ic ! index) = 1"
    using maybe_override_shape [OF ic] i by (simp_all add: l)
  show ?thesis
    using i g c c' by (simp add: has_record_def f l)
qed

lemma set_column_ok:
  assumes "list_all (\<lambda>row. j < length row) A"
  shows "set_column A j v = Inr (map (\<lambda>row. row[j := v]) A)"
  using assms by (simp add: set_column_def)

lemma pair_update: "length row = 2 \<Longrightarrow> row[0 := a, Suc 0 := b] = [a, b]"
  by (cases row; cases "tl row") auto

lemma override_pair:
  assumes "list_all (\<lambda>row. length row = 2) A"
  shows "override_cov A [cx, cy] = Inr (replicate (length A) [cx, cy])"
proof -
  have 0: "list_all (\<lambda>row. 0 < length row) A" using assms by (auto simp: list_all_iff)
  have 1: "list_all (\<lambda>row. Suc 0 < length row) (map (\<lambda>row. row[0 := cx]) A)"
    using assms by (auto simp: list_all_iff)
  have "map (\<lambda>row. row[0 := cx, Suc 0 := cy]) A = map (\<lambda>row. [cx, cy]) A"
    using assms by (intro map_cong refl) (simp add: list_all_iff pair_update)
  also have "\<dots> = replicate (length A) [cx, cy]" by (simp add: map_replicate_const)
  finally show ?thesis
    by (simp add: override_cov_def set_column_ok [OF 0] set_column_ok [OF 1] comp_def)
qed

lemma override_empty_load: "override_cov [[]] (v # vs) = Inl IndexError"
  by (simp add: override_cov_def set_column_def)

lemma init_gps_cov:
  assumes init: "kalman_filter_init pf recs q m p go io gn = Inr f"
  shows "go = Some [cx, cy] \<Longrightarrow> recs \<noteq> [] \<and> gps_cov f = replicate (length recs) [cx, cy]"
    and "go = None \<Longrightarrow> gps_cov f = np_matrix (map (\<lambda>l. [field_value pf l gps_cov_x,
            field_value pf l gps_cov_y]) recs)"
    and "measurement_cov f = scale (identity 5) m"
proof -
  from init obtain d gc where d: "get_data pf recs = Inr d"
    and gc: "maybe_override (np_matrix (list_gps_cov d)) go = Inr gc" and g: "gps_cov f = gc"
    and mc: "measurement_cov f = scale (identity 5) m"
    by (rule init_Inr) simp
  show "measurement_cov f = scale (identity 5) m" by (rule mc)
  have l: "list_gps_cov d = map (\<lambda>l. [field_value pf l gps_cov_x, field_value pf l gps_cov_y]) recs"
    using get_data_Inr(2) [OF d] by (simp add: loaded_def)
  show "gps_cov f = np_matrix (map (\<lambda>l. [field_value pf l gps_cov_x,
            field_value pf l gps_cov_y]) recs)" if "go = None"
    using gc g l that by simp
  show "recs \<noteq> [] \<and> gps_cov f = replicate (length recs) [cx, cy]" if go: "go = Some [cx, cy]"
  proof (cases "recs = []")
    case True
    then show ?thesis using gc l go by (simp add: maybe_override_def np_matrix_def override_empty_load)
  next
    case False
    then have n: "np_matrix (list_gps_cov d) = list_gps_cov d" using l by (simp add: np_matrix_def)
    have "list_all (\<lambda>row. length row = 2) (list_gps_cov d)"
      by (simp add: l list_all_iff)
    from override_pair [OF this, of cx cy] show ?thesis
      using gc g go n False by (simp add: maybe_override_def l)
  qed
qed

lemma fused_deviation_below:
  assumes "0 < c" "float32_eps \<le> c ^ 2"
  shows "sqrt (inverse (1 / max (s ^ 2) float32_eps + 1 / max (c ^ 2) float32_eps)) < c"
proof -
  let ?v1 = "max (s ^ 2) float32_eps"
  have v: "0 < ?v1" "0 < c ^ 2" using floor_pos assms by simp_all
  have c2: "max (c ^ 2) float32_eps = c ^ 2" using assms by (simp add: max_def)
  have "1 / c ^ 2 < 1 / ?v1 + 1 / c ^ 2" using v by simp
  moreover have "0 < 1 / c ^ 2" using v by simp
  ultimately have "inverse (1 / ?v1 + 1 / c ^ 2) < inverse (1 / c ^ 2)"
    by (simp only: less_imp_inverse_less)
  moreover have "inverse (1 / c ^ 2) = c ^ 2" by (simp add: inverse_eq_divide)
  ultimately have "sqrt (inverse (1 / ?v1 + 1 / c ^ 2)) < sqrt (c ^ 2)"
    by (simp only: real_sqrt_less_iff)
  then show ?thesis using assms(1) by (simp add: c2)
qed

lemma fuse_readings_same_data:
  "fuse_readings index (f\<lparr>previous_cov := P, state_hist := s\<rparr>) = fuse_readings index f"
  by (simp add: fuse_readings_def)

subsection \<open>The filter on the sample inputs\<close>

lemmas field_names = time_index_def odometer_x_def odometer_y_def odometer_theta_def imu_theta_def
  imu_cov_theta_def gps_x_def gps_y_def gps_cov_x_def gps_cov_y_def

lemma demo_values [simp]:
  "demo_float ''0'' = Some 0" "demo_float ''1'' = Some 1" "demo_float ''2'' = Some 2"
  "demo_float ''0.01'' = Some (1 / 100)" "demo_float ''abc'' = None"
  by (simp_all add: demo_float_def)

lemma demo_row_fields:
  assumes "demo_float t = Some a" "demo_float x = Some b" "demo_float ci = Some c"
    "demo_float cg = Some d"
  shows "float_field demo_float (demo_row t x ci cg) time_index = Inr a"
    "float_field demo_float (demo_row t x ci cg) odometer_x = Inr b"
    "float_field demo_float (demo_row t x ci cg) odometer_y = Inr 0"
    "float_field demo_float (demo_row t x ci cg) odometer_theta = Inr 0"
    "float_field demo_float (demo_row t x ci cg) imu_theta = Inr 0"
    "float_field demo_float (demo_row t x ci cg) imu_cov_theta = Inr c"
    "float_field demo_float (demo_row t x ci cg) gps_x = Inr b"
    "float_field demo_float (demo_row t x ci cg) gps_y = Inr 0"
    "float_field demo_float (demo_row t x ci cg) gps_cov_x = Inr d"
    "float_field demo_float (demo_row t x ci cg) gps_cov_y = Inr d"
  by (simp_all add: float_field_def demo_row_def field_names assms)

lemma demo_row_ok:
  assumes "demo_float t = Some a" "demo_float x = Some b" "demo_float ci = Some c"
    "demo_float cg = Some d"
  shows "row_ok demo_float (demo_row t x ci cg)"
  by (simp add: row_ok_def all_fields_def demo_row_fields [OF assms])

lemma demo_row_values:
  assumes "demo_float t = Some a" "demo_float x = Some b" "demo_float ci = Some c"
    "demo_float cg = Some d"
  shows "field_value demo_float (demo_row t x ci cg) time_index = a"
    "field_value demo_float (demo_row t x ci cg) odometer_x = b"
    "field_value demo_float (demo_row t x ci cg) odometer_y = 0"
    "field_value demo_float (demo_row t x ci cg) odometer_theta = 0"
    "field_value demo_float (demo_row t x ci cg) imu_theta = 0"
    "field_value demo_float (demo_row t x ci cg) imu_cov_theta = c"
    "field_value demo_float (demo_row t x ci cg) gps_x = b"
    "field_value demo_float (demo_row t x ci cg) gps_y = 0"
    "field_value demo_float (demo_row t x ci cg) gps_cov_x = d"
    "field_value demo_float (demo_row t x ci cg) gps_cov_y = d"
  by (simp_all add: field_value_def demo_row_fields [OF assms])

lemma demo_row_bad: "\<not> row_ok demo_float (demo_row ''0'' ''abc'' ''0.01'' ''0.01'')"
  by (simp add: row_ok_def all_fields_def float_field_def demo_row_def field_names)

lemma demo_get_data:
  assumes "demo_float t = Some a" "demo_float x = Some b" "demo_float ci = Some c"
    "demo_float cg = Some d"
  shows "get_data demo_float [demo_row t x ci cg] =
     Inr \<lparr>list_time = [[a]], list_odometry = [[b, 0, 0]], list_imu = [[0]],
          list_imu_cov = [[c]], list_gps = [[b, 0]], list_gps_cov = [[d, d]]\<rparr>"
  using demo_row_ok [OF assms]
  by (simp add: get_data_ok loaded_def demo_row_values [OF assms])

lemma init_one_record:
  "kalman_filter_init demo_float [demo_row ''0'' ''1'' ''0.01'' ''0.01''] q m p None None None
     = Inr (one_record q m p)"
  by (simp add: kalman_filter_init_def demo_get_data [of _ 0 _ 1 _ "1 / 100" _ "1 / 100"]
      np_matrix_def noise_gps_def one_record_def sample_filter_def transpose_mat_def)

lemma init_one_record_override:
  "kalman_filter_init demo_float [demo_row ''0'' ''1'' ''0.01'' ''1''] q m p
       (Some [1 / 100, 1 / 100]) None None
     = Inr (one_record q m p)"
  by (simp add: kalman_filter_init_def demo_get_data [of _ 0 _ 1 _ "1 / 100" _ 1]
      np_matrix_def noise_gps_def one_record_def sample_filter_def transpose_mat_def
      maybe_override_def override_cov_def set_column_def)

lemma init_one_record_file_variance:
  "kalman_filter_init demo_float [demo_row ''0'' ''1'' ''0.01'' ''1''] q m p None None None
     = Inr ((one_record q m p)\<lparr>gps_cov := [[1, 1]]\<rparr>)"
  by (simp add: kalman_filter_init_def demo_get_data [of _ 0 _ 1 _ "1 / 100" _ 1]
      np_matrix_def noise_gps_def one_record_def sample_filter_def transpose_mat_def)

lemma init_two_records:
  assumes "demo_float t0 = Some a" "demo_float t1 = Some b"
  shows "kalman_filter_init demo_float
       [demo_row t0 ''1'' ''0.01'' ''0.01'', demo_row t1 ''2'' ''0.01'' ''0.01''] q m p None None None
     = Inr (two_records q m p [[a], [b]])"
proof -
  have ok: "list_all (row_ok demo_float)
      [demo_row t0 ''1'' ''0.01'' ''0.01'', demo_row t1 ''2'' ''0.01'' ''0.01'']"
    using demo_row_ok [OF assms(1) demo_values(2,4,4)] demo_row_ok [OF assms(2) demo_values(3,4,4)]
    by simp
  show ?thesis
    using assms
    by (simp add: kalman_filter_init_def get_data_ok [OF ok] loaded_def
        demo_row_values [of t0 a "''1''" 1 "''0.01''" "1 / 100" "''0.01''" "1 / 100"]
        demo_row_values [of t1 b "''2''" 2 "''0.01''" "1 / 100" "''0.01''" "1 / 100"]
        np_matrix_def noise_gps_def two_records_def sample_filter_def transpose_mat_def)
qed

lemma sample_wf: "wf_filter q m (sample_filter q m p t od im imc gp gc)"
proof -
  have "is_mat 1 5 [[0, 0, 0, 0, 0]]" by (simp add: is_mat_def)
  then show ?thesis
    by (simp add: wf_filter_def sample_filter_def is_mat_scale is_mat_identity)
qed

lemma fuse_default: "fuse b b (1 / 100) (1 / 100) = Inr (b, sqrt (1 / 20000))"
  by (simp add: fuse_value fuse_spec_def Let_def float32_eps_def power2_eq_square
      inverse_eq_divide add_divide_distrib)

lemma fuse_exact: "fuse b b 0 (1 / 100) = Inr (b, sqrt (1 / 8398608))"
proof -
  have "b * 8388608 + b * 10000 = b * 8398608" by simp
  then show ?thesis
    by (simp add: fuse_value fuse_spec_def Let_def float32_eps_def power2_eq_square
      inverse_eq_divide)
qed

lemma fuse_cancel: "fuse b b (- 1) (1 / 100) = Inr (b, sqrt (1 / 10001))"
proof -
  have "b + b * 10000 = b * 10001" by simp
  then show ?thesis
    by (simp add: fuse_value fuse_spec_def Let_def float32_eps_def power2_eq_square
      inverse_eq_divide)
qed

lemma sample_readings:
  assumes od: "mat_get (odometry f) i 0 = Inr a" "mat_get (odometry f) i 1 = Inr 0"
      "mat_get (odometry f) i 2 = Inr 0"
    and gp: "mat_get (gps f) i 0 = Inr a" "mat_get (gps f) i 1 = Inr 0"
    and im: "mat_get (imu f) i 0 = Inr 0" "mat_get (imu_cov f) i 0 = Inr (1 / 100)"
    and gc: "mat_get (gps_cov f) i 0 = Inr g" "mat_get (gps_cov f) i 1 = Inr g"
    and mc: "measurement_cov f = scale (identity 5) m"
    and c: "velocity f = 14 / 100" "wheel_distance f = 1"
    and fu: "\<And>b. fuse b b m (1 / 100) = Inr (b, dv)"
    and fg: "\<And>b. fuse b b m g = Inr (b, dg)"
  shows "fuse_readings i f =
     Inr ([[a], [0], [14 / 100], [0], [0]],
          [[dg, 0, 0, 0, 0], [0, dg, 0, 0, 0], [0, 0, m, 0, 0], [0, 0, 0, dv, 0], [0, 0, 0, 0, m]])"
proof -
  have g: "mat_get (scale (identity 5) m) 0 0 = Inr m" "mat_get (scale (identity 5) m) 1 1 = Inr m"
    "mat_get (scale (identity 5) m) 2 2 = Inr m" "mat_get (scale (identity 5) m) 4 4 = Inr m"
    by (simp_all add: identity_5 scale_def mat_get_def)
  show ?thesis
    unfolding fuse_readings_def Let_def
    by (simp add: od gp im gc mc c g fu fg np_tan_def np_div_def radians_def
        composed_mean composed_deviation del: One_nat_def)
qed

lemma augment_5:
  "length S = 5 \<Longrightarrow> augment S = map2 (@) S
     [[1, 0, 0, 0, 0], [0, 1, 0, 0, 0], [0, 0, 1, 0, 0], [0, 0, 0, 1, 0], [0, 0, 0, 0, 1]]"
  by (simp add: augment_def identity_5)

lemma gauss_jordan_inverse_5:
  "length S = 5 \<Longrightarrow> gauss_jordan_inverse S = bind (gauss_jordan 5 0 (augment S)) (\<lambda>A. Inr (map (drop 5) A))"
  by (simp add: gauss_jordan_inverse_def)

lemma gj_unfold:
  "gauss_jordan 5 0 A = (if A ! (pivot_row A 0) ! 0 = 0 then Inl LinAlgError
      else gauss_jordan 4 1 (eliminate 0 (swap_rows 0 (pivot_row A 0) A)))"
  "gauss_jordan 4 1 A = (if A ! (pivot_row A 1) ! 1 = 0 then Inl LinAlgError
      else gauss_jordan 3 2 (eliminate 1 (swap_rows 1 (pivot_row A 1) A)))"
  "gauss_jordan 3 2 A = (if A ! (pivot_row A 2) ! 2 = 0 then Inl LinAlgError
      else gauss_jordan 2 3 (eliminate 2 (swap_rows 2 (pivot_row A 2) A)))"
  "gauss_jordan 2 3 A = (if A ! (pivot_row A 3) ! 3 = 0 then Inl LinAlgError
      else gauss_jordan 1 4 (eliminate 3 (swap_rows 3 (pivot_row A 3) A)))"
  "gauss_jordan 1 4 A = (if A ! (pivot_row A 4) ! 4 = 0 then Inl LinAlgError
      else gauss_jordan 0 5 (eliminate 4 (swap_rows 4 (pivot_row A 4) A)))"
  by (simp_all add: eval_nat_numeral Let_def)

lemma zeros_5_5:
  "zeros 5 5 = [[0, 0, 0, 0, 0], [0, 0, 0, 0, 0], [0, 0, 0, 0, 0], [0, 0, 0, 0, 0], [0, 0, 0, 0, 0]]"
  by (simp add: zeros_def eval_nat_numeral)

lemma transition_matrix_0: "transition_matrix (1 / 1000) 0 = transition_0"
  by (simp add: transition_matrix_def radians_def transition_0_def)

lemma default_cov_pred_eval: "mat_add (dot transition_0 (dot (scale (identity 5) (1 / 100)) (transpose_mat transition_0))) (scale (identity 5) (1 / 10000)) = default_cov_pred"
  by (simp add: dot_def transpose_mat_def mat_add_def mat_sub_def scale_def identity_5 transition_0_def default_cov_pred_def)

lemma default_cov_Y_eval: "mat_add (scale (identity 5) (1 / 100)) default_cov_pred = default_cov_Y"
  by (simp add: dot_def transpose_mat_def mat_add_def mat_sub_def scale_def identity_5 default_cov_pred_def default_cov_Y_def)

lemma zero_state_pred: "dot transition_0 (transpose_mat [[0, 0, 0, 0, 0]]) = [[0], [0], [0], [0], [0]]"
  by (simp add: dot_def transpose_mat_def mat_add_def mat_sub_def scale_def identity_5 transition_0_def)

lemma default_augment: "augment
  [[2010001 / 100000000, 1 / 100000000, 1 / 100000, 0, 0],
   [1 / 100000000, 2010001 / 100000000, 1 / 100000, 0, 0],
   [1 / 100000, 1 / 100000, 201 / 10000, 0, 0],
   [0, 0, 0, 2010001 / 100000000, 1 / 100000],
   [0, 0, 0, 1 / 100000, 201 / 10000]] =
  [[2010001 / 100000000, 1 / 100000000, 1 / 100000, 0, 0, 1, 0, 0, 0, 0],
   [1 / 100000000, 2010001 / 100000000, 1 / 100000, 0, 0, 0, 1, 0, 0, 0],
   [1 / 100000, 1 / 100000, 201 / 10000, 0, 0, 0, 0, 1, 0, 0],
   [0, 0, 0, 2010001 / 100000000, 1 / 100000, 0, 0, 0, 1, 0],
   [0, 0, 0, 1 / 100000, 201 / 10000, 0, 0, 0, 0, 1]]"
  by (simp add: augment_5)

lemma default_pivot_0: "pivot_row
  [[2010001 / 100000000, 1 / 100000000, 1 / 100000, 0, 0, 1, 0, 0, 0, 0],
   [1 / 100000000, 2010001 / 100000000, 1 / 100000, 0, 0, 0, 1, 0, 0, 0],
   [1 / 100000, 1 / 100000, 201 / 10000, 0, 0, 0, 0, 1, 0, 0],
   [0, 0, 0, 2010001 / 100000000, 1 / 100000, 0, 0, 0, 1, 0],
   [0, 0, 0, 1 / 100000, 201 / 10000, 0, 0, 0, 0, 1]] 0 = 0"
  by (simp add: pivot_row_def)

lemma default_elim_0: "eliminate 0 (swap_rows 0 0
  [[2010001 / 100000000, 1 / 100000000, 1 / 100000, 0, 0, 1, 0, 0, 0, 0],
   [1 / 100000000, 2010001 / 100000000, 1 / 100000, 0, 0, 0, 1, 0, 0, 0],
   [1 / 100000, 1 / 100000, 201 / 10000, 0, 0, 0, 0, 1, 0, 0],
   [0, 0, 0, 2010001 / 100000000, 1 / 100000, 0, 0, 0, 1, 0],
   [0, 0, 0, 1 / 100000, 201 / 10000, 0, 0, 0, 0, 1]]) =
  [[1, 1 / 2010001, 1000 / 2010001, 0, 0, 100000000 / 2010001, 0, 0, 0, 0],
   [0, 202005201 / 10050005000, 201 / 20100010, 0, 0, - (1 / 2010001), 1, 0, 0, 0],
   [0, 201 / 20100010, 404010101 / 20100010000, 0, 0, - (1000 / 2010001), 0, 1, 0, 0],
   [0, 0, 0, 2010001 / 100000000, 1 / 100000, 0, 0, 0, 1, 0],
   [0, 0, 0, 1 / 100000, 201 / 10000, 0, 0, 0, 0, 1]]"
  by (simp add: eliminate_def swap_rows_def Let_def)

lemma default_gj_0: "gauss_jordan 5 0
  [[2010001 / 100000000, 1 / 100000000, 1 / 100000, 0, 0, 1, 0, 0, 0, 0],
   [1 / 100000000, 2010001 / 100000000, 1 / 100000, 0, 0, 0, 1, 0, 0, 0],
   [1 / 100000, 1 / 100000, 201 / 10000, 0, 0, 0, 0, 1, 0, 0],
   [0, 0, 0, 2010001 / 100000000, 1 / 100000, 0, 0, 0, 1, 0],
   [0, 0, 0, 1 / 100000, 201 / 10000, 0, 0, 0, 0, 1]] =
  gauss_jordan 4 1
  [[1, 1 / 2010001, 1000 / 2010001, 0, 0, 100000000 / 2010001, 0, 0, 0, 0],
   [0, 202005201 / 10050005000, 201 / 20100010, 0, 0, - (1 / 2010001), 1, 0, 0, 0],
   [0, 201 / 20100010, 404010101 / 20100010000, 0, 0, - (1000 / 2010001), 0, 1, 0, 0],
   [0, 0, 0, 2010001 / 100000000, 1 / 100000, 0, 0, 0, 1, 0],
   [0, 0, 0, 1 / 100000, 201 / 10000, 0, 0, 0, 0, 1]]"
  by (subst gj_unfold) (simp add: default_pivot_0 default_elim_0 del: One_nat_def gauss_jordan.simps)

lemma default_pivot_1: "pivot_row
  [[1, 1 / 2010001, 1000 / 2010001, 0, 0, 100000000 / 2010001, 0, 0, 0, 0],
   [0, 202005201 / 10050005000, 201 / 20100010, 0, 0, - (1 / 2010001), 1, 0, 0, 0],
   [0, 201 / 20100010, 404010101 / 20100010000, 0, 0, - (1000 / 2010001), 0, 1, 0, 0],
   [0, 0, 0, 2010001 / 100000000, 1 / 100000, 0, 0, 0, 1, 0],
   [0, 0, 0, 1 / 100000, 201 / 10000, 0, 0, 0, 0, 1]] 1 = 1"
  by (simp add: pivot_row_def)

lemma default_elim_1: "eliminate 1 (swap_rows 1 1
  [[1, 1 / 2010001, 1000 / 2010001, 0, 0, 100000000 / 2010001, 0, 0, 0, 0],
   [0, 202005201 / 10050005000, 201 / 20100010, 0, 0, - (1 / 2010001), 1, 0, 0, 0],
   [0, 201 / 20100010, 404010101 / 20100010000, 0, 0, - (1000 / 2010001), 0, 1, 0, 0],
   [0, 0, 0, 2010001 / 100000000, 1 / 100000, 0, 0, 0, 1, 0],
   [0, 0, 0, 1 / 100000, 201 / 10000, 0, 0, 0, 0, 1]]) =
  [[1, 0, 500 / 1005001, 0, 0, 10050005000 / 202005201, - (5000 / 202005201), 0, 0, 0],
   [0, 1, 500 / 1005001, 0, 0, - (5000 / 202005201), 10050005000 / 202005201, 0, 0, 0],
   [0, 0, 202005101 / 10050010000, 0, 0, - (500 / 1005001), - (500 / 1005001), 1, 0, 0],
   [0, 0, 0, 2010001 / 100000000, 1 / 100000, 0, 0, 0, 1, 0],
   [0, 0, 0, 1 / 100000, 201 / 10000, 0, 0, 0, 0, 1]]"
  by (simp add: eliminate_def swap_rows_def Let_def)

lemma default_gj_1: "gauss_jordan 4 1
  [[1, 1 / 2010001, 1000 / 2010001, 0, 0, 100000000 / 2010001, 0, 0, 0, 0],
   [0, 202005201 / 10050005000, 201 / 20100010, 0, 0, - (1 / 2010001), 1, 0, 0, 0],
   [0, 201 / 20100010, 404010101 / 20100010000, 0, 0, - (1000 / 2010001), 0, 1, 0, 0],
   [0, 0, 0, 2010001 / 100000000, 1 / 100000, 0, 0, 0, 1, 0],
   [0, 0, 0, 1 / 100000, 201 / 10000, 0, 0, 0, 0, 1]] =
  gauss_jordan 3 2
  [[1, 0, 500 / 1005001, 0, 0, 10050005000 / 202005201, - (5000 / 202005201), 0, 0, 0],
   [0, 1, 500 / 1005001, 0, 0, - (5000 / 202005201), 10050005000 / 202005201, 0, 0, 0],
   [0, 0, 202005101 / 10050010000, 0, 0, - (500 / 1005001), - (500 / 1005001), 1, 0, 0],
   [0, 0, 0, 2010001 / 100000000, 1 / 100000, 0, 0, 0, 1, 0],
   [0, 0, 0, 1 / 100000, 201 / 10000, 0, 0, 0, 0, 1]]"
  by (subst gj_unfold) (simp add: default_pivot_1 default_elim_1 del: One_nat_def gauss_jordan.simps)

lemma default_pivot_2: "pivot_row
  [[1, 0, 500 / 1005001, 0, 0, 10050005000 / 202005201, - (5000 / 202005201), 0, 0, 0],
   [0, 1, 500 / 1005001, 0, 0, - (5000 / 202005201), 10050005000 / 202005201, 0, 0, 0],
   [0, 0, 202005101 / 10050010000, 0, 0, - (500 / 1005001), - (500 / 1005001), 1, 0, 0],
   [0, 0, 0, 2010001 / 100000000, 1 / 100000, 0, 0, 0, 1, 0],
   [0, 0, 0, 1 / 100000, 201 / 10000, 0, 0, 0, 0, 1]] 2 = 2"
  by (simp add: pivot_row_def)

lemma default_elim_2: "eliminate 2 (swap_rows 2 2
  [[1, 0, 500 / 1005001, 0, 0, 10050005000 / 202005201, - (5000 / 202005201), 0, 0, 0],
   [0, 1, 500 / 1005001, 0, 0, - (5000 / 202005201), 10050005000 / 202005201, 0, 0, 0],
   [0, 0, 202005101 / 10050010000, 0, 0, - (500 / 1005001), - (500 / 1005001), 1, 0, 0],
   [0, 0, 0, 2010001 / 100000000, 1 / 100000, 0, 0, 0, 1, 0],
   [0, 0, 0, 1 / 100000, 201 / 10000, 0, 0, 0, 0, 1]]) =
  [[1, 0, 0, 0, 0, 2020050505000 / 40603025301, - (505000 / 40603025301), - (5000000 / 202005101), 0, 0],
   [0, 1, 0, 0, 0, - (505000 / 40603025301), 2020050505000 / 40603025301, - (5000000 / 202005101), 0, 0],
   [0, 0, 1, 0, 0, - (5000000 / 202005101), - (5000000 / 202005101), 10050010000 / 202005101, 0, 0],
   [0, 0, 0, 2010001 / 100000000, 1 / 100000, 0, 0, 0, 1, 0],
   [0, 0, 0, 1 / 100000, 201 / 10000, 0, 0, 0, 0, 1]]"
  by (simp add: eliminate_def swap_rows_def Let_def)

lemma default_gj_2: "gauss_jordan 3 2
  [[1, 0, 500 / 1005001, 0, 0, 10050005000 / 202005201, - (5000 / 202005201), 0, 0, 0],
   [0, 1, 500 / 1005001, 0, 0, - (5000 / 202005201), 10050005000 / 202005201, 0, 0, 0],
   [0, 0, 202005101 / 10050010000, 0, 0, - (500 / 1005001), - (500 / 1005001), 1, 0, 0],
   [0, 0, 0, 2010001 / 100000000, 1 / 100000, 0, 0, 0, 1, 0],
   [0, 0, 0, 1 / 100000, 201 / 10000, 0, 0, 0, 0, 1]] =
  gauss_jordan 2 3
  [[1, 0, 0, 0, 0, 2020050505000 / 40603025301, - (505000 / 40603025301), - (5000000 / 202005101), 0, 0],
   [0, 1, 0, 0, 0, - (505000 / 40603025301), 2020050505000 / 40603025301, - (5000000 / 202005101), 0, 0],
   [0, 0, 1, 0, 0, - (5000000 / 202005101), - (5000000 / 202005101), 10050010000 / 202005101, 0, 0],
   [0, 0, 0, 2010001 / 100000000, 1 / 100000, 0, 0, 0, 1, 0],
   [0, 0, 0, 1 / 100000, 201 / 10000, 0, 0, 0, 0, 1]]"
  by (subst gj_unfold) (simp add: default_pivot_2 default_elim_2 del: One_nat_def gauss_jordan.simps)

lemma default_pivot_3: "pivot_row
  [[1, 0, 0, 0, 0, 2020050505000 / 40603025301, - (505000 / 40603025301), - (5000000 / 202005101), 0, 0],
   [0, 1, 0, 0, 0, - (505000 / 40603025301), 2020050505000 / 40603025301, - (5000000 / 202005101), 0, 0],
   [0, 0, 1, 0, 0, - (5000000 / 202005101), - (5000000 / 202005101), 10050010000 / 202005101, 0, 0],
   [0, 0, 0, 2010001 / 100000000, 1 / 100000, 0, 0, 0, 1, 0],
   [0, 0, 0, 1 / 100000, 201 / 10000, 0, 0, 0, 0, 1]] 3 = 3"
  by (simp add: pivot_row_def)

lemma default_elim_3: "eliminate 3 (swap_rows 3 3
  [[1, 0, 0, 0, 0, 2020050505000 / 40603025301, - (505000 / 40603025301), - (5000000 / 202005101), 0, 0],
   [0, 1, 0, 0, 0, - (505000 / 40603025301), 2020050505000 / 40603025301, - (5000000 / 202005101), 0, 0],
   [0, 0, 1, 0, 0, - (5000000 / 202005101), - (5000000 / 202005101), 10050010000 / 202005101, 0, 0],
   [0, 0, 0, 2010001 / 100000000, 1 / 100000, 0, 0, 0, 1, 0],
   [0, 0, 0, 1 / 100000, 201 / 10000, 0, 0, 0, 0, 1]]) =
  [[1, 0, 0, 0, 0, 2020050505000 / 40603025301, - (505000 / 40603025301), - (5000000 / 202005101), 0, 0],
   [0, 1, 0, 0, 0, - (505000 / 40603025301), 2020050505000 / 40603025301, - (5000000 / 202005101), 0, 0],
   [0, 0, 1, 0, 0, - (5000000 / 202005101), - (5000000 / 202005101), 10050010000 / 202005101, 0, 0],
   [0, 0, 0, 1, 1000 / 2010001, 0, 0, 0, 100000000 / 2010001, 0],
   [0, 0, 0, 0, 404010101 / 20100010000, 0, 0, 0, - (1000 / 2010001), 1]]"
  by (simp add: eliminate_def swap_rows_def Let_def)

lemma default_gj_3: "gauss_jordan 2 3
  [[1, 0, 0, 0, 0, 2020050505000 / 40603025301, - (505000 / 40603025301), - (5000000 / 202005101), 0, 0],
   [0, 1, 0, 0, 0, - (505000 / 40603025301), 2020050505000 / 40603025301, - (5000000 / 202005101), 0, 0],
   [0, 0, 1, 0, 0, - (5000000 / 202005101), - (5000000 / 202005101), 10050010000 / 202005101, 0, 0],
   [0, 0, 0, 2010001 / 100000000, 1 / 100000, 0, 0, 0, 1, 0],
   [0, 0, 0, 1 / 100000, 201 / 10000, 0, 0, 0, 0, 1]] =
  gauss_jordan 1 4
  [[1, 0, 0, 0, 0, 2020050505000 / 40603025301, - (505000 / 40603025301), - (5000000 / 202005101), 0, 0],
   [0, 1, 0, 0, 0, - (505000 / 40603025301), 2020050505000 / 40603025301, - (5000000 / 202005101), 0, 0],
   [0, 0, 1, 0, 0, - (5000000 / 202005101), - (5000000 / 202005101), 10050010000 / 202005101, 0, 0],
   [0, 0, 0, 1, 1000 / 2010001, 0, 0, 0, 100000000 / 2010001, 0],
   [0, 0, 0, 0, 404010101 / 20100010000, 0, 0, 0, - (1000 / 2010001), 1]]"
  by (subst gj_unfold) (simp add: default_pivot_3 default_elim_3 del: One_nat_def gauss_jordan.simps)

lemma default_pivot_4: "pivot_row
  [[1, 0, 0, 0, 0, 2020050505000 / 40603025301, - (505000 / 40603025301), - (5000000 / 202005101), 0, 0],
   [0, 1, 0, 0, 0, - (505000 / 40603025301), 2020050505000 / 40603025301, - (5000000 / 202005101), 0, 0],
   [0, 0, 1, 0, 0, - (5000000 / 202005101), - (5000000 / 202005101), 10050010000 / 202005101, 0, 0],
   [0, 0, 0, 1, 1000 / 2010001, 0, 0, 0, 100000000 / 2010001, 0],
   [0, 0, 0, 0, 404010101 / 20100010000, 0, 0, 0, - (1000 / 2010001), 1]] 4 = 4"
  by (simp add: pivot_row_def)

lemma default_elim_4: "eliminate 4 (swap_rows 4 4
  [[1, 0, 0, 0, 0, 2020050505000 / 40603025301, - (505000 / 40603025301), - (5000000 / 202005101), 0, 0],
   [0, 1, 0, 0, 0, - (505000 / 40603025301), 2020050505000 / 40603025301, - (5000000 / 202005101), 0, 0],
   [0, 0, 1, 0, 0, - (5000000 / 202005101), - (5000000 / 202005101), 10050010000 / 202005101, 0, 0],
   [0, 0, 0, 1, 1000 / 2010001, 0, 0, 0, 100000000 / 2010001, 0],
   [0, 0, 0, 0, 404010101 / 20100010000, 0, 0, 0, - (1000 / 2010001), 1]]) =
  [[1, 0, 0, 0, 0, 2020050505000 / 40603025301, - (505000 / 40603025301), - (5000000 / 202005101), 0, 0],
   [0, 1, 0, 0, 0, - (505000 / 40603025301), 2020050505000 / 40603025301, - (5000000 / 202005101), 0, 0],
   [0, 0, 1, 0, 0, - (5000000 / 202005101), - (5000000 / 202005101), 10050010000 / 202005101, 0, 0],
   [0, 0, 0, 1, 0, 0, 0, 0, 20100000000 / 404010101, - (10000000 / 404010101)],
   [0, 0, 0, 0, 1, 0, 0, 0, - (10000000 / 404010101), 20100010000 / 404010101]]"
  by (simp add: eliminate_def swap_rows_def Let_def)

lemma default_gj_4: "gauss_jordan 1 4
  [[1, 0, 0, 0, 0, 2020050505000 / 40603025301, - (505000 / 40603025301), - (5000000 / 202005101), 0, 0],
   [0, 1, 0, 0, 0, - (505000 / 40603025301), 2020050505000 / 40603025301, - (5000000 / 202005101), 0, 0],
   [0, 0, 1, 0, 0, - (5000000 / 202005101), - (5000000 / 202005101), 10050010000 / 202005101, 0, 0],
   [0, 0, 0, 1, 1000 / 2010001, 0, 0, 0, 100000000 / 2010001, 0],
   [0, 0, 0, 0, 404010101 / 20100010000, 0, 0, 0, - (1000 / 2010001), 1]] =
  gauss_jordan 0 5
  [[1, 0, 0, 0, 0, 2020050505000 / 40603025301, - (505000 / 40603025301), - (5000000 / 202005101), 0, 0],
   [0, 1, 0, 0, 0, - (505000 / 40603025301), 2020050505000 / 40603025301, - (5000000 / 202005101), 0, 0],
   [0, 0, 1, 0, 0, - (5000000 / 202005101), - (5000000 / 202005101), 10050010000 / 202005101, 0, 0],
   [0, 0, 0, 1, 0, 0, 0, 0, 20100000000 / 404010101, - (10000000 / 404010101)],
   [0, 0, 0, 0, 1, 0, 0, 0, - (10000000 / 404010101), 20100010000 / 404010101]]"
  by (subst gj_unfold) (simp add: default_pivot_4 default_elim_4 del: One_nat_def gauss_jordan.simps)

lemma default_inverse: "gauss_jordan_inverse
  [[2010001 / 100000000, 1 / 100000000, 1 / 100000, 0, 0],
   [1 / 100000000, 2010001 / 100000000, 1 / 100000, 0, 0],
   [1 / 100000, 1 / 100000, 201 / 10000, 0, 0],
   [0, 0, 0, 2010001 / 100000000, 1 / 100000],
   [0, 0, 0, 1 / 100000, 201 / 10000]] =
  Inr [[2020050505000 / 40603025301, - (505000 / 40603025301), - (5000000 / 202005101), 0, 0],
   [- (505000 / 40603025301), 2020050505000 / 40603025301, - (5000000 / 202005101), 0, 0],
   [- (5000000 / 202005101), - (5000000 / 202005101), 10050010000 / 202005101, 0, 0],
   [0, 0, 0, 20100000000 / 404010101, - (10000000 / 404010101)],
   [0, 0, 0, - (10000000 / 404010101), 20100010000 / 404010101]]"
  by (subst gauss_jordan_inverse_5) (simp_all add: default_augment default_gj_0 default_gj_1 default_gj_2 default_gj_3 default_gj_4 del: One_nat_def gauss_jordan.simps(2))

lemma default_cov_Y_inverse: "gauss_jordan_inverse default_cov_Y = Inr default_cov_Y_inv"
  unfolding default_cov_Y_def default_cov_Y_inv_def by (rule default_inverse)


lemma cancel_cov_pred_eval: "mat_add (dot transition_0 (dot (scale (identity 5) 0) (transpose_mat transition_0))) (scale (identity 5) 1) = identity 5"
  by (simp add: dot_def transpose_mat_def mat_add_def mat_sub_def scale_def identity_5 transition_0_def)

lemma cancel_cov_Y_eval: "mat_add (scale (identity 5) (- 1)) (identity 5) = zeros 5 5"
  by (simp add: dot_def transpose_mat_def mat_add_def mat_sub_def scale_def identity_5 zeros_5_5)

lemma zero_augment: "augment
  [[0, 0, 0, 0, 0],
   [0, 0, 0, 0, 0],
   [0, 0, 0, 0, 0],
   [0, 0, 0, 0, 0],
   [0, 0, 0, 0, 0]] =
  [[0, 0, 0, 0, 0, 1, 0, 0, 0, 0],
   [0, 0, 0, 0, 0, 0, 1, 0, 0, 0],
   [0, 0, 0, 0, 0, 0, 0, 1, 0, 0],
   [0, 0, 0, 0, 0, 0, 0, 0, 1, 0],
   [0, 0, 0, 0, 0, 0, 0, 0, 0, 1]]"
  by (simp add: augment_5)

lemma zero_pivot_0: "pivot_row
  [[0, 0, 0, 0, 0, 1, 0, 0, 0, 0],
   [0, 0, 0, 0, 0, 0, 1, 0, 0, 0],
   [0, 0, 0, 0, 0, 0, 0, 1, 0, 0],
   [0, 0, 0, 0, 0, 0, 0, 0, 1, 0],
   [0, 0, 0, 0, 0, 0, 0, 0, 0, 1]] 0 = 0"
  by (simp add: pivot_row_def)

lemma zero_gj_0: "gauss_jordan 5 0
  [[0, 0, 0, 0, 0, 1, 0, 0, 0, 0],
   [0, 0, 0, 0, 0, 0, 1, 0, 0, 0],
   [0, 0, 0, 0, 0, 0, 0, 1, 0, 0],
   [0, 0, 0, 0, 0, 0, 0, 0, 1, 0],
   [0, 0, 0, 0, 0, 0, 0, 0, 0, 1]] = Inl LinAlgError"
  by (subst gj_unfold) (simp add: zero_pivot_0 del: One_nat_def gauss_jordan.simps)

lemma zero_matrix_raises: "gauss_jordan_inverse
  [[0, 0, 0, 0, 0],
   [0, 0, 0, 0, 0],
   [0, 0, 0, 0, 0],
   [0, 0, 0, 0, 0],
   [0, 0, 0, 0, 0]] =
  Inl LinAlgError"
  by (subst gauss_jordan_inverse_5) (simp_all add: zero_augment zero_gj_0 del: One_nat_def gauss_jordan.simps(2))

lemma zeros_not_inverted: "gauss_jordan_inverse (zeros 5 5) = Inl LinAlgError"
  using zero_matrix_raises by (simp add: zeros_5_5)

section \<open>The recursion: prediction, update, run and loading\<close>

lemma sample_fields:
  "delta_t (sample_filter q m p t od im imc gp gc) = 1 / 1000"
  "velocity (sample_filter q m p t od im imc gp gc) = 14 / 100"
  "wheel_distance (sample_filter q m p t od im imc gp gc) = 1"
  "measurement_effect (sample_filter q m p t od im imc gp gc) = identity 5"
  "measurement_cov (sample_filter q m p t od im imc gp gc) = scale (identity 5) m"
  "process_noise (sample_filter q m p t od im imc gp gc) = scale (identity 5) q"
  "previous_cov (sample_filter q m p t od im imc gp gc) = scale (identity 5) p"
  "state_hist (sample_filter q m p t od im imc gp gc) = [[[0, 0, 0, 0, 0]]]"
  "time (sample_filter q m p t od im imc gp gc) = t"
  "odometry (sample_filter q m p t od im imc gp gc) = od"
  "imu (sample_filter q m p t od im imc gp gc) = im"
  "imu_cov (sample_filter q m p t od im imc gp gc) = imc"
  "gps (sample_filter q m p t od im imc gp gc) = gp"
  "gps_cov (sample_filter q m p t od im imc gp gc) = gc"
  by (simp_all add: sample_filter_def)

text \<open>A record with a heading of 90 degrees: the measurement composition returns.\<close>

lemma heading_90_readings:
  "\<exists>z R. fuse_readings 0
     (sample_filter q m p [[0]] [[1, 0, 90]] [[0]] [[1 / 100]] [[1, 0]] [[1 / 100, 1 / 100]]) = Inr (z, R)"
  by (rule fuse_readings_returns [where m = m]) (simp_all add: sample_fields has_record_def)

lemma wf_with_cov:
  assumes "wf_filter q m f" "is_mat 5 5 P"
  shows "wf_filter q m (f\<lparr>previous_cov := P\<rparr>)"
  using assms by (simp add: wf_filter_def)

lemma sample_predict:
  assumes "mat_get od index 2 = Inr 0"
    and "mat_add (dot transition_0 (dot (scale (identity 5) p) (transpose_mat transition_0)))
           (scale (identity 5) q) = P"
  shows "model_predict index (sample_filter q m p t od im imc gp gc) =
     (Inr [[0], [0], [0], [0], [0]], (sample_filter q m p t od im imc gp gc)\<lparr>previous_cov := P\<rparr>)"
  using model_predict_value [OF sample_wf, of q m p t od im imc gp gc index 0] assms
  by (simp add: sample_fields transition_matrix_0 zero_state_pred)

lemma fuse_readings_cov [simp]:
  "fuse_readings i (f\<lparr>previous_cov := P\<rparr>) = fuse_readings i f"
  by (simp add: fuse_readings_def)

lemma fuse_readings_hist [simp]:
  "fuse_readings i (f\<lparr>state_hist := s\<rparr>) = fuse_readings i f"
  by (simp add: fuse_readings_def)

lemma sample_readings_at:
  assumes "i < length od" "od ! i = [a, 0, 0]" "i < length gp" "gp ! i = [a, 0]"
    and "i < length im" "im ! i = [0]" "i < length imc" "imc ! i = [1 / 100]"
    and "i < length gc" "gc ! i = [g, g]"
    and "\<And>b. fuse b b m (1 / 100) = Inr (b, dv)" "\<And>b. fuse b b m g = Inr (b, dg)"
  shows "fuse_readings i (sample_filter q m p t od im imc gp gc) =
     Inr ([[a], [0], [14 / 100], [0], [0]],
          [[dg, 0, 0, 0, 0], [0, dg, 0, 0, 0], [0, 0, m, 0, 0], [0, 0, 0, dv, 0], [0, 0, 0, 0, m]])"
  using assms
  by (intro sample_readings [where g = g]) (simp_all add: sample_fields mat_get_def)

lemma default_predict:
  "model_predict 0 (one_record (1 / 10000) (1 / 100) (1 / 100)) =
     (Inr [[0], [0], [0], [0], [0]],
      (one_record (1 / 10000) (1 / 100) (1 / 100))\<lparr>previous_cov := default_cov_pred\<rparr>)"
  unfolding one_record_def
  by (rule sample_predict) (simp_all add: mat_get_def default_cov_pred_eval)

lemma default_readings:
  "fuse_readings 0 ((one_record q (1 / 100) p)\<lparr>previous_cov := P\<rparr>) =
     Inr ([[1], [0], [14 / 100], [0], [0]],
          [[sqrt (1 / 20000), 0, 0, 0, 0], [0, sqrt (1 / 20000), 0, 0, 0], [0, 0, 1 / 100, 0, 0],
           [0, 0, 0, sqrt (1 / 20000), 0], [0, 0, 0, 0, 1 / 100]])"
  unfolding one_record_def fuse_readings_cov
  by (rule sample_readings_at [where g = "1 / 100"]) (simp_all add: fuse_default)

lemma one_record_wf: "wf_filter q m (one_record q m p)"
  by (simp add: one_record_def sample_wf)

lemma default_wf_pred:
  "wf_filter (1 / 10000) (1 / 100)
     ((one_record (1 / 10000) (1 / 100) (1 / 100))\<lparr>previous_cov := default_cov_pred\<rparr>)"
  using model_predict_wf(1) [OF one_record_wf [of "1 / 10000" "1 / 100" "1 / 100"], of 0]
  by (simp add: default_predict)

lemma default_innovation:
  "cov_Y ((one_record (1 / 10000) (1 / 100) (1 / 100))\<lparr>previous_cov := default_cov_pred\<rparr>)
     = default_cov_Y"
  by (simp add: cov_Y_value [OF default_wf_pred] default_cov_Y_eval)

lemma default_run:
  "fst (run gauss_jordan_inverse (one_record (1 / 10000) (1 / 100) (1 / 100))) = Inr ()"
proof -
  have "gauss_jordan_inverse (cov_Y ((one_record (1 / 10000) (1 / 100) (1 / 100))\<lparr>previous_cov := default_cov_pred\<rparr>))
      = Inr default_cov_Y_inv"
    by (simp add: default_innovation default_cov_Y_inverse)
  from state_update_succeeds [where invert = gauss_jordan_inverse, OF default_predict default_readings this]
  show ?thesis by (simp add: run_def one_record_def sample_fields)
qed

lemma one_record_has: "has_record 0 (one_record q m p)"
  by (simp add: has_record_def one_record_def sample_fields)

text \<open>
  C1, as the code has it. At every timestep whose record the sensor matrices hold,
  \<^verbatim>\<open>state_update\<close> computes the innovation covariance
  \<open>S = R + H cov_pred H\<^sup>T = R + cov_pred\<close>, where \<open>H\<close> is the identity and \<open>R\<close> is the static
  measurement covariance of the configuration (the identity times \<^verbatim>\<open>measurement_cov_val\<close>),
  not the matrix that \<^verbatim>\<open>fuse_readings\<close> composes for the timestep: that matrix is
  returned and not used. The measurement composition returns at every such timestep,
  whatever the heading. When the inversion returns a 5 by 5 matrix \<open>S\<^sup>-\<^sup>1\<close>, the gain is
  \<open>K = cov_pred H\<^sup>T S\<^sup>-\<^sup>1 = cov_pred S\<^sup>-\<^sup>1\<close>, the appended state is
  \<open>state_pred + K (z - state_pred)\<close> for the composed measurement \<open>z\<close>, and the new
  covariance is \<open>cov_pred - K S K\<^sup>T\<close>. The hypotheses \<open>wf_filter\<close> and \<open>has_record\<close>
  hold of every filter of a run and every index below the number of records (\<open>init_wf\<close>,
  \<open>init_has_record\<close>, \<open>run_loop_wf\<close>, \<open>run_loop_data\<close>).
\<close>

theorem update_uses_static_measurement_cov:
  assumes wf: "wf_filter q m f" and rec: "has_record index f"
    and pred: "model_predict index f = (Inr x, f1)"
    and inv: "invert (cov_Y f1) = Inr Sinv" and shape: "is_mat 5 5 Sinv"
  shows "measurement_cov f1 = scale (identity 5) m
     \<and> cov_Y f1 = mat_add (scale (identity 5) m) (previous_cov f1)
     \<and> kalman_gain f1 Sinv = dot (previous_cov f1) Sinv
     \<and> (\<exists>z R. fuse_readings index f1 = Inr (z, R)
          \<and> state_update invert index f =
              (Inr (), f1\<lparr>state_hist := state_hist f1 @
                           [transpose_mat (mat_add x (dot (dot (previous_cov f1) Sinv) (mat_sub z x)))],
                         previous_cov := mat_sub (previous_cov f1)
                           (dot (dot (previous_cov f1) Sinv)
                             (dot (cov_Y f1) (transpose_mat (dot (previous_cov f1) Sinv))))\<rparr>))"
proof -
  have wf1: "wf_filter q m f1" using model_predict_wf(1) [OF wf, of index] pred by simp
  have mc: "measurement_cov f1 = scale (identity 5) m" using wf1 by (simp add: wf_filter_def)
  have "f1 = snd (model_predict index f)" using pred by simp
  then have r1: "has_record index f1"
    using rec model_predict_cases [of f index] by (auto simp: has_record_def)
  obtain z R where meas: "fuse_readings index f1 = Inr (z, R)"
    using fuse_readings_returns [OF mc r1] by blast
  have x: "is_mat 5 1 x" using wf pred by (rule is_mat_predicted_state)
  have y: "dot (measurement_effect f1) x = x"
    using wf1 x by (simp add: wf_filter_def dot_identity_left)
  have K: "kalman_gain f1 Sinv = dot (previous_cov f1) Sinv"
    using wf1 shape by (rule kalman_gain_value)
  have "state_update invert index f =
              (Inr (), f1\<lparr>state_hist := state_hist f1 @
                           [transpose_mat (mat_add x (dot (dot (previous_cov f1) Sinv) (mat_sub z x)))],
                         previous_cov := mat_sub (previous_cov f1)
                           (dot (dot (previous_cov f1) Sinv)
                             (dot (cov_Y f1) (transpose_mat (dot (previous_cov f1) Sinv))))\<rparr>)"
    using state_update_succeeds [where invert = invert, OF pred meas inv] K y
    by (simp add: updated_def)
  then show ?thesis
    using mc cov_Y_value [OF wf1] K meas by blast
qed

text \<open>
  The first step of the filter with the default configuration on one record: the inversion
  returns, and the innovation covariance is \<open>0.01 I + cov_pred\<close>.
\<close>

theorem update_uses_static_measurement_cov_witness:
  "wf_filter (1 / 10000) (1 / 100) (one_record (1 / 10000) (1 / 100) (1 / 100))
   \<and> has_record 0 (one_record (1 / 10000) (1 / 100) (1 / 100))
   \<and> model_predict 0 (one_record (1 / 10000) (1 / 100) (1 / 100)) =
       (Inr [[0], [0], [0], [0], [0]],
        (one_record (1 / 10000) (1 / 100) (1 / 100))\<lparr>previous_cov := default_cov_pred\<rparr>)
   \<and> gauss_jordan_inverse
        (cov_Y ((one_record (1 / 10000) (1 / 100) (1 / 100))\<lparr>previous_cov := default_cov_pred\<rparr>))
       = Inr default_cov_Y_inv
   \<and> is_mat 5 5 default_cov_Y_inv
   \<and> cov_Y ((one_record (1 / 10000) (1 / 100) (1 / 100))\<lparr>previous_cov := default_cov_pred\<rparr>)
       = mat_add (scale (identity 5) (1 / 100)) default_cov_pred
   \<and> kalman_gain ((one_record (1 / 10000) (1 / 100) (1 / 100))\<lparr>previous_cov := default_cov_pred\<rparr>)
        default_cov_Y_inv = dot default_cov_pred default_cov_Y_inv"
proof -
  have inv: "gauss_jordan_inverse
        (cov_Y ((one_record (1 / 10000) (1 / 100) (1 / 100))\<lparr>previous_cov := default_cov_pred\<rparr>))
      = Inr default_cov_Y_inv"
    by (simp add: default_innovation default_cov_Y_inverse)
  have shape: "is_mat 5 5 default_cov_Y_inv"
    using gauss_jordan_keeps_shape default_wf_pred inv by (rule is_mat_inverse)
  have sel: "previous_cov ((one_record (1 / 10000) (1 / 100) (1 / 100))\<lparr>previous_cov := default_cov_pred\<rparr>)
      = default_cov_pred"
    by simp
  show ?thesis
    using update_uses_static_measurement_cov
        [where invert = gauss_jordan_inverse, OF one_record_wf one_record_has default_predict inv shape,
         unfolded sel]
      one_record_wf [of "1 / 10000" "1 / 100" "1 / 100"]
      one_record_has [of "1 / 10000" "1 / 100" "1 / 100"] default_predict inv shape
    by (elim conjE) (intro conjI, assumption+)
qed

lemma sqrt_20000: "sqrt (1 / 20000) < 1 / 100"
  by (rule real_less_lsqrt) (simp_all add: power2_eq_square)

text \<open>
  C1 as stated fails. With the default configuration and one record whose GPS variances are
  0.01, \<^verbatim>\<open>fuse_readings\<close> returns a matrix with \<open>sqrt (1 / 20000)\<close> on its diagonal, and
  the innovation covariance that \<^verbatim>\<open>state_update\<close> inverts is not that matrix plus
  \<open>H cov_pred H\<^sup>T\<close>.
\<close>

theorem fused_covariance_is_not_used:
  "model_predict 0 (one_record (1 / 10000) (1 / 100) (1 / 100)) =
       (Inr [[0], [0], [0], [0], [0]],
        (one_record (1 / 10000) (1 / 100) (1 / 100))\<lparr>previous_cov := default_cov_pred\<rparr>)
   \<and> fuse_readings 0 ((one_record (1 / 10000) (1 / 100) (1 / 100))\<lparr>previous_cov := default_cov_pred\<rparr>) =
       Inr ([[1], [0], [14 / 100], [0], [0]],
          [[sqrt (1 / 20000), 0, 0, 0, 0], [0, sqrt (1 / 20000), 0, 0, 0], [0, 0, 1 / 100, 0, 0],
           [0, 0, 0, sqrt (1 / 20000), 0], [0, 0, 0, 0, 1 / 100]])
   \<and> cov_Y ((one_record (1 / 10000) (1 / 100) (1 / 100))\<lparr>previous_cov := default_cov_pred\<rparr>) \<noteq>
       mat_add [[sqrt (1 / 20000), 0, 0, 0, 0], [0, sqrt (1 / 20000), 0, 0, 0], [0, 0, 1 / 100, 0, 0],
           [0, 0, 0, sqrt (1 / 20000), 0], [0, 0, 0, 0, 1 / 100]]
         (dot (identity 5) (dot default_cov_pred (transpose_mat (identity 5))))"
proof -
  have P: "is_mat 5 5 default_cov_pred" by (simp add: default_cov_pred_def is_mat_def)
  have H: "dot (identity 5) (dot default_cov_pred (transpose_mat (identity 5))) = default_cov_pred"
    using P by (simp add: transpose_identity dot_identity_left dot_identity_right)
  have "default_cov_Y \<noteq>
       mat_add [[sqrt (1 / 20000), 0, 0, 0, 0], [0, sqrt (1 / 20000), 0, 0, 0], [0, 0, 1 / 100, 0, 0],
           [0, 0, 0, sqrt (1 / 20000), 0], [0, 0, 0, 0, 1 / 100]] default_cov_pred"
    using sqrt_20000 by (simp add: default_cov_Y_def default_cov_pred_def mat_add_def)
  then show ?thesis
    using default_predict default_readings by (simp add: default_innovation H)
qed

text \<open>
  C2. For every timestep whose heading \<open>\<theta>\<close> the odometry holds, \<^verbatim>\<open>model_predict\<close> returns
  \<open>F previous_state + control_effect\<close>, where the control input and so the control effect
  are zero, and replaces the covariance by \<open>F P F\<^sup>T + Q\<close>, with \<open>Q\<close> the fixed diagonal
  process noise and \<open>F\<close> the displayed matrix, whose x-row and y-row both hold
  \<open>\<Delta>t cos (rad \<theta>)\<close>. The hypothesis \<open>wf_filter\<close> holds of the filter the constructor returns
  and of every filter of the run (\<open>init_wf\<close>, \<open>run_loop_wf\<close>, \<open>model_predict_wf\<close>).
\<close>

theorem model_predict_kalman_prediction:
  assumes "wf_filter q m f" "mat_get (odometry f) index 2 = Inr theta"
  shows "let F = [[1, 0, delta_t f * cos (radians theta), 0, 0],
                  [0, 1, delta_t f * cos (radians theta), 0, 0],
                  [0, 0, 1, 0, 0],
                  [0, 0, 0, 1, delta_t f],
                  [0, 0, 0, 0, 1]];
             previous_state = transpose_mat (last (state_hist f));
             control_effect = dot (input_effect f) (control_input f)
         in model_predict index f =
              (Inr (mat_add (dot F previous_state) control_effect),
               f\<lparr>previous_cov :=
                    mat_add (dot F (dot (previous_cov f) (transpose_mat F))) (process_noise f)\<rparr>)
            \<and> control_input f = zeros 5 1 \<and> control_effect = zeros 5 1
            \<and> mat_add (dot F previous_state) control_effect = dot F previous_state
            \<and> process_noise f = [[q, 0, 0, 0, 0], [0, q, 0, 0, 0], [0, 0, q, 0, 0],
                                  [0, 0, 0, q, 0], [0, 0, 0, 0, q]]"
proof -
  have ci: "control_input f = [[0], [0], [0], [0], [0]]" "input_effect f = identity 5"
    using assms(1) by (simp_all add: wf_filter_def)
  have c: "dot (input_effect f) (control_input f) = zeros 5 1" "control_input f = zeros 5 1"
    using control_effect_zero zero_column by (simp_all only: ci)
  have a: "mat_add (dot (transition_matrix (delta_t f) theta) (transpose_mat (last (state_hist f)))) (zeros 5 1)
      = dot (transition_matrix (delta_t f) theta) (transpose_mat (last (state_hist f)))"
    by (intro mat_add_zeros is_mat_state_pred is_mat_last_state [OF assms(1)])
  have Q: "process_noise f = [[q, 0, 0, 0, 0], [0, q, 0, 0, 0], [0, 0, q, 0, 0],
                                  [0, 0, 0, q, 0], [0, 0, 0, 0, q]]"
    using assms(1) by (simp add: wf_filter_def identity_5 scale_def)
  have Q': "scale (identity 5) q = process_noise f" using assms(1) by (simp add: wf_filter_def)
  show ?thesis
    using model_predict_value [OF assms] c a Q
    unfolding Let_def Q' by (simp add: transition_matrix_def)
qed

text \<open>The prediction of the first step on one record, heading 0.\<close>

theorem model_predict_kalman_prediction_witness:
  "wf_filter (1 / 10000) (1 / 100) (one_record (1 / 10000) (1 / 100) (1 / 100))
   \<and> mat_get (odometry (one_record (1 / 10000) (1 / 100) (1 / 100))) 0 2 = Inr 0
   \<and> model_predict 0 (one_record (1 / 10000) (1 / 100) (1 / 100)) =
       (Inr (mat_add (dot [[1, 0, 1 / 1000 * cos (radians 0), 0, 0],
                           [0, 1, 1 / 1000 * cos (radians 0), 0, 0],
                           [0, 0, 1, 0, 0],
                           [0, 0, 0, 1, 1 / 1000],
                           [0, 0, 0, 0, 1]]
                       (transpose_mat [[0, 0, 0, 0, 0]]))
                     (dot (identity 5) [[0], [0], [0], [0], [0]])),
        (one_record (1 / 10000) (1 / 100) (1 / 100))
          \<lparr>previous_cov :=
              mat_add (dot [[1, 0, 1 / 1000 * cos (radians 0), 0, 0],
                            [0, 1, 1 / 1000 * cos (radians 0), 0, 0],
                            [0, 0, 1, 0, 0],
                            [0, 0, 0, 1, 1 / 1000],
                            [0, 0, 0, 0, 1]]
                        (dot (scale (identity 5) (1 / 100))
                          (transpose_mat [[1, 0, 1 / 1000 * cos (radians 0), 0, 0],
                                          [0, 1, 1 / 1000 * cos (radians 0), 0, 0],
                                          [0, 0, 1, 0, 0],
                                          [0, 0, 0, 1, 1 / 1000],
                                          [0, 0, 0, 0, 1]])))
                (scale (identity 5) (1 / 10000))\<rparr>)"
proof -
  have th: "mat_get (odometry (one_record (1 / 10000) (1 / 100) (1 / 100))) 0 2 = Inr 0"
    by (simp add: one_record_def sample_fields mat_get_def)
  have sel: "delta_t (one_record (1 / 10000) (1 / 100) (1 / 100)) = 1 / 1000"
    "last (state_hist (one_record (1 / 10000) (1 / 100) (1 / 100))) = [[0, 0, 0, 0, 0]]"
    "input_effect (one_record (1 / 10000) (1 / 100) (1 / 100)) = identity 5"
    "control_input (one_record (1 / 10000) (1 / 100) (1 / 100)) = [[0], [0], [0], [0], [0]]"
    "previous_cov (one_record (1 / 10000) (1 / 100) (1 / 100)) = scale (identity 5) (1 / 100)"
    "process_noise (one_record (1 / 10000) (1 / 100) (1 / 100)) = scale (identity 5) (1 / 10000)"
    by (simp_all add: one_record_def sample_filter_def)
  show ?thesis
    using model_predict_kalman_prediction [OF one_record_wf th, unfolded Let_def sel]
      one_record_wf [of "1 / 10000" "1 / 100" "1 / 100"] th
    by (elim conjE) (intro conjI, assumption+)
qed

text \<open>
  C9. Starting from the covariance the constructor sets, the stored covariance is symmetric
  after every prediction and after every update, at every timestep of the run, whether the
  steps succeed or fail, for every inversion routine that returns matrices of the shape of
  its argument. In the reals the symmetry is exact; the rounding of the floats, and so the
  tolerance, is outside the model.
\<close>

theorem covariance_stays_symmetric:
  assumes "keeps_shape invert"
    and "kalman_filter_init pf recs q m p go io gn = Inr f0"
  shows "symmetric (previous_cov f0)
     \<and> symmetric (previous_cov (snd (run invert f0)))
     \<and> (\<forall>n index. symmetric (previous_cov (snd (run_loop invert [0..<n] f0)))
           \<and> symmetric (previous_cov (snd (model_predict index (snd (run_loop invert [0..<n] f0)))))
           \<and> symmetric (previous_cov (snd (state_update invert index (snd (run_loop invert [0..<n] f0))))))"
proof -
  have wf: "wf_filter q m f0" and P: "previous_cov f0 = scale (identity 5) p"
    using init_wf [OF assms(2)] by simp_all
  have s0: "symmetric (previous_cov f0)" unfolding P by (rule symmetric_scaled_identity) simp
  have loop: "wf_filter q m (snd (run_loop invert is f0))"
    "symmetric (previous_cov (snd (run_loop invert is f0)))" for "is"
    using assms(1) wf s0 by (simp_all add: run_loop_wf run_loop_symmetric)
  show ?thesis
    using s0 loop model_predict_symmetric [OF loop] state_update_symmetric [OF assms(1) loop]
    by (simp add: run_def)
qed

text \<open>The constructor returns a filter on the sample record.\<close>

theorem covariance_stays_symmetric_witness:
  "keeps_shape gauss_jordan_inverse
   \<and> kalman_filter_init demo_float [demo_row ''0'' ''1'' ''0.01'' ''0.01'']
       (1 / 10000) (1 / 100) (1 / 100) None None None
     = Inr (one_record (1 / 10000) (1 / 100) (1 / 100))
   \<and> symmetric (previous_cov (one_record (1 / 10000) (1 / 100) (1 / 100)))
   \<and> symmetric (previous_cov (snd (run gauss_jordan_inverse (one_record (1 / 10000) (1 / 100) (1 / 100)))))
   \<and> symmetric (previous_cov (snd (model_predict 0 (one_record (1 / 10000) (1 / 100) (1 / 100)))))"
proof -
  have "run_loop gauss_jordan_inverse [0..<0] (one_record (1 / 10000) (1 / 100) (1 / 100))
      = (Inr (), one_record (1 / 10000) (1 / 100) (1 / 100))"
    by simp
  then show ?thesis
    using covariance_stays_symmetric [OF gauss_jordan_keeps_shape init_one_record,
        of "1 / 10000" "1 / 100" "1 / 100"]
      init_one_record [of "1 / 10000" "1 / 100" "1 / 100"] gauss_jordan_keeps_shape
    by (metis snd_conv)
qed

lemma run_fails_only_at_inversion:
  assumes ks: "keeps_shape invert"
    and init: "kalman_filter_init pf recs q m p go io gn = Inr f0"
    and ne: "recs \<noteq> []" and noise: "noise_fits recs gn"
    and run: "run invert f0 = (Inl e, f')"
  shows "\<exists>S. invert S = Inl e"
proof -
  have N: "length (time f0) = length recs"
    using init_time(1) [OF init] ne by (simp add: np_matrix_def)
  have "list_all (\<lambda>i. has_record i f0) [0..<length recs]"
    using init_has_record [OF init _ noise] by (simp add: list_all_iff)
  then show ?thesis
    using run_loop_fails_at_inversion [OF ks init_wf(1) [OF init], of "[0..<length recs]" e f'] run N
    by (simp add: run_def)
qed

text \<open>
  C8. For an input of \<open>N\<close> records on which the run completes, the history has \<open>N + 1\<close>
  entries, the first is the zero vector the constructor sets, and after each \<open>n \<le> N\<close> steps
  the history is the first \<open>n + 1\<close> entries of the final one: entries are appended and never
  changed. The run on one record or more completes unless the inversion raises at a
  timestep (\<open>run_fails_only_at_inversion\<close>), whatever the headings of the records are. (A
  run on no record does not complete: numpy reads the empty list of rows as a matrix of one
  row and the first step raises IndexError.)
\<close>

theorem history_grows_by_one_per_timestep:
  assumes init: "kalman_filter_init pf recs q m p go io gn = Inr f0"
    and run: "run invert f0 = (Inr (), f')"
  shows "length (state_hist f') = length recs + 1
     \<and> state_hist f0 = [[[0, 0, 0, 0, 0]]]
     \<and> (\<forall>n\<le>length recs. \<exists>f. run_loop invert [0..<n] f0 = (Inr (), f)
            \<and> length (state_hist f) = n + 1
            \<and> state_hist f = take (n + 1) (state_hist f'))"
proof -
  have s0: "state_hist f0 = [[[0, 0, 0, 0, 0]]]" using init_wf(3) [OF init] .
  have ne: "recs \<noteq> []"
  proof
    assume "recs = []"
    then have "odometry f0 = [[]]" "time f0 = [[]]"
      using init_time [OF init] by (simp_all add: np_matrix_def)
    then have "run invert f0 = (Inl IndexError, f0)"
      by (simp add: run_def empty_load_run_fails)
    then show False using run by simp
  qed
  then have N: "length (time f0) = length recs"
    using init_time(1) [OF init] by (simp add: np_matrix_def)
  have whole: "run_loop invert [0..<length recs] f0 = (Inr (), f')" using run N by (simp add: run_def)
  from run_loop_history [OF whole] s0 have len: "length (state_hist f') = length recs + 1" by auto
  have pre: "\<exists>f. run_loop invert [0..<n] f0 = (Inr (), f) \<and> length (state_hist f) = n + 1
       \<and> state_hist f = take (n + 1) (state_hist f')" if n: "n \<le> length recs" for n
  proof -
    have split: "[0..<length recs] = [0..<n] @ [n..<length recs]"
      using n by (rule upt_split)
    obtain r f where p: "run_loop invert [0..<n] f0 = (r, f)" by (cases "run_loop invert [0..<n] f0")
    have r: "r = Inr ()" and rest: "run_loop invert [n..<length recs] f = (Inr (), f')"
      using whole p unfolding split run_loop_append by (cases r; simp)+
    from run_loop_history [OF p] r s0 have l1: "length (state_hist f) = n + 1" by auto
    from run_loop_history [OF rest] obtain new where "state_hist f' = state_hist f @ new" by auto
    then have "take (n + 1) (state_hist f') = state_hist f" using l1 by simp
    then show ?thesis using p r l1 by simp
  qed
  show ?thesis using len s0 pre by simp
qed

text \<open>The run with the default configuration on one record completes with two entries.\<close>

theorem history_grows_by_one_per_timestep_witness:
  "kalman_filter_init demo_float [demo_row ''0'' ''1'' ''0.01'' ''0.01'']
       (1 / 10000) (1 / 100) (1 / 100) None None None
     = Inr (one_record (1 / 10000) (1 / 100) (1 / 100))
   \<and> run gauss_jordan_inverse (one_record (1 / 10000) (1 / 100) (1 / 100))
       = (Inr (), snd (run gauss_jordan_inverse (one_record (1 / 10000) (1 / 100) (1 / 100))))
   \<and> length (state_hist (snd (run gauss_jordan_inverse (one_record (1 / 10000) (1 / 100) (1 / 100))))) = 2
   \<and> state_hist (one_record (1 / 10000) (1 / 100) (1 / 100)) = [[[0, 0, 0, 0, 0]]]
   \<and> take 1 (state_hist (snd (run gauss_jordan_inverse (one_record (1 / 10000) (1 / 100) (1 / 100)))))
       = [[[0, 0, 0, 0, 0]]]"
proof -
  have r: "run gauss_jordan_inverse (one_record (1 / 10000) (1 / 100) (1 / 100))
       = (Inr (), snd (run gauss_jordan_inverse (one_record (1 / 10000) (1 / 100) (1 / 100))))"
    using default_run by (simp add: prod_eq_iff)
  note t = history_grows_by_one_per_timestep [OF init_one_record r]
  have "run_loop gauss_jordan_inverse [0..<0] (one_record (1 / 10000) (1 / 100) (1 / 100))
      = (Inr (), one_record (1 / 10000) (1 / 100) (1 / 100))"
    by simp
  moreover from t have "\<exists>f. run_loop gauss_jordan_inverse [0..<0] (one_record (1 / 10000) (1 / 100) (1 / 100)) = (Inr (), f)
      \<and> length (state_hist f) = 0 + 1
      \<and> state_hist f = take (0 + 1) (state_hist (snd (run gauss_jordan_inverse (one_record (1 / 10000) (1 / 100) (1 / 100)))))"
    by blast
  ultimately have "take 1 (state_hist (snd (run gauss_jordan_inverse (one_record (1 / 10000) (1 / 100) (1 / 100)))))
       = state_hist (one_record (1 / 10000) (1 / 100) (1 / 100))"
    by simp
  then show ?thesis using t init_one_record [of "1 / 10000" "1 / 100" "1 / 100"] r by simp
qed

text \<open>
  C10. When the inversion of the innovation covariance raises at a timestep whose record the
  sensor matrices hold, the step and the loop end with that error, the history is the one
  before the step, and the stored covariance is the predicted covariance \<open>F P F\<^sup>T + Q\<close> of
  that timestep, which \<^verbatim>\<open>model_predict\<close> stored before the inversion was tried.
\<close>

theorem failed_inversion_keeps_predicted_cov:
  assumes wf: "wf_filter q m f" and rec: "has_record index f"
    and th: "theta = odometry f ! index ! 2"
    and f1: "f1 = f\<lparr>previous_cov := mat_add (dot (transition_matrix (delta_t f) theta)
                 (dot (previous_cov f) (transpose_mat (transition_matrix (delta_t f) theta))))
                 (process_noise f)\<rparr>"
    and inv: "invert (cov_Y f1) = Inl e"
  shows "state_update invert index f = (Inl e, f1)
     \<and> run_loop invert (index # rest) f = (Inl e, f1)
     \<and> state_hist f1 = state_hist f
     \<and> previous_cov f1 = mat_add (dot (transition_matrix (delta_t f) theta)
                 (dot (previous_cov f) (transpose_mat (transition_matrix (delta_t f) theta))))
                 (process_noise f)"
proof -
  have Q: "process_noise f = scale (identity 5) q" using wf by (simp add: wf_filter_def)
  have mp: "model_predict index f =
      (Inr (dot (transition_matrix (delta_t f) theta) (transpose_mat (last (state_hist f)))), f1)"
    using model_predict_returns [OF wf rec] by (simp add: th f1 Q)
  have su: "state_update invert index f = (Inl e, f1)"
    using state_update_fails_iff [OF wf rec mp, of invert e f1] inv by simp
  show ?thesis using su f1 by simp
qed


text \<open>
  C5, as the code has it. With the GPS variance override \<open>(c\<^sub>x, c\<^sub>y)\<close> every row of the GPS
  variances is \<open>(c\<^sub>x, c\<^sub>y)\<close>, and at every timestep of the records the measurement
  composition returns, and the entries \<open>R[0,0]\<close> and \<open>R[1,1]\<close> it returns are the fused
  standard deviations of the configured measurement value and \<open>c\<^sub>x\<close>, \<open>c\<^sub>y\<close>, whatever the
  file reports; for the override \<open>(0.01, 0.01)\<close> they are strictly below \<open>0.01\<close>. Without
  the override they are the fused standard deviations of the configured measurement value
  and the variances the file reports for the timestep.
\<close>

theorem gps_override_fixes_fused_deviation:
  assumes init: "kalman_filter_init pf recs q m p go io gn = Inr f0"
    and i: "index < length recs" and noise: "noise_fits recs gn"
  shows "\<exists>z R. fuse_readings index (f0\<lparr>previous_cov := P, state_hist := s\<rparr>) = Inr (z, R)
     \<and> (go = Some [cx, cy] \<longrightarrow>
            gps_cov f0 = replicate (length recs) [cx, cy]
          \<and> R ! 0 ! 0 = sqrt (inverse (1 / max (m ^ 2) float32_eps + 1 / max (cx ^ 2) float32_eps))
          \<and> R ! 1 ! 1 = sqrt (inverse (1 / max (m ^ 2) float32_eps + 1 / max (cy ^ 2) float32_eps))
          \<and> (cx = 1 / 100 \<longrightarrow> R ! 0 ! 0 < 1 / 100) \<and> (cy = 1 / 100 \<longrightarrow> R ! 1 ! 1 < 1 / 100))
     \<and> (go = None \<longrightarrow>
            R ! 0 ! 0 = sqrt (inverse (1 / max (m ^ 2) float32_eps
                          + 1 / max ((field_value pf (recs ! index) gps_cov_x) ^ 2) float32_eps))
          \<and> R ! 1 ! 1 = sqrt (inverse (1 / max (m ^ 2) float32_eps
                          + 1 / max ((field_value pf (recs ! index) gps_cov_y) ^ 2) float32_eps)))"
proof -
  have mc: "measurement_cov f0 = scale (identity 5) m" using init_gps_cov(3) [OF init] .
  obtain z R where fr: "fuse_readings index f0 = Inr (z, R)"
    using fuse_readings_returns [OF mc init_has_record [OF init i noise]] by blast
  from fr obtain ox gx m00 cgx mx dx oy gy m11 cgy my dy m22 dt m44 where
    g: "mat_get (measurement_cov f0) 0 0 = Inr m00" "mat_get (gps_cov f0) index 0 = Inr cgx"
      "mat_get (measurement_cov f0) 1 1 = Inr m11" "mat_get (gps_cov f0) index 1 = Inr cgy"
    and fu: "fuse ox gx m00 cgx = Inr (mx, dx)" "fuse oy gy m11 cgy = Inr (my, dy)"
    and R: "R = [[dx, 0, 0, 0, 0], [0, dy, 0, 0, 0], [0, 0, m22, 0, 0], [0, 0, 0, dt, 0], [0, 0, 0, 0, m44]]"
    by (rule fuse_readings_Inr)
  have m: "m00 = m" "m11 = m" using g(1,3) by (simp_all add: mc identity_5 scale_def mat_get_def)
  have dx: "dx = sqrt (inverse (1 / max (m ^ 2) float32_eps + 1 / max (cgx ^ 2) float32_eps))"
    and dy: "dy = sqrt (inverse (1 / max (m ^ 2) float32_eps + 1 / max (cgy ^ 2) float32_eps))"
    using fu by (simp_all add: fuse_value fuse_spec_def Let_def m)
  have RR: "R ! 0 ! 0 = dx" "R ! 1 ! 1 = dy" by (simp_all add: R)
  have ov: "gps_cov f0 = replicate (length recs) [cx, cy]
          \<and> R ! 0 ! 0 = sqrt (inverse (1 / max (m ^ 2) float32_eps + 1 / max (cx ^ 2) float32_eps))
          \<and> R ! 1 ! 1 = sqrt (inverse (1 / max (m ^ 2) float32_eps + 1 / max (cy ^ 2) float32_eps))
          \<and> (cx = 1 / 100 \<longrightarrow> R ! 0 ! 0 < 1 / 100) \<and> (cy = 1 / 100 \<longrightarrow> R ! 1 ! 1 < 1 / 100)"
    if go: "go = Some [cx, cy]"
  proof -
    have gc: "gps_cov f0 = replicate (length recs) [cx, cy]" using init_gps_cov(1) [OF init go] by simp
    have "cgx = cx" "cgy = cy" using g(2,4) by (auto simp: gc mat_get_def split: if_splits)
    then have v: "R ! 0 ! 0 = sqrt (inverse (1 / max (m ^ 2) float32_eps + 1 / max (cx ^ 2) float32_eps))"
      "R ! 1 ! 1 = sqrt (inverse (1 / max (m ^ 2) float32_eps + 1 / max (cy ^ 2) float32_eps))"
      using RR dx dy by simp_all
    have e: "float32_eps \<le> (1 / 100) ^ 2" by (simp add: float32_eps_def power2_eq_square)
    have "R ! 0 ! 0 < 1 / 100" if "cx = 1 / 100"
      unfolding v that by (rule fused_deviation_below [OF _ e]) simp
    moreover have "R ! 1 ! 1 < 1 / 100" if "cy = 1 / 100"
      unfolding v that by (rule fused_deviation_below [OF _ e]) simp
    ultimately show ?thesis using gc v by simp
  qed
  have no: "R ! 0 ! 0 = sqrt (inverse (1 / max (m ^ 2) float32_eps
                          + 1 / max ((field_value pf (recs ! index) gps_cov_x) ^ 2) float32_eps))
          \<and> R ! 1 ! 1 = sqrt (inverse (1 / max (m ^ 2) float32_eps
                          + 1 / max ((field_value pf (recs ! index) gps_cov_y) ^ 2) float32_eps))"
    if go: "go = None"
  proof -
    have gc: "gps_cov f0 = np_matrix (map (\<lambda>l. [field_value pf l gps_cov_x,
            field_value pf l gps_cov_y]) recs)" using init_gps_cov(2) [OF init go] .
    have "cgx = field_value pf (recs ! index) gps_cov_x \<and> cgy = field_value pf (recs ! index) gps_cov_y"
      using g(2,4) by (cases "recs = []") (auto simp: gc np_matrix_def mat_get_def split: if_splits)
    then show ?thesis using RR dx dy by simp
  qed
  have "fuse_readings index (f0\<lparr>previous_cov := P, state_hist := s\<rparr>) = Inr (z, R)"
    using fr by (simp add: fuse_readings_same_data)
  then show ?thesis using ov no by blast
qed

text \<open>
  C7, as the code has it. If a field of a record is missing or not numeric, loading fails
  with KeyError, TypeError or ValueError and the constructor returns no filter, so that no
  filtering step runs. If every field of every record is numeric the constructor returns a
  filter whatever the time values are: they are stored and never compared. The matrices hold
  the records in file order, and the run takes the indices \<open>0, \<dots>, N - 1\<close> in this order.
\<close>

theorem malformed_records_fail_at_load:
  "(\<not> list_all (row_ok pf) recs \<longrightarrow>
       (\<exists>e. load_error e \<and> get_data pf recs = Inl e
            \<and> kalman_filter_init pf recs q m p go io gn = Inl e))
   \<and> (list_all (row_ok pf) recs \<longrightarrow>
       (\<exists>f. kalman_filter_init pf recs q m p None None gn = Inr f
            \<and> time f = np_matrix (map (\<lambda>l. [field_value pf l time_index]) recs)
            \<and> odometry f = np_matrix (map (\<lambda>l. [field_value pf l odometer_x,
                  field_value pf l odometer_y, field_value pf l odometer_theta]) recs)
            \<and> gps f = noise_gps (np_matrix (map (\<lambda>l. [field_value pf l gps_x,
                  field_value pf l gps_y]) recs)) gn
            \<and> run invert f = run_loop invert [0..<length (time f)] f))"
proof (intro conjI impI)
  assume "\<not> list_all (row_ok pf) recs"
  then obtain e where "get_data pf recs = Inl e" "load_error e"
    using get_data_bad by blast
  then show "\<exists>e. load_error e \<and> get_data pf recs = Inl e
            \<and> kalman_filter_init pf recs q m p go io gn = Inl e"
    by (auto simp: kalman_filter_init_def)
next
  assume ok: "list_all (row_ok pf) recs"
  show "\<exists>f. kalman_filter_init pf recs q m p None None gn = Inr f
            \<and> time f = np_matrix (map (\<lambda>l. [field_value pf l time_index]) recs)
            \<and> odometry f = np_matrix (map (\<lambda>l. [field_value pf l odometer_x,
                  field_value pf l odometer_y, field_value pf l odometer_theta]) recs)
            \<and> gps f = noise_gps (np_matrix (map (\<lambda>l. [field_value pf l gps_x,
                  field_value pf l gps_y]) recs)) gn
            \<and> run invert f = run_loop invert [0..<length (time f)] f"
    by (simp add: kalman_filter_init_def get_data_ok [OF ok] loaded_def run_def)
qed



lemma null_readings:
  "fuse_readings 0 ((one_record q 0 p)\<lparr>previous_cov := P\<rparr>) =
     Inr ([[1], [0], [14 / 100], [0], [0]],
          [[sqrt (1 / 8398608), 0, 0, 0, 0], [0, sqrt (1 / 8398608), 0, 0, 0], [0, 0, 0, 0, 0],
           [0, 0, 0, sqrt (1 / 8398608), 0], [0, 0, 0, 0, 0]])"
  unfolding one_record_def fuse_readings_cov
  by (rule sample_readings_at [where g = "1 / 100"]) (simp_all add: fuse_exact)




lemma cancel_readings:
  "fuse_readings 0 ((one_record q (- 1) p)\<lparr>previous_cov := P\<rparr>) =
     Inr ([[1], [0], [14 / 100], [0], [0]],
          [[sqrt (1 / 10001), 0, 0, 0, 0], [0, sqrt (1 / 10001), 0, 0, 0], [0, 0, - 1, 0, 0],
           [0, 0, 0, sqrt (1 / 10001), 0], [0, 0, 0, 0, - 1]])"
  unfolding one_record_def fuse_readings_cov
  by (rule sample_readings_at [where g = "1 / 100"]) (simp_all add: fuse_cancel)

lemma cancel_innovation:
  "cov_Y ((one_record 1 (- 1) 0)\<lparr>previous_cov := identity 5\<rparr>) = zeros 5 5"
proof -
  have "wf_filter 1 (- 1) ((one_record 1 (- 1) 0)\<lparr>previous_cov := identity 5\<rparr>)"
    using one_record_wf is_mat_identity by (rule wf_with_cov)
  then show ?thesis by (simp add: cov_Y_value cancel_cov_Y_eval)
qed

text \<open>
  With process noise 1, measurement covariance \<open>-1\<close> and initial covariance 0 the innovation
  covariance of the first step is the zero matrix: the inversion fails, and the stored
  covariance has changed from the zero matrix to the identity.
\<close>

theorem failed_inversion_keeps_predicted_cov_witness:
  "wf_filter 1 (- 1) (one_record 1 (- 1) 0)
   \<and> has_record 0 (one_record 1 (- 1) 0)
   \<and> odometry (one_record 1 (- 1) 0) ! 0 ! 2 = 0
   \<and> gauss_jordan_inverse (cov_Y ((one_record 1 (- 1) 0)\<lparr>previous_cov := identity 5\<rparr>)) = Inl LinAlgError
   \<and> state_update gauss_jordan_inverse 0 (one_record 1 (- 1) 0)
       = (Inl LinAlgError, (one_record 1 (- 1) 0)\<lparr>previous_cov := identity 5\<rparr>)
   \<and> run_loop gauss_jordan_inverse [0] (one_record 1 (- 1) 0)
       = (Inl LinAlgError, (one_record 1 (- 1) 0)\<lparr>previous_cov := identity 5\<rparr>)
   \<and> state_hist ((one_record 1 (- 1) 0)\<lparr>previous_cov := identity 5\<rparr>)
       = state_hist (one_record 1 (- 1) 0)
   \<and> previous_cov ((one_record 1 (- 1) 0)\<lparr>previous_cov := identity 5\<rparr>)
       = mat_add (dot (transition_matrix (delta_t (one_record 1 (- 1) 0)) 0)
           (dot (previous_cov (one_record 1 (- 1) 0))
             (transpose_mat (transition_matrix (delta_t (one_record 1 (- 1) 0)) 0))))
           (process_noise (one_record 1 (- 1) 0))
   \<and> previous_cov ((one_record 1 (- 1) 0)\<lparr>previous_cov := identity 5\<rparr>)
       \<noteq> previous_cov (one_record 1 (- 1) 0)"
proof -
  have th: "0 = odometry (one_record 1 (- 1) 0) ! 0 ! 2"
    by (simp add: one_record_def sample_fields)
  have P: "mat_add (dot (transition_matrix (delta_t (one_record 1 (- 1) 0)) 0)
           (dot (previous_cov (one_record 1 (- 1) 0))
             (transpose_mat (transition_matrix (delta_t (one_record 1 (- 1) 0)) 0))))
           (process_noise (one_record 1 (- 1) 0)) = identity 5"
    by (simp add: one_record_def sample_fields transition_matrix_0 cancel_cov_pred_eval)
  have f1: "(one_record 1 (- 1) 0)\<lparr>previous_cov := identity 5\<rparr> =
      (one_record 1 (- 1) 0)\<lparr>previous_cov :=
         mat_add (dot (transition_matrix (delta_t (one_record 1 (- 1) 0)) 0)
           (dot (previous_cov (one_record 1 (- 1) 0))
             (transpose_mat (transition_matrix (delta_t (one_record 1 (- 1) 0)) 0))))
           (process_noise (one_record 1 (- 1) 0))\<rparr>"
    by (simp only: P)
  have inv: "gauss_jordan_inverse (cov_Y ((one_record 1 (- 1) 0)\<lparr>previous_cov := identity 5\<rparr>)) = Inl LinAlgError"
    by (simp add: cancel_innovation zeros_not_inverted)
  have ne: "previous_cov ((one_record 1 (- 1) 0)\<lparr>previous_cov := identity 5\<rparr>)
       \<noteq> previous_cov (one_record 1 (- 1) 0)"
    by (simp add: one_record_def sample_fields identity_5 scale_def)
  show ?thesis
    using failed_inversion_keeps_predicted_cov
        [where invert = gauss_jordan_inverse and rest = "[]",
         OF one_record_wf one_record_has th f1 inv]
      one_record_wf [of 1 "- 1" 0] one_record_has [of 1 "- 1" 0] th [symmetric] inv ne
    by (elim conjE) (intro conjI, assumption+)
qed

lemma fuse_file_variance: "fuse b b (1 / 100) 1 = Inr (b, sqrt (1 / 10001))"
proof -
  have "b * 10000 + b = b * 10001" by simp
  then show ?thesis
    by (simp add: fuse_value fuse_spec_def Let_def float32_eps_def power2_eq_square
      inverse_eq_divide)
qed

lemma file_variance_readings:
  "fuse_readings 0 ((one_record q (1 / 100) p)\<lparr>gps_cov := [[1, 1]]\<rparr>) =
     Inr ([[1], [0], [14 / 100], [0], [0]],
          [[sqrt (1 / 10001), 0, 0, 0, 0], [0, sqrt (1 / 10001), 0, 0, 0], [0, 0, 1 / 100, 0, 0],
           [0, 0, 0, sqrt (1 / 20000), 0], [0, 0, 0, 0, 1 / 100]])"
proof -
  have "(one_record q (1 / 100) p)\<lparr>gps_cov := [[1, 1]]\<rparr>
      = sample_filter q (1 / 100) p [[0]] [[1, 0, 0]] [[0]] [[1 / 100]] [[1, 0]] [[1, 1]]"
    by (simp add: one_record_def sample_filter_def)
  then show ?thesis
    by (simp only:) (rule sample_readings_at [where g = 1], simp_all add: fuse_default fuse_file_variance)
qed

text \<open>One record whose file variance is 1, with the override and without it.\<close>

theorem gps_override_fixes_fused_deviation_witness:
  "kalman_filter_init demo_float [demo_row ''0'' ''1'' ''0.01'' ''1'']
       (1 / 10000) (1 / 100) (1 / 100) (Some [1 / 100, 1 / 100]) None None
     = Inr (one_record (1 / 10000) (1 / 100) (1 / 100))
   \<and> 0 < length [demo_row ''0'' ''1'' ''0.01'' ''1'']
   \<and> noise_fits [demo_row ''0'' ''1'' ''0.01'' ''1''] None
   \<and> (\<exists>z R. fuse_readings 0 ((one_record (1 / 10000) (1 / 100) (1 / 100))
                \<lparr>previous_cov := default_cov_pred, state_hist := [[[0, 0, 0, 0, 0]]]\<rparr>) = Inr (z, R)
         \<and> R ! 0 ! 0 = sqrt (inverse (1 / max ((1 / 100) ^ 2) float32_eps
                                        + 1 / max ((1 / 100) ^ 2) float32_eps))
         \<and> R ! 1 ! 1 = sqrt (inverse (1 / max ((1 / 100) ^ 2) float32_eps
                                        + 1 / max ((1 / 100) ^ 2) float32_eps))
         \<and> R ! 0 ! 0 < 1 / 100 \<and> R ! 1 ! 1 < 1 / 100)
   \<and> kalman_filter_init demo_float [demo_row ''0'' ''1'' ''0.01'' ''1'']
       (1 / 10000) (1 / 100) (1 / 100) None None None
     = Inr ((one_record (1 / 10000) (1 / 100) (1 / 100))\<lparr>gps_cov := [[1, 1]]\<rparr>)
   \<and> (\<exists>z R. fuse_readings 0 ((one_record (1 / 10000) (1 / 100) (1 / 100))
                \<lparr>gps_cov := [[1, 1]], previous_cov := default_cov_pred,
                 state_hist := [[[0, 0, 0, 0, 0]]]\<rparr>) = Inr (z, R)
         \<and> R ! 0 ! 0 = sqrt (inverse (1 / max ((1 / 100) ^ 2) float32_eps
              + 1 / max ((field_value demo_float
                   ([demo_row ''0'' ''1'' ''0.01'' ''1''] ! 0) gps_cov_x) ^ 2) float32_eps))
         \<and> R ! 1 ! 1 = sqrt (inverse (1 / max ((1 / 100) ^ 2) float32_eps
              + 1 / max ((field_value demo_float
                   ([demo_row ''0'' ''1'' ''0.01'' ''1''] ! 0) gps_cov_y) ^ 2) float32_eps)))"
proof -
  have i: "0 < length [demo_row ''0'' ''1'' ''0.01'' ''1'']" by simp
  have n: "noise_fits [demo_row ''0'' ''1'' ''0.01'' ''1''] None" by (simp add: noise_fits_def)
  note t1 = gps_override_fixes_fused_deviation
      [where P = default_cov_pred and s = "[[[0, 0, 0, 0, 0]]]" and cx = "1 / 100" and cy = "1 / 100",
       OF init_one_record_override [of "1 / 10000" "1 / 100" "1 / 100"] i n]
  note t2 = gps_override_fixes_fused_deviation
      [where P = default_cov_pred and s = "[[[0, 0, 0, 0, 0]]]",
       OF init_one_record_file_variance [of "1 / 10000" "1 / 100" "1 / 100"] i n]
  show ?thesis
    using t1 t2 i n init_one_record_override [of "1 / 10000" "1 / 100" "1 / 100"]
      init_one_record_file_variance [of "1 / 10000" "1 / 100" "1 / 100"]
    by blast
qed

text \<open>
  C5 as stated fails. With the override \<open>(0.01, 0.01)\<close> and the default configuration the
  entries \<open>R[0,0]\<close> and \<open>R[1,1]\<close> are \<open>sqrt (1 / 20000)\<close>, about \<open>0.00707\<close>, not \<open>0.01\<close>.
\<close>

theorem gps_override_deviation_is_not_the_override:
  "kalman_filter_init demo_float [demo_row ''0'' ''1'' ''0.01'' ''1'']
       (1 / 10000) (1 / 100) (1 / 100) (Some [1 / 100, 1 / 100]) None None
     = Inr (one_record (1 / 10000) (1 / 100) (1 / 100))
   \<and> fuse_readings 0 (one_record (1 / 10000) (1 / 100) (1 / 100))
     = Inr ([[1], [0], [14 / 100], [0], [0]],
          [[sqrt (1 / 20000), 0, 0, 0, 0], [0, sqrt (1 / 20000), 0, 0, 0], [0, 0, 1 / 100, 0, 0],
           [0, 0, 0, sqrt (1 / 20000), 0], [0, 0, 0, 0, 1 / 100]])
   \<and> [[sqrt (1 / 20000), 0, 0, 0, 0], [0, sqrt (1 / 20000), 0, 0, 0], [0, 0, 1 / 100, 0, 0],
           [0, 0, 0, sqrt (1 / 20000), 0], [0, 0, 0, 0, 1 / 100]] ! 0 ! 0 \<noteq> 1 / 100
   \<and> [[sqrt (1 / 20000), 0, 0, 0, 0], [0, sqrt (1 / 20000), 0, 0, 0], [0, 0, 1 / 100, 0, 0],
           [0, 0, 0, sqrt (1 / 20000), 0], [0, 0, 0, 0, 1 / 100]] ! 1 ! 1 \<noteq> 1 / 100"
  using init_one_record_override [of "1 / 10000" "1 / 100" "1 / 100"]
    default_readings [where q = "1 / 10000" and p = "1 / 100", unfolded fuse_readings_cov]
    sqrt_20000
  by simp

text \<open>A record with a non-numeric field, and a record that loads.\<close>

theorem malformed_records_fail_at_load_witness:
  "\<not> list_all (row_ok demo_float) [demo_row ''0'' ''abc'' ''0.01'' ''0.01'']
   \<and> (\<exists>e. load_error e \<and> get_data demo_float [demo_row ''0'' ''abc'' ''0.01'' ''0.01''] = Inl e
        \<and> kalman_filter_init demo_float [demo_row ''0'' ''abc'' ''0.01'' ''0.01'']
             (1 / 10000) (1 / 100) (1 / 100) None None None = Inl e)
   \<and> list_all (row_ok demo_float) [demo_row ''0'' ''1'' ''0.01'' ''0.01'']
   \<and> (\<exists>f. kalman_filter_init demo_float [demo_row ''0'' ''1'' ''0.01'' ''0.01'']
             (1 / 10000) (1 / 100) (1 / 100) None None None = Inr f
        \<and> run gauss_jordan_inverse f = run_loop gauss_jordan_inverse [0..<length (time f)] f)"
proof -
  have bad: "\<not> list_all (row_ok demo_float) [demo_row ''0'' ''abc'' ''0.01'' ''0.01'']"
    by (simp add: demo_row_bad)
  have good: "list_all (row_ok demo_float) [demo_row ''0'' ''1'' ''0.01'' ''0.01'']"
    using demo_row_ok [OF demo_values(1,2,4,4)] by simp
  show ?thesis
    using malformed_records_fail_at_load [of demo_float "[demo_row ''0'' ''abc'' ''0.01'' ''0.01'']"
        "1 / 10000" "1 / 100" "1 / 100" None None None gauss_jordan_inverse]
      malformed_records_fail_at_load [of demo_float "[demo_row ''0'' ''1'' ''0.01'' ''0.01'']"
        "1 / 10000" "1 / 100" "1 / 100" None None None gauss_jordan_inverse]
      bad good
    by blast
qed

text \<open>
  C7 as stated fails. Two records with the times 2 and 1, and two records with the times 0
  and 2, load without any error.
\<close>

theorem out_of_order_times_load_without_error:
  "kalman_filter_init demo_float
       [demo_row ''2'' ''1'' ''0.01'' ''0.01'', demo_row ''1'' ''2'' ''0.01'' ''0.01'']
       (1 / 10000) (1 / 100) (1 / 100) None None None
     = Inr (two_records (1 / 10000) (1 / 100) (1 / 100) [[2], [1]])
   \<and> time (two_records (1 / 10000) (1 / 100) (1 / 100) [[2], [1]]) = [[2], [1]]
   \<and> kalman_filter_init demo_float
       [demo_row ''0'' ''1'' ''0.01'' ''0.01'', demo_row ''2'' ''2'' ''0.01'' ''0.01'']
       (1 / 10000) (1 / 100) (1 / 100) None None None
     = Inr (two_records (1 / 10000) (1 / 100) (1 / 100) [[0], [2]])"
  using init_two_records [of "''2''" 2 "''1''" 1 "1 / 10000" "1 / 100" "1 / 100"]
    init_two_records [of "''0''" 0 "''2''" 2 "1 / 10000" "1 / 100" "1 / 100"]
  by (simp add: two_records_def sample_fields)

end
